theory Spec2Isabelle
  imports Complex_Main
begin

section \<open>Conditional SAGE cones of sageopt: the cover helper and the cone compilers\<close>

text \<open>
  The development embeds \<^verbatim>\<open>conditional_sage_cone.py\<close>. numpy's floating point
  numbers are read as real numbers, except in the one test of the source that compares a
  computed product with zero, where the underflow of float64 is written out. A
  one-dimensional array is a list, a matrix is the list of its rows, and the boolean
  arrays that a caller supplies, which the source changes in place, are views of a memory.
  Every exception the source can raise is a value \<open>Inl e\<close> of the result.
\<close>

subsection \<open>Values, errors and numpy primitives\<close>

datatype error =
  RuntimeError | NotImplementedError | IndexError | ValueError | KeyError | TypeError

type_synonym vec = "real list"

type_synonym matrix = "real list list"

datatype cone = Cone (type: string) (len: nat)

definition ALLOWED_CONES :: "string set" where
  "ALLOWED_CONES = {''+'', ''S'', ''e'', ''0''}"

definition check_cones :: "cone list \<Rightarrow> error + cone list" where
  "check_cones K =
     (if list_ex (\<lambda>co. type co \<notin> ALLOWED_CONES) K then Inl NotImplementedError
      else Inr (map (\<lambda>co. Cone (type co) (len co)) K))"

text \<open>\<^verbatim>\<open>np.any(mask)\<close> and \<^verbatim>\<open>np.count_nonzero(mask)\<close> on a boolean array.\<close>

definition np_any :: "bool list \<Rightarrow> bool" where
  "np_any msk = list_ex (\<lambda>b. b) msk"

definition count_nonzero :: "bool list \<Rightarrow> nat" where
  "count_nonzero msk = length (filter (\<lambda>b. b) msk)"

text \<open>
  \<^verbatim>\<open>xs[idxs] = v\<close> with a list of integer indices: numpy raises IndexError when an
  index is out of bounds, and writes \<open>v\<close> at every index otherwise.
\<close>

definition index_assign :: "'a list \<Rightarrow> nat list \<Rightarrow> 'a \<Rightarrow> error + 'a list" where
  "index_assign xs idxs v =
     (if list_ex (\<lambda>i. length xs \<le> i) idxs then Inl IndexError
      else Inr (fold (\<lambda>i ys. ys[i := v]) idxs xs))"

text \<open>\<^verbatim>\<open>xs[i] = v\<close> with one integer index.\<close>

definition item_assign :: "'a list \<Rightarrow> nat \<Rightarrow> 'a \<Rightarrow> error + 'a list" where
  "item_assign xs i v = (if i < length xs then Inr (xs[i := v]) else Inl IndexError)"

text \<open>\<^verbatim>\<open>xs[i]\<close> with one integer index.\<close>

definition item :: "'a list \<Rightarrow> nat \<Rightarrow> error + 'a" where
  "item xs i = (if i < length xs then Inr (xs ! i) else Inl IndexError)"

text \<open>
  \<^verbatim>\<open>xs[mask]\<close> with a boolean mask: the mask must be as long as the array, and the
  result keeps the entries where the mask is true, in order.
\<close>

definition mask_select :: "'a list \<Rightarrow> bool list \<Rightarrow> error + 'a list" where
  "mask_select xs msk =
     (if length msk \<noteq> length xs then Inl IndexError
      else Inr (map fst (filter snd (zip xs msk))))"

text \<open>
  \<^verbatim>\<open>xs[mask] = vs\<close>: the mask must be as long as the array (IndexError), and \<open>vs\<close>
  must supply one value for each true position (ValueError); the values are written to the
  true positions in order. (numpy also broadcasts a single value to several true
  positions; that is written out as well.)
\<close>

fun scatter :: "'a list \<Rightarrow> bool list \<Rightarrow> 'a list \<Rightarrow> 'a list" where
  "scatter (x # xs) (True # ms) (v # vs) = v # scatter xs ms vs"
| "scatter (x # xs) (False # ms) vs = x # scatter xs ms vs"
| "scatter xs ms vs = xs"

definition mask_assign :: "'a list \<Rightarrow> bool list \<Rightarrow> 'a list \<Rightarrow> error + 'a list" where
  "mask_assign xs msk vs =
     (if length msk \<noteq> length xs then Inl IndexError
      else if length vs = count_nonzero msk then Inr (scatter xs msk vs)
      else if length vs = 1 then Inr (scatter xs msk (replicate (count_nonzero msk) (hd vs)))
      else Inl ValueError)"

text \<open>The dot product \<^verbatim>\<open>u @ w\<close> of two rows of one matrix.\<close>

definition dot :: "vec \<Rightarrow> vec \<Rightarrow> real" where
  "dot u w = sum_list (map (\<lambda>(a, b). a * b) (zip u w))"

text \<open>
  The same product as numpy computes it in float64, the dtype that the exponent matrix is
  read with, as far as the test \<^verbatim>\<open>curr_row @ self.alpha[j, :] == 0\<close> of line 486 needs
  it. The product of two float64
  numbers is rounded to zero when its magnitude is at most \<open>2 ^ - 1075\<close>, half the least
  positive float64 number. The rounding of larger products and of the sums is left out: it
  does not decide whether the result is zero when no entry is negative, which is where line
  486 is reached, since a sum of float64 numbers none of which is negative is zero only when
  every summand is.
\<close>

definition float64_times :: "real \<Rightarrow> real \<Rightarrow> real" where
  "float64_times a b = (if \<bar>a * b\<bar> \<le> 1 / 2 ^ 1075 then 0 else a * b)"

definition float64_dot :: "vec \<Rightarrow> vec \<Rightarrow> real" where
  "float64_dot u w = sum_list (map (\<lambda>(a, b). float64_times a b) (zip u w))"

text \<open>\<^verbatim>\<open>np.min(xs)\<close>: ValueError on an empty array.\<close>

definition np_min :: "vec \<Rightarrow> error + real" where
  "np_min xs = (case xs of [] \<Rightarrow> Inl ValueError | x # ys \<Rightarrow> Inr (fold min ys x))"

subsection \<open>Scalar expressions\<close>

text \<open>
  Modelled from the spec: the class \<^verbatim>\<open>ScalarExpression\<close> of
  \<^verbatim>\<open>sageopt.coniclifts.base\<close> is not among the sources. An entry of a coefficient
  vector is "either a fixed real number or a free/affine unknown": an affine combination
  of scalar variables (\<open>atoms_to_coeffs\<close>) plus a constant \<open>offset\<close>, constant when it
  has no variable. A scalar variable is identified by the name of the vector variable it
  belongs to and its position there.
\<close>

datatype var_name =
    nu_name nat string
  | c_name nat string
  | relent_epi_name nat string
  | lambda_name nat string
  | mu_name nat string
  | user_name string

datatype scalar_variable = ScalarVariable var_name nat

datatype scalar_expression =
  ScalarExpression (atoms_to_coeffs: "(scalar_variable \<times> real) list") (offset: real)

definition is_constant :: "scalar_expression \<Rightarrow> bool" where
  "is_constant e = (atoms_to_coeffs e = [])"

type_synonym expression = "scalar_expression list"

text \<open>\<^verbatim>\<open>Expression(np.zeros(m,))\<close>, a constant, and a variable read as an expression.\<close>

definition const_expr :: "real \<Rightarrow> scalar_expression" where
  "const_expr r = ScalarExpression [] r"

definition var_expr :: "scalar_variable \<Rightarrow> scalar_expression" where
  "var_expr sv = ScalarExpression [(sv, 1)] 0"

text \<open>\<^verbatim>\<open>Variable(shape=(k,), name=nm)\<close> as the expression of its \<open>k\<close> scalar variables.\<close>

definition Variable :: "nat \<Rightarrow> var_name \<Rightarrow> expression" where
  "Variable k nm = map (\<lambda>j. var_expr (ScalarVariable nm j)) [0..<k]"

text \<open>The value of an expression once its variables have values.\<close>

definition scalar_value :: "(scalar_variable \<Rightarrow> real) \<Rightarrow> scalar_expression \<Rightarrow> real" where
  "scalar_value \<sigma> e = sum_list (map (\<lambda>(sv, co). co * \<sigma> sv) (atoms_to_coeffs e)) + offset e"

definition expr_value :: "(scalar_variable \<Rightarrow> real) \<Rightarrow> expression \<Rightarrow> vec" where
  "expr_value \<sigma> es = map (scalar_value \<sigma>) es"

subsection \<open>The cover helper: sign classification\<close>

text \<open>
  \<^verbatim>\<open>ExpCoverHelper.__init__\<close>, lines 432 to 448. \<open>c\<close> is \<open>None\<close> for a dual cone
  with no companion coefficient vector.
\<close>

definition classify_U :: "expression \<Rightarrow> nat list" where
  "classify_U c = filter (\<lambda>i. \<not> is_constant (c ! i) \<or> offset (c ! i) < 0) [0..<length c]"

definition classify_N :: "expression \<Rightarrow> nat list" where
  "classify_N c = filter (\<lambda>i. is_constant (c ! i) \<and> offset (c ! i) < 0) [0..<length c]"

definition classify_P :: "expression \<Rightarrow> nat list" where
  "classify_P c = filter (\<lambda>i. is_constant (c ! i) \<and> offset (c ! i) > 0) [0..<length c]"

definition sign_classes :: "nat \<Rightarrow> expression option \<Rightarrow> nat list \<times> nat list \<times> nat list" where
  "sign_classes m c =
     (case c of
        Some ce \<Rightarrow> (classify_U ce, classify_N ce, classify_P ce)
      | None \<Rightarrow> ([0..<m], [], []))"

subsection \<open>The cover helper: validation of a supplied cover map\<close>

text \<open>
  The arrays of a supplied dictionary belong to the caller, and \<^verbatim>\<open>_verify_exp_covers\<close>
  writes to them in place. The entries of boolean arrays therefore live in a memory, a map
  from addresses to truth values, and an array is a view of that memory: its shape, the
  addresses of its entries in row-major order, and its flag \<^verbatim>\<open>writeable\<close>. One array
  stored under two keys is one value under both; two views that share entries name the same
  addresses.

  A value of the dictionary is a boolean numpy array or anything else; a term
  \<open>bool_ndarray sh buf w\<close> whose buffer does not have \<open>prod_list sh\<close> entries stands for no
  array and is read as a value of another type. The type parameter is the type of the
  entries: addresses in the caller's dictionary, truth values in the copy that the helper
  is recorded with. The argument \<open>expcovers\<close> itself is \<open>None\<close>, a dictionary or anything
  else.
\<close>

type_synonym addr = nat

type_synonym memory = "addr \<Rightarrow> bool"

datatype 'c cover_value =
    bool_ndarray (shape: "nat list") (buffer: "'c list") (writeable: bool)
  | not_bool_ndarray

datatype expcovers_arg =
    expcovers_None
  | expcovers_dict "nat \<rightharpoonup> addr cover_value"
  | expcovers_other

text \<open>
  \<^verbatim>\<open>isinstance(v, np.ndarray) and v.dtype == bool\<close>, and the array with the contents that
  a memory gives it.
\<close>

definition is_bool_ndarray :: "'c cover_value \<Rightarrow> bool" where
  "is_bool_ndarray v =
     (case v of bool_ndarray sh buf w \<Rightarrow> length buf = prod_list sh | not_bool_ndarray \<Rightarrow> False)"

definition contents :: "memory \<Rightarrow> addr cover_value \<Rightarrow> bool cover_value" where
  "contents mem v = map_cover_value mem v"

text \<open>
  What \<^verbatim>\<open>a[i]\<close> is for the test \<^verbatim>\<open>if a[i]:\<close> and the assignment \<^verbatim>\<open>a[i] = False\<close>, for an
  array of shape \<open>sh\<close>. An array of no dimension cannot be indexed and one whose first
  axis is not longer than \<open>i\<close> has no position \<open>i\<close>: IndexError. In an array of one
  dimension \<open>a[i]\<close> is an entry. In an array of more dimensions \<open>a[i]\<close> is the sub-array of
  the entries \<open>i * k, \<dots>, i * k + k - 1\<close>, with \<open>k\<close> the product of the other dimensions,
  and its truth value is that of its entry when \<open>k = 1\<close> and raises ValueError otherwise
  (for \<open>k = 0\<close> this is numpy from version 2.2; the versions before it warn and read an
  array of no entry as false).
\<close>

definition self_entry :: "nat list \<Rightarrow> 'c list \<Rightarrow> nat \<Rightarrow> error + 'c" where
  "self_entry sh buf i =
     (case sh of
        [] \<Rightarrow> Inl IndexError
      | n # rest \<Rightarrow>
          if n \<le> i then Inl IndexError
          else if prod_list rest = 1 then Inr (buf ! i)
          else Inl ValueError)"

text \<open>
  \<^verbatim>\<open>_verify_exp_covers\<close>. The dictionary keeps its keys and its arrays; what changes is
  the memory that the arrays view. The model returns the memory after the loop together
  with the warnings issued, oldest first. The assignment to an array that is not writeable
  raises ValueError, after the warning.
\<close>

definition store_entry :: "memory \<Rightarrow> addr \<Rightarrow> bool \<Rightarrow> memory" where
  "store_entry mem a b = mem(a := b)"

definition nonsensical_warning :: string where
  "nonsensical_warning = ''Nonsensical value in \"expcovers\"; correcting.''"

fun verify_exp_covers ::
  "nat list \<Rightarrow> (nat \<rightharpoonup> addr cover_value) \<Rightarrow> memory \<Rightarrow> string list
     \<Rightarrow> error + (memory \<times> string list)" where
  "verify_exp_covers [] expcovers mem ws = Inr (mem, ws)"
| "verify_exp_covers (i # is) expcovers mem ws =
     (case expcovers i of
        None \<Rightarrow> Inl RuntimeError
      | Some v \<Rightarrow>
          (if \<not> is_bool_ndarray v then Inl RuntimeError
           else (case self_entry (shape v) (buffer v) i of
                   Inl e \<Rightarrow> Inl e
                 | Inr a \<Rightarrow>
                     (if mem a then
                        (if writeable v
                         then verify_exp_covers is expcovers (store_entry mem a False)
                                (ws @ [nonsensical_warning])
                         else Inl ValueError)
                      else verify_exp_covers is expcovers mem ws))))"

subsection \<open>The cover helper: default covers\<close>

text \<open>The first loop of \<^verbatim>\<open>_default_exp_covers\<close>, lines 469 to 474.\<close>

definition initial_cover :: "nat \<Rightarrow> nat list \<Rightarrow> nat \<Rightarrow> error + bool list" where
  "initial_cover m N i =
     (case index_assign (replicate m True) N False of
        Inl e \<Rightarrow> Inl e
      | Inr cov \<Rightarrow> item_assign cov i False)"

fun initial_covers ::
  "nat \<Rightarrow> nat list \<Rightarrow> nat list \<Rightarrow> (nat \<rightharpoonup> bool list) \<Rightarrow> error + (nat \<rightharpoonup> bool list)" where
  "initial_covers m N [] ec = Inr ec"
| "initial_covers m N (i # is) ec =
     (case initial_cover m N i of
        Inl e \<Rightarrow> Inl e
      | Inr cov \<Rightarrow> initial_covers m N is (ec(i \<mapsto> cov)))"

text \<open>
  The aggressive reduction, lines 475 to 487. \<open>np_all_nonneg\<close> is
  \<^verbatim>\<open>np.all(self.alpha >= 0)\<close>, \<open>zero_locs\<close> is \<^verbatim>\<open>np.nonzero(row_sums == 0)[0]\<close>.
\<close>

definition row_sums :: "matrix \<Rightarrow> vec" where
  "row_sums alpha = map sum_list alpha"

definition np_all_nonneg :: "matrix \<Rightarrow> bool" where
  "np_all_nonneg alpha = list_all (list_all (\<lambda>x. 0 \<le> x)) alpha"

definition zero_locs :: "vec \<Rightarrow> nat list" where
  "zero_locs rs = filter (\<lambda>i. rs ! i = 0) [0..<length rs]"

text \<open>The inner loop over \<open>j\<close> in \<open>range(m)\<close>, on the cover of term \<open>i\<close>.\<close>

definition reduce_step :: "matrix \<Rightarrow> nat \<Rightarrow> nat \<Rightarrow> nat \<Rightarrow> bool list \<Rightarrow> bool list" where
  "reduce_step alpha zero_loc i j curr_cover =
     (if curr_cover ! j \<and> j \<noteq> zero_loc \<and> float64_dot (alpha ! i) (alpha ! j) = 0
      then curr_cover[j := False] else curr_cover)"

definition reduce_cover :: "matrix \<Rightarrow> nat \<Rightarrow> nat \<Rightarrow> bool list \<Rightarrow> bool list" where
  "reduce_cover alpha zero_loc i curr_cover =
     fold (reduce_step alpha zero_loc i) [0..<length alpha] curr_cover"

text \<open>The outer loop over the must-certify indices.\<close>

fun reduce_covers ::
  "matrix \<Rightarrow> nat \<Rightarrow> nat list \<Rightarrow> (nat \<rightharpoonup> bool list) \<Rightarrow> error + (nat \<rightharpoonup> bool list)" where
  "reduce_covers alpha zero_loc [] ec = Inr ec"
| "reduce_covers alpha zero_loc (i # is) ec =
     (if i = zero_loc then reduce_covers alpha zero_loc is ec
      else (case ec i of
              None \<Rightarrow> Inl KeyError
            | Some curr_cover \<Rightarrow>
                reduce_covers alpha zero_loc is
                  (ec(i \<mapsto> reduce_cover alpha zero_loc i curr_cover))))"

definition reduction_applies :: "matrix \<Rightarrow> error + bool" where
  "reduction_applies alpha =
     (if np_all_nonneg alpha
      then (case np_min (row_sums alpha) of Inl e \<Rightarrow> Inl e | Inr mn \<Rightarrow> Inr (mn = 0))
      else Inr False)"

definition aggressive_reduction ::
  "matrix \<Rightarrow> nat list \<Rightarrow> (nat \<rightharpoonup> bool list) \<Rightarrow> error + (nat \<rightharpoonup> bool list)" where
  "aggressive_reduction alpha U ec =
     (case reduction_applies alpha of
        Inl e \<Rightarrow> Inl e
      | Inr False \<Rightarrow> Inr ec
      | Inr True \<Rightarrow>
          (case zero_locs (row_sums alpha) of
             [] \<Rightarrow> Inl IndexError
           | zero_loc # _ \<Rightarrow> reduce_covers alpha zero_loc U ec))"

text \<open>
  Trivial-cone elimination, lines 488 to 499. The auxiliary problem is handed to the
  solver \<^verbatim>\<open>ECOS\<close> through \<^verbatim>\<open>Problem.solve\<close>, which is outside the sources: the solver
  is a parameter \<open>solve\<close> that maps the data of the problem "minimise \<open>t\<close> subject to
  \<open>mat x \<le> t\<close> and \<open>A x + b \<in> K\<close>" to a status and a value.
\<close>

datatype status = solved | inaccurate | failed

record reduction_problem =
  rp_mat :: matrix
  rp_A :: matrix
  rp_b :: vec
  rp_K :: "cone list"

type_synonym solver = "reduction_problem \<Rightarrow> status \<times> real"

definition vec_sub :: "vec \<Rightarrow> vec \<Rightarrow> vec" where
  "vec_sub u w = map (\<lambda>(a, b). a - b) (zip u w)"

text \<open>\<^verbatim>\<open>self.alpha[mask, :] - self.alpha[i, :]\<close>.\<close>

definition cover_matrix :: "matrix \<Rightarrow> bool list \<Rightarrow> nat \<Rightarrow> error + matrix" where
  "cover_matrix alpha msk i =
     (case mask_select alpha msk of
        Inl e \<Rightarrow> Inl e
      | Inr rows \<Rightarrow>
          (case item alpha i of
             Inl e \<Rightarrow> Inl e
           | Inr row_i \<Rightarrow> Inr (map (\<lambda>r. vec_sub r row_i) rows)))"

definition eliminate_one ::
  "solver \<Rightarrow> matrix \<Rightarrow> matrix \<Rightarrow> vec \<Rightarrow> cone list \<Rightarrow> nat \<Rightarrow> bool list \<Rightarrow> error + bool list" where
  "eliminate_one solve alpha A b K i cov =
     (if np_any cov then
        (case cover_matrix alpha cov i of
           Inl e \<Rightarrow> Inl e
         | Inr mat \<Rightarrow>
             (case solve \<lparr>rp_mat = mat, rp_A = A, rp_b = b, rp_K = K\<rparr> of
                (st, val) \<Rightarrow>
                  if st = solved \<and> val < - 100 then Inr (replicate (length cov) False)
                  else Inr cov))
      else Inr cov)"

fun eliminate_trivial ::
  "solver \<Rightarrow> matrix \<Rightarrow> matrix \<Rightarrow> vec \<Rightarrow> cone list \<Rightarrow> nat list \<Rightarrow> (nat \<rightharpoonup> bool list)
     \<Rightarrow> error + (nat \<rightharpoonup> bool list)" where
  "eliminate_trivial solve alpha A b K [] ec = Inr ec"
| "eliminate_trivial solve alpha A b K (i # is) ec =
     (case ec i of
        None \<Rightarrow> Inl KeyError
      | Some cov \<Rightarrow>
          (case eliminate_one solve alpha A b K i cov of
             Inl e \<Rightarrow> Inl e
           | Inr cov' \<Rightarrow> eliminate_trivial solve alpha A b K is (ec(i \<mapsto> cov'))))"

text \<open>
  \<^verbatim>\<open>_default_exp_covers\<close>; the two module flags \<^verbatim>\<open>_AGGRESSIVE_REDUCTION_\<close> and
  \<^verbatim>\<open>_ELIMINATE_TRIVIAL_AGE_CONES_\<close> are both \<open>True\<close> in the source.
\<close>

definition AGGRESSIVE_REDUCTION :: bool where
  "AGGRESSIVE_REDUCTION = True"

definition ELIMINATE_TRIVIAL_AGE_CONES :: bool where
  "ELIMINATE_TRIVIAL_AGE_CONES = True"

definition default_exp_covers ::
  "solver \<Rightarrow> matrix \<Rightarrow> matrix \<Rightarrow> vec \<Rightarrow> cone list \<Rightarrow> nat list \<Rightarrow> nat list
     \<Rightarrow> error + (nat \<rightharpoonup> bool list)" where
  "default_exp_covers solve alpha A b K U N =
     (case initial_covers (length alpha) N U Map.empty of
        Inl e \<Rightarrow> Inl e
      | Inr ec0 \<Rightarrow>
          (case (if AGGRESSIVE_REDUCTION then aggressive_reduction alpha U ec0 else Inr ec0) of
             Inl e \<Rightarrow> Inl e
           | Inr ec1 \<Rightarrow>
               (if ELIMINATE_TRIVIAL_AGE_CONES then eliminate_trivial solve alpha A b K U ec1
                else Inr ec1)))"

subsection \<open>The cover helper: construction\<close>

record exp_cover_helper =
  ech_alpha :: matrix
  ech_A :: matrix
  ech_b :: vec
  ech_K :: "cone list"
  ech_m :: nat
  ech_c :: "expression option"
  U_I :: "nat list"
  N_I :: "nat list"
  P_I :: "nat list"
  expcovers :: "nat \<rightharpoonup> bool cover_value"

text \<open>
  \<^verbatim>\<open>ExpCoverHelper.__init__\<close>. The test that \<open>c\<close> is an \<^verbatim>\<open>Expression\<close> is decided by
  the type of \<open>c\<close> here. \<open>mem\<close> is the memory of the caller's arrays when the
  constructor is called; the result carries the warnings issued during construction and
  the memory when it ends. None of the methods modelled here writes to a cover once the
  helper is constructed, so the helper is recorded with the contents that its arrays have
  then: the arrays of the supplied dictionary as the memory has them, the arrays of
  \<^verbatim>\<open>_default_exp_covers\<close>, which are new, as they were built.
\<close>

definition default_array :: "bool list \<Rightarrow> bool cover_value" where
  "default_array cov = bool_ndarray [length cov] cov True"

definition ExpCoverHelper ::
  "solver \<Rightarrow> memory \<Rightarrow> matrix \<Rightarrow> expression option \<Rightarrow> matrix \<Rightarrow> vec \<Rightarrow> cone list
     \<Rightarrow> expcovers_arg \<Rightarrow> error + (exp_cover_helper \<times> string list \<times> memory)" where
  "ExpCoverHelper solve mem alpha c A b K arg =
     (case sign_classes (length alpha) c of
        (U, N, P) \<Rightarrow>
          (let mk = (\<lambda>ec. \<lparr>ech_alpha = alpha, ech_A = A, ech_b = b, ech_K = K,
                           ech_m = length alpha, ech_c = c, U_I = U, N_I = N, P_I = P,
                           expcovers = ec\<rparr>)
           in case arg of
                expcovers_dict d \<Rightarrow>
                  (case verify_exp_covers U d mem [] of
                     Inl e \<Rightarrow> Inl e
                   | Inr (mem', ws) \<Rightarrow> Inr (mk (map_option (contents mem') \<circ> d), ws, mem'))
              | expcovers_None \<Rightarrow>
                  (case default_exp_covers solve alpha A b K U N of
                     Inl e \<Rightarrow> Inl e
                   | Inr ec \<Rightarrow> Inr (mk (map_option default_array \<circ> ec), [], mem))
              | expcovers_other \<Rightarrow> Inl RuntimeError))"

text \<open>
  The cover of term \<open>i\<close> as the compilers read it, \<^verbatim>\<open>self.ech.expcovers[i]\<close>, in its two
  uses. \<open>cover_of\<close> gives the entries of the array, which is what \<^verbatim>\<open>np.count_nonzero\<close>
  and \<^verbatim>\<open>np.any\<close> look at. \<open>mask_of\<close> is the array as a boolean index of a vector or of
  the rows of a matrix, \<^verbatim>\<open>x[mask]\<close> and \<^verbatim>\<open>M[mask, :]\<close>: an array that is not
  one-dimensional has too many indices for that, which is an IndexError. A value that is
  no boolean array cannot be under a must-certify key of a helper that was constructed.
\<close>

definition cover_of :: "exp_cover_helper \<Rightarrow> nat \<Rightarrow> error + bool list" where
  "cover_of h i =
     (case expcovers h i of
        None \<Rightarrow> Inl KeyError
      | Some v \<Rightarrow> if is_bool_ndarray v then Inr (buffer v) else Inl ValueError)"

definition mask_of :: "exp_cover_helper \<Rightarrow> nat \<Rightarrow> error + bool list" where
  "mask_of h i =
     (case expcovers h i of
        None \<Rightarrow> Inl KeyError
      | Some v \<Rightarrow>
          if is_bool_ndarray v
          then (if length (shape v) = 1 then Inr (buffer v) else Inl IndexError)
          else Inl ValueError)"

subsection \<open>Notions used in the statements\<close>

text \<open>A row of the exponent matrix is the zero vector.\<close>

definition is_zero_row :: "vec \<Rightarrow> bool" where
  "is_zero_row r = list_all (\<lambda>x. x = 0) r"

text \<open>Term \<open>j\<close> is in the cover that a cover map records for term \<open>i\<close>.\<close>

definition in_cover :: "(nat \<rightharpoonup> bool list) \<Rightarrow> nat \<Rightarrow> nat \<Rightarrow> bool" where
  "in_cover ec i j = (case ec i of None \<Rightarrow> False | Some cov \<Rightarrow> j < length cov \<and> cov ! j)"

text \<open>
  Row \<open>z\<close> is the first zero row of the exponent matrix, the row that
  \<^verbatim>\<open>np.nonzero(row_sums == 0)[0][0]\<close> picks.
\<close>

definition first_zero_row :: "matrix \<Rightarrow> nat \<Rightarrow> bool" where
  "first_zero_row alpha z \<longleftrightarrow>
     z < length alpha \<and> is_zero_row (alpha ! z) \<and> (\<forall>k<z. \<not> is_zero_row (alpha ! k))"

text \<open>
  What can be wrong with the entry of a supplied cover map at a must-certify index \<open>i\<close>:
  the key is missing; the value is not a boolean array; the boolean array has no
  position \<open>i\<close> along its first axis (it has no dimension, or its first axis is too
  short); or it has more than one dimension and its row \<open>i\<close> does not have exactly one
  entry, so that the row has no truth value.

  \<open>self_cell d i\<close> is the address of the entry \<open>expcovers[i][i]\<close> when there is one, and
  \<open>self_cells d U\<close> collects these addresses for the indices in \<open>U\<close>. \<open>reached_true\<close>
  says that this entry is true when the loop comes to \<open>i\<close>: it is true in the memory at
  the call, and no must-certify index before \<open>i\<close> (the indices are visited in increasing
  order) has its own entry at the same address.
  \<open>read_only\<close> says that the array under key \<open>i\<close> is not writeable.
\<close>

definition missing_key :: "(nat \<rightharpoonup> 'c cover_value) \<Rightarrow> nat \<Rightarrow> bool" where
  "missing_key d i = (case d i of None \<Rightarrow> True | Some v \<Rightarrow> False)"

definition wrong_datatype :: "(nat \<rightharpoonup> 'c cover_value) \<Rightarrow> nat \<Rightarrow> bool" where
  "wrong_datatype d i = (case d i of None \<Rightarrow> False | Some v \<Rightarrow> \<not> is_bool_ndarray v)"

definition too_short :: "(nat \<rightharpoonup> 'c cover_value) \<Rightarrow> nat \<Rightarrow> bool" where
  "too_short d i =
     (case d i of
        None \<Rightarrow> False
      | Some v \<Rightarrow> is_bool_ndarray v \<and> (shape v = [] \<or> hd (shape v) \<le> i))"

definition ambiguous_row :: "(nat \<rightharpoonup> 'c cover_value) \<Rightarrow> nat \<Rightarrow> bool" where
  "ambiguous_row d i =
     (case d i of
        None \<Rightarrow> False
      | Some v \<Rightarrow> is_bool_ndarray v \<and> shape v \<noteq> [] \<and> i < hd (shape v)
                  \<and> prod_list (tl (shape v)) \<noteq> 1)"

definition self_cell :: "(nat \<rightharpoonup> 'c cover_value) \<Rightarrow> nat \<Rightarrow> 'c option" where
  "self_cell d i =
     (case d i of
        None \<Rightarrow> None
      | Some v \<Rightarrow>
          if is_bool_ndarray v
          then (case self_entry (shape v) (buffer v) i of Inl e \<Rightarrow> None | Inr a \<Rightarrow> Some a)
          else None)"

definition self_cells :: "(nat \<rightharpoonup> 'c cover_value) \<Rightarrow> nat list \<Rightarrow> 'c list" where
  "self_cells d U = List.map_filter (self_cell d) U"

definition reached_true :: "(nat \<rightharpoonup> addr cover_value) \<Rightarrow> memory \<Rightarrow> nat list \<Rightarrow> nat \<Rightarrow> bool" where
  "reached_true d mem U i =
     (case self_cell d i of
        None \<Rightarrow> False
      | Some a \<Rightarrow> mem a \<and> (\<forall>j \<in> set U. j < i \<longrightarrow> self_cell d j \<noteq> Some a))"

definition read_only :: "(nat \<rightharpoonup> 'c cover_value) \<Rightarrow> nat \<Rightarrow> bool" where
  "read_only d i =
     (case d i of None \<Rightarrow> False | Some v \<Rightarrow> is_bool_ndarray v \<and> \<not> writeable v)"

subsection \<open>Norms, infinite values and relative entropy\<close>

text \<open>
  \<^verbatim>\<open>np.linalg.norm(xs, ord=norm_ord)\<close> for a vector, with \<open>norm_ord\<close> one of
  \<^verbatim>\<open>np.inf\<close> (the default of both \<^verbatim>\<open>violation\<close> methods), 1 and 2. The maximum of an
  empty array raises ValueError.
\<close>

datatype norm_ord = ord_inf | ord_1 | ord_2

definition linalg_norm :: "norm_ord \<Rightarrow> vec \<Rightarrow> error + real" where
  "linalg_norm ord xs =
     (case ord of
        ord_inf \<Rightarrow> (case xs of [] \<Rightarrow> Inl ValueError | y # ys \<Rightarrow> Inr (fold max (map abs ys) \<bar>y\<bar>))
      | ord_1 \<Rightarrow> Inr (sum_list (map abs xs))
      | ord_2 \<Rightarrow> Inr (sqrt (sum_list (map (\<lambda>x. x * x) xs))))"

text \<open>
  A floating point value that may be \<^verbatim>\<open>np.inf\<close>. \<open>rel_entr\<close> is
  \<^verbatim>\<open>scipy.special.rel_entr\<close>: \<open>x log (x / y)\<close> for positive \<open>x\<close> and \<open>y\<close>, zero for
  \<open>x = 0\<close> and \<open>y \<ge> 0\<close>, infinite otherwise.
\<close>

datatype xreal = Fin real | PInf

definition xadd :: "xreal \<Rightarrow> xreal \<Rightarrow> xreal" where
  "xadd x y = (case x of PInf \<Rightarrow> PInf | Fin a \<Rightarrow> (case y of PInf \<Rightarrow> PInf | Fin b \<Rightarrow> Fin (a + b)))"

definition xsum :: "xreal list \<Rightarrow> xreal" where
  "xsum xs = foldr xadd xs (Fin 0)"

definition rel_entr :: "real \<Rightarrow> real \<Rightarrow> xreal" where
  "rel_entr x y =
     (if 0 < x \<and> 0 < y then Fin (x * ln (x / y))
      else if x = 0 \<and> 0 \<le> y then Fin 0
      else PInf)"

text \<open>\<^verbatim>\<open>abs(max(r, 0))\<close> and \<^verbatim>\<open>abs(min(0, r))\<close>.\<close>

definition abs_max0 :: "xreal \<Rightarrow> xreal" where
  "abs_max0 r = (case r of PInf \<Rightarrow> PInf | Fin a \<Rightarrow> Fin \<bar>max a 0\<bar>)"

definition abs_min0 :: "real \<Rightarrow> real" where
  "abs_min0 r = \<bar>min 0 r\<bar>"

text \<open>
  Matrices: \<open>M @ x\<close> and \<open>M.T @ x\<close>. A matrix is the list of its rows, which does not
  say how many columns a matrix with no rows has; where the source reads \<^verbatim>\<open>M.shape[1]\<close>
  the number of columns is passed next to the matrix. The inputs are read as the docstrings
  describe them: every row of \<open>alpha\<close> has \<open>n\<close> entries and every row of \<open>A\<close> has
  \<open>lifted_n\<close>, \<open>A\<close> has at least as many columns as \<open>alpha\<close>, and \<open>b\<close> has one entry
  for each row of \<open>A\<close>.
\<close>

definition mat_vec :: "matrix \<Rightarrow> vec \<Rightarrow> vec" where
  "mat_vec M x = map (\<lambda>r. dot r x) M"

definition matT_vec :: "nat \<Rightarrow> matrix \<Rightarrow> vec \<Rightarrow> vec" where
  "matT_vec k M x = map (\<lambda>j. sum_list (map (\<lambda>(r, xi). r ! j * xi) (zip M x))) [0..<k]"

text \<open>\<^verbatim>\<open>np.hstack((alpha, np.zeros(shape=(m, k))))\<close>.\<close>

definition zero_pad :: "matrix \<Rightarrow> nat \<Rightarrow> matrix" where
  "zero_pad alpha k = map (\<lambda>r. r @ replicate k 0) alpha"

subsection \<open>The primal cone: construction\<close>

text \<open>
  The fields of \<^verbatim>\<open>PrimalCondSageCone\<close>. The list \<^verbatim>\<open>_variables\<close>, kept for the
  method \<^verbatim>\<open>variables\<close> alone, is left out. \<open>lifted_alpha_shape1\<close> is
  \<^verbatim>\<open>self.lifted_alpha.shape[1]\<close>: the columns of \<open>alpha\<close>, or those of \<open>A\<close> when
  \<open>alpha\<close> was padded.
\<close>

record primal_cond_sage_cone =
  pc_name :: string
  pc_m :: nat
  pc_n :: nat
  pc_lifted_n :: nat
  pc_lifted_alpha :: matrix
  pc_A :: matrix
  pc_b :: vec
  pc_c :: expression
  pc_K :: "cone list"
  pc_ech :: exp_cover_helper
  nu_vars :: "nat \<rightharpoonup> expression"
  c_vars :: "nat \<rightharpoonup> expression"
  relent_epi_vars :: "nat \<rightharpoonup> expression"
  lambda_vars :: "nat \<rightharpoonup> expression"
  age_vectors :: "nat \<rightharpoonup> expression"

definition lifted_alpha_shape1 :: "primal_cond_sage_cone \<Rightarrow> nat" where
  "lifted_alpha_shape1 s = (if pc_n s < pc_lifted_n s then pc_lifted_n s else pc_n s)"

text \<open>One round of the loop of \<^verbatim>\<open>_initialize_variables\<close>.\<close>

definition initialize_term ::
  "nat \<Rightarrow> primal_cond_sage_cone \<Rightarrow> error + primal_cond_sage_cone" where
  "initialize_term i s =
     (case cover_of (pc_ech s) i of
        Inl e \<Rightarrow> Inl e
      | Inr cov \<Rightarrow>
          (let nu_len = count_nonzero cov;
               s1 = (if 0 < nu_len
                     then s\<lparr>nu_vars := (nu_vars s)(i \<mapsto> Variable nu_len (nu_name i (pc_name s))),
                            relent_epi_vars :=
                              (relent_epi_vars s)(i \<mapsto> Variable nu_len (relent_epi_name i (pc_name s)))\<rparr>
                     else s);
               c_len = (if i \<notin> set (N_I (pc_ech s)) then nu_len + 1 else nu_len)
           in Inr (s1\<lparr>c_vars := (c_vars s1)(i \<mapsto> Variable c_len (c_name i (pc_name s))),
                      lambda_vars :=
                        (lambda_vars s1)(i \<mapsto> Variable (length (pc_A s)) (lambda_name i (pc_name s)))\<rparr>)))"

fun initialize_terms ::
  "nat list \<Rightarrow> primal_cond_sage_cone \<Rightarrow> error + primal_cond_sage_cone" where
  "initialize_terms [] s = Inr s"
| "initialize_terms (i # is) s =
     (case initialize_term i s of Inl e \<Rightarrow> Inl e | Inr s' \<Rightarrow> initialize_terms is s')"

definition initialize_variables :: "primal_cond_sage_cone \<Rightarrow> error + primal_cond_sage_cone" where
  "initialize_variables s =
     (if 1 < pc_m s then initialize_terms (U_I (pc_ech s)) s else Inr s)"

text \<open>
  \<^verbatim>\<open>PrimalCondSageCone.__init__\<close>. \<open>c\<close> is the coefficient vector after
  \<^verbatim>\<open>Expression(c)\<close>, \<open>n\<close> is \<^verbatim>\<open>alpha.shape[1]\<close> and \<open>lifted_n\<close> is \<^verbatim>\<open>A.shape[1]\<close>.
  \<open>mem\<close> is the memory of the caller's arrays; the result carries the warnings of the
  cover helper and the memory as the helper leaves it.
\<close>

definition PrimalCondSageCone ::
  "solver \<Rightarrow> memory \<Rightarrow> expression \<Rightarrow> matrix \<Rightarrow> nat \<Rightarrow> matrix \<Rightarrow> nat \<Rightarrow> vec \<Rightarrow> cone list
     \<Rightarrow> string \<Rightarrow> expcovers_arg \<Rightarrow> error + (primal_cond_sage_cone \<times> string list \<times> memory)" where
  "PrimalCondSageCone solve mem c alpha n A lifted_n b K name arg =
     (let m = length alpha;
          lifted_alpha = (if n < lifted_n then zero_pad alpha (lifted_n - n) else alpha)
      in case check_cones K of
           Inl e \<Rightarrow> Inl e
         | Inr K' \<Rightarrow>
             (case ExpCoverHelper solve mem lifted_alpha (Some c) A b K' arg of
                Inl e \<Rightarrow> Inl e
              | Inr (ech, ws, mem') \<Rightarrow>
                  (case initialize_variables
                          \<lparr>pc_name = name, pc_m = m, pc_n = n, pc_lifted_n = lifted_n,
                           pc_lifted_alpha = lifted_alpha, pc_A = A, pc_b = b, pc_c = c,
                           pc_K = K', pc_ech = ech, nu_vars = Map.empty, c_vars = Map.empty,
                           relent_epi_vars = Map.empty, lambda_vars = Map.empty,
                           age_vectors = Map.empty\<rparr> of
                     Inl e \<Rightarrow> Inl e
                   | Inr s \<Rightarrow> Inr (s, ws, mem'))))"

subsection \<open>The primal cone: aligned age vectors and conic form\<close>

text \<open>
  One round of the loop of \<^verbatim>\<open>_build_aligned_age_vectors\<close>: the age vector of term
  \<open>i\<close>. An assignment evaluates its right-hand side, \<open>c_vars[i]\<close>, before the index
  \<open>expcovers[i]\<close> of its target. \<open>c_vars[i][:-1]\<close> is \<open>butlast\<close>; \<open>c_vars[i][-1]\<close>
  raises IndexError on an empty variable.
\<close>

definition aligned_age_vector :: "primal_cond_sage_cone \<Rightarrow> nat \<Rightarrow> error + expression" where
  "aligned_age_vector s i =
     (let ci_expr = replicate (pc_m s) (const_expr 0) in
      case c_vars s i of
        None \<Rightarrow> Inl KeyError
      | Some cv \<Rightarrow>
          (case mask_of (pc_ech s) i of
             Inl e \<Rightarrow> Inl e
           | Inr cov \<Rightarrow>
               (if i \<in> set (N_I (pc_ech s)) then
                  (case mask_assign ci_expr cov cv of
                     Inl e \<Rightarrow> Inl e
                   | Inr ci1 \<Rightarrow>
                       (case item (pc_c s) i of
                          Inl e \<Rightarrow> Inl e
                        | Inr c_i \<Rightarrow> item_assign ci1 i c_i))
                else
                  (case mask_assign ci_expr cov (butlast cv) of
                     Inl e \<Rightarrow> Inl e
                   | Inr ci1 \<Rightarrow>
                       (if cv = [] then Inl IndexError else item_assign ci1 i (last cv))))))"

fun build_age_vectors ::
  "nat list \<Rightarrow> primal_cond_sage_cone \<Rightarrow> error + primal_cond_sage_cone" where
  "build_age_vectors [] s = Inr s"
| "build_age_vectors (i # is) s =
     (case aligned_age_vector s i of
        Inl e \<Rightarrow> Inl e
      | Inr ci_expr \<Rightarrow> build_age_vectors is (s\<lparr>age_vectors := (age_vectors s)(i \<mapsto> ci_expr)\<rparr>))"

definition build_aligned_age_vectors ::
  "primal_cond_sage_cone \<Rightarrow> error + primal_cond_sage_cone" where
  "build_aligned_age_vectors s = build_age_vectors (U_I (pc_ech s)) s"

text \<open>
  A block of conic data. In the source a block is the tuple
  \<^verbatim>\<open>(A_vals, A_rows, A_cols, b, K)\<close> that a compiled operator of
  \<^verbatim>\<open>sageopt.coniclifts\<close> returns; these operators are outside the sources, so a block
  is recorded as the operator that is called, with the arguments it is given and, where the
  method builds it, the cone list \<open>K\<close>:
  \<^item> \<open>sum_relent_block x c y z_age z_lam z_b epi\<close> is
    \<^verbatim>\<open>sum_relent(x, c * y, -z_age + z_lam @ z_b, epi)\<close>;
  \<^item> \<open>leq_block lam b rhs\<close> is the conic form of \<^verbatim>\<open>lam @ b <= rhs\<close>;
  \<^item> \<open>mat_vecvar_plus_block mat1 var1 mat2 var2 K\<close> and \<open>mat_vecvar_block mat1 var1 K\<close>
    are \<^verbatim>\<open>mat_times_vecvar_plus_mat_times_vecvar\<close> and \<^verbatim>\<open>mat_times_vecvar\<close>
    with an offset of zeros;
  \<^item> \<open>dual_product_cone_block lam K\<close> is the first block of
    \<^verbatim>\<open>DualProductCone(lam, K).conic_form()\<close>, with the cones of \<open>K\<close> that it keeps;
  \<^item> \<open>columns_sum_to_vec_block rows vec K\<close> is \<^verbatim>\<open>columns_sum_to_vec(mat, vec)\<close>, the
    matrix given by its rows;
  \<^item> \<open>geq_zero_block e\<close> is the conic form of \<^verbatim>\<open>e >= 0\<close>.
\<close>

datatype block =
    sum_relent_block expression real expression scalar_expression expression vec expression
  | leq_block expression vec scalar_expression
  | mat_vecvar_plus_block matrix expression matrix expression "cone list"
  | mat_vecvar_block matrix expression "cone list"
  | dual_product_cone_block expression "cone list"
  | columns_sum_to_vec_block "expression list" expression "cone list"
  | geq_zero_block expression

definition lookup :: "(nat \<rightharpoonup> 'a) \<Rightarrow> nat \<Rightarrow> error + 'a" where
  "lookup d i = (case d i of None \<Rightarrow> Inl KeyError | Some v \<Rightarrow> Inr v)"

definition negate :: "matrix \<Rightarrow> matrix" where
  "negate M = map (map uminus) M"

text \<open>The transpose \<open>M.T\<close> of a matrix with \<open>k\<close> columns.\<close>

definition transpose_cols :: "nat \<Rightarrow> matrix \<Rightarrow> matrix" where
  "transpose_cols k M = map (\<lambda>j. map (\<lambda>r. r ! j) M) [0..<k]"

text \<open>
  \<^verbatim>\<open>_age_rel_ent_cone_data\<close>, \<^verbatim>\<open>_age_lin_eq_cone_data\<close> and
  \<^verbatim>\<open>_age_lambda_var_domain_constraints\<close>, each with its lookups in the order of the
  source.
\<close>

definition age_rel_ent_cone_data :: "primal_cond_sage_cone \<Rightarrow> nat \<Rightarrow> error + block" where
  "age_rel_ent_cone_data s i =
     (case cover_of (pc_ech s) i of
        Inl e \<Rightarrow> Inl e
      | Inr idx_set \<Rightarrow>
          (if np_any idx_set then
             (case lookup (nu_vars s) i of
                Inl e \<Rightarrow> Inl e
              | Inr x \<Rightarrow>
                  (case lookup (age_vectors s) i of
                     Inl e \<Rightarrow> Inl e
                   | Inr av \<Rightarrow>
                       (case mask_of (pc_ech s) i of
                          Inl e \<Rightarrow> Inl e
                        | Inr msk \<Rightarrow>
                            (case mask_select av msk of
                               Inl e \<Rightarrow> Inl e
                             | Inr y \<Rightarrow>
                                 (case item av i of
                                    Inl e \<Rightarrow> Inl e
                                  | Inr av_i \<Rightarrow>
                                      (case lookup (lambda_vars s) i of
                                         Inl e \<Rightarrow> Inl e
                                       | Inr lam \<Rightarrow>
                                           (case lookup (relent_epi_vars s) i of
                                              Inl e \<Rightarrow> Inl e
                                            | Inr epi \<Rightarrow>
                                                Inr (sum_relent_block x (exp 1) y av_i lam
                                                       (pc_b s) epi))))))))
           else
             (case lookup (lambda_vars s) i of
                Inl e \<Rightarrow> Inl e
              | Inr lam \<Rightarrow>
                  (case lookup (age_vectors s) i of
                     Inl e \<Rightarrow> Inl e
                   | Inr av \<Rightarrow>
                       (case item av i of
                          Inl e \<Rightarrow> Inl e
                        | Inr av_i \<Rightarrow> Inr (leq_block lam (pc_b s) av_i))))))"

definition age_lin_eq_cone_data :: "primal_cond_sage_cone \<Rightarrow> nat \<Rightarrow> error + block" where
  "age_lin_eq_cone_data s i =
     (case cover_of (pc_ech s) i of
        Inl e \<Rightarrow> Inl e
      | Inr idx_set \<Rightarrow>
          (let mat2 = negate (transpose_cols (pc_lifted_n s) (pc_A s)) in
           if np_any idx_set then
             (case mask_of (pc_ech s) i of
                Inl e \<Rightarrow> Inl e
              | Inr msk \<Rightarrow>
                  (case cover_matrix (pc_lifted_alpha s) msk i of
                     Inl e \<Rightarrow> Inl e
                   | Inr diff \<Rightarrow>
                       (let mat1 = transpose_cols (lifted_alpha_shape1 s) diff in
                        case lookup (nu_vars s) i of
                          Inl e \<Rightarrow> Inl e
                        | Inr nu \<Rightarrow>
                            (case lookup (lambda_vars s) i of
                               Inl e \<Rightarrow> Inl e
                             | Inr lam \<Rightarrow>
                                 (let num_rows = length mat1 + length mat2
                                  in Inr (mat_vecvar_plus_block mat1 nu mat2 lam
                                            [Cone ''0'' num_rows]))))))
           else
             (case lookup (lambda_vars s) i of
                Inl e \<Rightarrow> Inl e
              | Inr lam \<Rightarrow> Inr (mat_vecvar_block mat2 lam [Cone ''0'' (length mat2)]))))"

text \<open>
  Modelled from the spec: the class \<^verbatim>\<open>DualProductCone\<close> is not among the sources. Its
  block constrains \<open>lam\<close> "to lie in the dual of \<open>K\<close>". Its \<^verbatim>\<open>conic_form\<close> collects one
  piece of \<open>lam\<close> for each cone of \<open>K\<close> that is not a zero cone and joins the pieces with
  \<^verbatim>\<open>np.hstack\<close>, which raises ValueError when there is no piece: a \<open>K\<close> with no cone,
  or with zero cones only. The block keeps the cones that are not zero cones. The variable
  has as many entries as the cones of \<open>K\<close> have rows, \<open>K\<close> being the cone of
  \<open>A x + b\<close>.
\<close>

definition DualProductCone_conic_form :: "expression \<Rightarrow> cone list \<Rightarrow> error + block" where
  "DualProductCone_conic_form lam K =
     (let K_new = filter (\<lambda>co. type co \<noteq> ''0'') K in
      if K_new = [] then Inl ValueError else Inr (dual_product_cone_block lam K_new))"

definition age_lambda_var_domain_constraints ::
  "primal_cond_sage_cone \<Rightarrow> nat \<Rightarrow> error + block" where
  "age_lambda_var_domain_constraints s i =
     (case lookup (lambda_vars s) i of
        Inl e \<Rightarrow> Inl e
      | Inr lam \<Rightarrow> DualProductCone_conic_form lam (pc_K s))"

text \<open>
  \<^verbatim>\<open>_age_vectors_sum_to_c\<close>. \<open>vstack\<close> stacks the age vectors, in the order of the
  dictionary, as the rows of a matrix and raises ValueError when there is none, or when
  they differ in length; \<open>.T\<close> then gives one row for each index below \<open>m\<close>.
\<close>

definition vstack :: "expression list \<Rightarrow> error + expression list" where
  "vstack vs =
     (case vs of
        [] \<Rightarrow> Inl ValueError
      | v # ws \<Rightarrow> if list_all (\<lambda>w. length w = length v) ws then Inr vs else Inl ValueError)"

definition columns_as_rows :: "expression list \<Rightarrow> expression list" where
  "columns_as_rows vs = map (\<lambda>k. map (\<lambda>v. v ! k) vs) [0..<length (hd vs)]"

fun dict_values :: "nat list \<Rightarrow> (nat \<rightharpoonup> 'a) \<Rightarrow> error + 'a list" where
  "dict_values [] d = Inr []"
| "dict_values (i # is) d =
     (case lookup d i of
        Inl e \<Rightarrow> Inl e
      | Inr v \<Rightarrow> (case dict_values is d of Inl e \<Rightarrow> Inl e | Inr vs \<Rightarrow> Inr (v # vs)))"

definition age_vectors_sum_to_c :: "primal_cond_sage_cone \<Rightarrow> error + block" where
  "age_vectors_sum_to_c s =
     (case index_assign (replicate (pc_m s) True) (N_I (pc_ech s)) False of
        Inl e \<Rightarrow> Inl e
      | Inr nonconst_locs \<Rightarrow>
          (case dict_values (U_I (pc_ech s)) (age_vectors s) of
             Inl e \<Rightarrow> Inl e
           | Inr avs \<Rightarrow>
               (case vstack avs of
                  Inl e \<Rightarrow> Inl e
                | Inr stacked \<Rightarrow>
                    (case mask_select (columns_as_rows stacked) nonconst_locs of
                       Inl e \<Rightarrow> Inl e
                     | Inr aux_c_vars \<Rightarrow>
                         (case mask_select (pc_c s) nonconst_locs of
                            Inl e \<Rightarrow> Inl e
                          | Inr main_c_var \<Rightarrow>
                              Inr (columns_sum_to_vec_block aux_c_vars main_c_var
                                     [Cone ''0'' (length main_c_var)]))))))"

text \<open>The loop of \<^verbatim>\<open>conic_form\<close> over the must-certify terms, three blocks a term.\<close>

fun age_cones :: "primal_cond_sage_cone \<Rightarrow> nat list \<Rightarrow> error + block list" where
  "age_cones s [] = Inr []"
| "age_cones s (i # is) =
     (case age_rel_ent_cone_data s i of
        Inl e \<Rightarrow> Inl e
      | Inr b1 \<Rightarrow>
          (case age_lin_eq_cone_data s i of
             Inl e \<Rightarrow> Inl e
           | Inr b2 \<Rightarrow>
               (case age_lambda_var_domain_constraints s i of
                  Inl e \<Rightarrow> Inl e
                | Inr b3 \<Rightarrow>
                    (case age_cones s is of
                       Inl e \<Rightarrow> Inl e
                     | Inr bs \<Rightarrow> Inr (b1 # b2 # b3 # bs)))))"

text \<open>
  \<^verbatim>\<open>conic_form\<close>. The method stores the age vectors in the object; the model returns
  the updated object with the blocks.
\<close>

definition conic_form ::
  "primal_cond_sage_cone \<Rightarrow> error + (block list \<times> primal_cond_sage_cone)" where
  "conic_form s =
     (if 1 < pc_m s then
        (case build_aligned_age_vectors s of
           Inl e \<Rightarrow> Inl e
         | Inr s' \<Rightarrow>
             (case age_cones s' (U_I (pc_ech s')) of
                Inl e \<Rightarrow> Inl e
              | Inr cone_data \<Rightarrow>
                  (case age_vectors_sum_to_c s' of
                     Inl e \<Rightarrow> Inl e
                   | Inr sum_block \<Rightarrow> Inr (cone_data @ [sum_block], s'))))
      else Inr ([geq_zero_block (pc_c s)], s))"



subsection \<open>The primal cone: violation\<close>

text \<open>
  \<^verbatim>\<open>PrimalCondSageCone.project\<close>. The projection problem is solved outside the sources:
  \<open>proj_solve\<close> stands for \<^verbatim>\<open>prob.value\<close> after \<^verbatim>\<open>prob.solve\<close>.
\<close>

type_synonym projection_solver = "vec \<Rightarrow> matrix \<Rightarrow> matrix \<Rightarrow> vec \<Rightarrow> cone list \<Rightarrow> real"

definition project ::
  "projection_solver \<Rightarrow> vec \<Rightarrow> matrix \<Rightarrow> matrix \<Rightarrow> vec \<Rightarrow> cone list \<Rightarrow> real" where
  "project proj_solve itm alpha A b K =
     (if list_all (\<lambda>x. 0 \<le> x) itm then 0 else proj_solve itm alpha A b K)"

text \<open>
  \<^verbatim>\<open>_age_violation\<close>. \<open>dual_project\<close> stands for \<^verbatim>\<open>DualProductCone.project\<close>, which
  is outside the sources; \<open>\<sigma>\<close> gives the values of the variables. \<^verbatim>\<open>float(v)\<close> of an
  array that does not hold exactly one number raises TypeError.
\<close>

definition clip_negative :: "vec \<Rightarrow> vec" where
  "clip_negative xs = map (\<lambda>x. if x < 0 then 0 else x) xs"

definition age_violation ::
  "(vec \<Rightarrow> cone list \<Rightarrow> real) \<Rightarrow> primal_cond_sage_cone \<Rightarrow> (scalar_variable \<Rightarrow> real)
     \<Rightarrow> nat \<Rightarrow> norm_ord \<Rightarrow> vec \<Rightarrow> vec \<Rightarrow> error + xreal" where
  "age_violation dual_project s \<sigma> i ord c_i lambda_i =
     (let lambda_viol = dual_project lambda_i (pc_K s) in
      case cover_of (pc_ech s) i of
        Inl e \<Rightarrow> Inl e
      | Inr idx_set \<Rightarrow>
          (if np_any idx_set then
             (case lookup (nu_vars s) i of
                Inl e \<Rightarrow> Inl e
              | Inr nu \<Rightarrow>
                  (let x_i = clip_negative (expr_value \<sigma> nu) in
                   case mask_of (pc_ech s) i of
                     Inl e \<Rightarrow> Inl e
                   | Inr msk \<Rightarrow>
                       (case mask_select c_i msk of
                          Inl e \<Rightarrow> Inl e
                        | Inr c_cov \<Rightarrow>
                            (let y_i = map (\<lambda>y. exp 1 * y) c_cov in
                             case item c_i i of
                               Inl e \<Rightarrow> Inl e
                             | Inr c_ii \<Rightarrow>
                                 (let relent_res =
                                        xadd (xsum (map (\<lambda>(x, y). rel_entr x y) (zip x_i y_i)))
                                             (Fin (- c_ii + dot (pc_b s) lambda_i));
                                      relent_viol = abs_max0 relent_res
                                  in case cover_matrix (pc_lifted_alpha s) msk i of
                                       Inl e \<Rightarrow> Inl e
                                     | Inr diff \<Rightarrow>
                                         (let eq_res =
                                                vec_sub
                                                  (matT_vec (lifted_alpha_shape1 s) diff x_i)
                                                  (matT_vec (pc_lifted_n s) (pc_A s) lambda_i)
                                          in case linalg_norm ord eq_res of
                                               Inl e \<Rightarrow> Inl e
                                             | Inr eq_viol \<Rightarrow>
                                                 Inr (xadd (xadd relent_viol (Fin eq_viol))
                                                        (Fin lambda_viol))))))))
           else
             (case lookup (c_vars s) i of
                Inl e \<Rightarrow> Inl e
              | Inr cv \<Rightarrow>
                  (case expr_value \<sigma> cv of
                     [c_i'] \<Rightarrow>
                       (let residual = c_i' - dot (pc_b s) lambda_i;
                            relent_viol = abs_min0 residual
                        in Inr (Fin (relent_viol + lambda_viol)))
                   | _ \<Rightarrow> Inl TypeError))))"

text \<open>The loop of \<^verbatim>\<open>violation\<close> that fills \<^verbatim>\<open>age_viols\<close>.\<close>

fun age_viols ::
  "(vec \<Rightarrow> cone list \<Rightarrow> real) \<Rightarrow> primal_cond_sage_cone \<Rightarrow> (scalar_variable \<Rightarrow> real)
     \<Rightarrow> norm_ord \<Rightarrow> nat list \<Rightarrow> error + xreal list" where
  "age_viols dual_project s \<sigma> ord [] = Inr []"
| "age_viols dual_project s \<sigma> ord (i # is) =
     (case lookup (age_vectors s) i of
        Inl e \<Rightarrow> Inl e
      | Inr av \<Rightarrow>
          (case lookup (lambda_vars s) i of
             Inl e \<Rightarrow> Inl e
           | Inr lam \<Rightarrow>
               (case age_violation dual_project s \<sigma> i ord (expr_value \<sigma> av) (expr_value \<sigma> lam) of
                  Inl e \<Rightarrow> Inl e
                | Inr v \<Rightarrow>
                    (case age_viols dual_project s \<sigma> ord is of
                       Inl e \<Rightarrow> Inl e
                     | Inr vs \<Rightarrow> Inr (v # vs)))))"

text \<open>
  \<^verbatim>\<open>c - sum(age_vectors.values())\<close> with its negative entries set to zero, the finite
  entries of \<^verbatim>\<open>age_viols\<close>, and \<^verbatim>\<open>np.max\<close>, which raises ValueError on an empty
  array. The dictionary of age vectors holds the must-certify terms, in their order.
\<close>

definition sum_to_c_residual :: "vec \<Rightarrow> vec list \<Rightarrow> vec" where
  "sum_to_c_residual c avs =
     clip_negative (map (\<lambda>k. c ! k - sum_list (map (\<lambda>v. v ! k) avs)) [0..<length c])"

fun finite_values :: "xreal list \<Rightarrow> real list" where
  "finite_values [] = []"
| "finite_values (Fin a # vs) = a # finite_values vs"
| "finite_values (PInf # vs) = finite_values vs"

definition np_max :: "vec \<Rightarrow> error + real" where
  "np_max xs = (case xs of [] \<Rightarrow> Inl ValueError | x # ys \<Rightarrow> Inr (fold max ys x))"

text \<open>
  The branch \<open>m \<le> 1\<close> of \<^verbatim>\<open>violation\<close>. \<^verbatim>\<open>c.reshape((-1,))\<close> is a view of the array
  \<open>c\<close>: \<open>residual\<close> and \<open>c\<close> name one array, so the assignment through \<open>residual\<close>
  changes what \<^verbatim>\<open>np.linalg.norm(c, ...)\<close> reads. The arrays live in a store, a map from
  addresses to contents.
\<close>

definition degenerate_violation :: "norm_ord \<Rightarrow> vec \<Rightarrow> error + real" where
  "degenerate_violation ord c_value =
     (let c = (0::nat);
          store = [c \<mapsto> c_value];
          residual = c;
          store' = store(residual \<mapsto> map (\<lambda>x. if 0 \<le> x then 0 else x) (the (store residual)))
      in linalg_norm ord (the (store' c)))"

text \<open>\<^verbatim>\<open>PrimalCondSageCone.violation\<close>.\<close>

definition violation ::
  "(vec \<Rightarrow> cone list \<Rightarrow> real) \<Rightarrow> projection_solver \<Rightarrow> primal_cond_sage_cone
     \<Rightarrow> (scalar_variable \<Rightarrow> real) \<Rightarrow> norm_ord \<Rightarrow> bool \<Rightarrow> error + real" where
  "violation dual_project proj_solve s \<sigma> ord rough =
     (let c = expr_value \<sigma> (pc_c s) in
      if 1 < pc_m s then
        (if \<not> rough
         then Inr (project proj_solve c (pc_lifted_alpha s) (pc_A s) (pc_b s) (pc_K s))
         else
           (case dict_values (U_I (pc_ech s)) (age_vectors s) of
              Inl e \<Rightarrow> Inl e
            | Inr avs \<Rightarrow>
                (case linalg_norm ord (sum_to_c_residual c (map (expr_value \<sigma>) avs)) of
                   Inl e \<Rightarrow> Inl e
                 | Inr sum_to_c_viol \<Rightarrow>
                     (case age_viols dual_project s \<sigma> ord (U_I (pc_ech s)) of
                        Inl e \<Rightarrow> Inl e
                      | Inr viols \<Rightarrow>
                          (if list_ex (\<lambda>v. v = PInf) viols
                           then Inr (sum_to_c_viol + sum_list (finite_values viols)
                                     + project proj_solve c (pc_lifted_alpha s) (pc_A s)
                                         (pc_b s) (pc_K s))
                           else (case np_max (finite_values viols) of
                                   Inl e \<Rightarrow> Inl e
                                 | Inr mx \<Rightarrow> Inr (sum_to_c_viol + mx)))))))
      else degenerate_violation ord c)"

subsection \<open>Inputs of the worked instances\<close>

text \<open>
  A reduction solver that never succeeds, a dual-cone projection that reports no violation,
  a projection solver with a fixed value, and the background system \<open>x \<ge> 0\<close> in one
  variable.
\<close>

definition failing_solver :: solver where
  "failing_solver p = (failed, 0)"

definition no_dual_violation :: "vec \<Rightarrow> cone list \<Rightarrow> real" where
  "no_dual_violation lam K = 0"

definition constant_projection :: projection_solver where
  "constant_projection itm alpha A b K = 7"

text \<open>
  The primal cone for the two terms with exponents 0 and 1 and the coefficients \<open>x\<close>, a
  variable, and 1, after \<^verbatim>\<open>conic_form\<close> has been called once.
\<close>

definition no_memory :: memory where
  "no_memory a = False"

definition example_primal :: primal_cond_sage_cone where
  "example_primal =
     (case PrimalCondSageCone failing_solver no_memory
             [var_expr (ScalarVariable (user_name ''x'') 0), const_expr 1]
             [[0], [1]] 1 [[1]] 1 [0] [Cone ''+'' 1] ''g'' expcovers_None of
        Inr (s, ws, mem) \<Rightarrow> (case conic_form s of Inr (blocks, s') \<Rightarrow> s'))"

text \<open>
  Two assignments of values to the variables: \<open>x = 5\<close> in both; the age vector of term
  0 is \<open>(0, -1)\<close> in the first and \<open>(4, 1)\<close> in the second; every other variable is 0.
\<close>

definition infeasible_values :: "scalar_variable \<Rightarrow> real" where
  "infeasible_values sv =
     (if sv = ScalarVariable (user_name ''x'') 0 then 5
      else if sv = ScalarVariable (c_name 0 ''g'') 0 then - 1
      else 0)"

definition feasible_values :: "scalar_variable \<Rightarrow> real" where
  "feasible_values sv =
     (if sv = ScalarVariable (user_name ''x'') 0 then 5
      else if sv = ScalarVariable (c_name 0 ''g'') 0 then 1
      else if sv = ScalarVariable (c_name 0 ''g'') 1 then 4
      else 0)"

text \<open>
  The primal cone for the three terms with exponents 0, 1 and 2, all three coefficients
  variables, after \<^verbatim>\<open>conic_form\<close> has been called once. Every term is must-certify and
  is covered by the other two. In both assignments the coefficients are \<open>(5, 1, -1)\<close>
  and the age vectors of the terms 0 and 1 are \<open>(-1, 7, 0)\<close> and \<open>(0, -3, 0)\<close>; the age
  vector of term 2 is \<open>(0, 0, -2)\<close> in the first and \<open>(-1, 0, -2)\<close> in the second; every
  other variable is 0.
\<close>

definition example_primal_three :: primal_cond_sage_cone where
  "example_primal_three =
     (case PrimalCondSageCone failing_solver no_memory
             [var_expr (ScalarVariable (user_name ''x'') 0),
              var_expr (ScalarVariable (user_name ''x'') 1),
              var_expr (ScalarVariable (user_name ''x'') 2)]
             [[0], [1], [2]] 1 [[1]] 1 [0] [Cone ''+'' 1] ''g'' expcovers_None of
        Inr (s, ws, mem) \<Rightarrow> (case conic_form s of Inr (blocks, s') \<Rightarrow> s'))"

definition three_finite_values :: "scalar_variable \<Rightarrow> real" where
  "three_finite_values sv =
     (if sv = ScalarVariable (user_name ''x'') 0 then 5
      else if sv = ScalarVariable (user_name ''x'') 1 then 1
      else if sv = ScalarVariable (user_name ''x'') 2 then - 1
      else if sv = ScalarVariable (c_name 0 ''g'') 2 then - 1
      else if sv = ScalarVariable (c_name 0 ''g'') 0 then 7
      else if sv = ScalarVariable (c_name 1 ''g'') 2 then - 3
      else if sv = ScalarVariable (c_name 2 ''g'') 2 then - 2
      else 0)"

definition three_infinite_values :: "scalar_variable \<Rightarrow> real" where
  "three_infinite_values sv =
     (if sv = ScalarVariable (c_name 2 ''g'') 0 then - 1 else three_finite_values sv)"


subsection \<open>The dual cone\<close>

text \<open>
  The fields of \<^verbatim>\<open>DualCondSageCone\<close>, without the list \<^verbatim>\<open>_variables\<close>. \<open>dc_c\<close> is
  the companion coefficient vector, if one is given.
\<close>

record dual_cond_sage_cone =
  dc_A :: matrix
  dc_b :: vec
  dc_K :: "cone list"
  dc_n :: nat
  dc_m :: nat
  dc_lifted_n :: nat
  dc_lifted_alpha :: matrix
  dc_v :: expression
  dc_name :: string
  dc_c :: "expression option"
  dc_ech :: exp_cover_helper
  lifted_mu_vars :: "nat \<rightharpoonup> expression"
  mu_vars :: "nat \<rightharpoonup> expression"
  dc_relent_epi_vars :: "nat \<rightharpoonup> expression"

text \<open>One round of the loop of \<^verbatim>\<open>_initialize_variables\<close> of the dual cone.\<close>

definition dual_initialize_term ::
  "nat \<Rightarrow> dual_cond_sage_cone \<Rightarrow> error + dual_cond_sage_cone" where
  "dual_initialize_term i s =
     (let mu = Variable (dc_lifted_n s) (mu_name i (dc_name s));
          s1 = s\<lparr>lifted_mu_vars := (lifted_mu_vars s)(i \<mapsto> mu),
                 mu_vars := (mu_vars s)(i \<mapsto> take (dc_n s) mu)\<rparr>
      in case cover_of (dc_ech s) i of
           Inl e \<Rightarrow> Inl e
         | Inr cov \<Rightarrow>
             (let num_cover = count_nonzero cov in
              if 0 < num_cover
              then Inr (s1\<lparr>dc_relent_epi_vars :=
                             (dc_relent_epi_vars s1)
                               (i \<mapsto> Variable num_cover (relent_epi_name i (dc_name s)))\<rparr>)
              else Inr s1))"

fun dual_initialize_terms ::
  "nat list \<Rightarrow> dual_cond_sage_cone \<Rightarrow> error + dual_cond_sage_cone" where
  "dual_initialize_terms [] s = Inr s"
| "dual_initialize_terms (i # is) s =
     (case dual_initialize_term i s of
        Inl e \<Rightarrow> Inl e
      | Inr s' \<Rightarrow> dual_initialize_terms is s')"

definition dual_initialize_variables :: "dual_cond_sage_cone \<Rightarrow> error + dual_cond_sage_cone" where
  "dual_initialize_variables s =
     (if 1 < dc_m s then dual_initialize_terms (U_I (dc_ech s)) s else Inr s)"

text \<open>
  \<^verbatim>\<open>DualCondSageCone.__init__\<close>, with \<open>n\<close>, \<open>lifted_n\<close> and \<open>mem\<close> as for the
  primal cone.
\<close>

definition DualCondSageCone ::
  "solver \<Rightarrow> memory \<Rightarrow> expression \<Rightarrow> matrix \<Rightarrow> nat \<Rightarrow> matrix \<Rightarrow> nat \<Rightarrow> vec \<Rightarrow> cone list
     \<Rightarrow> string \<Rightarrow> expression option \<Rightarrow> expcovers_arg
     \<Rightarrow> error + (dual_cond_sage_cone \<times> string list \<times> memory)" where
  "DualCondSageCone solve mem v alpha n A lifted_n b K name c arg =
     (case check_cones K of
        Inl e \<Rightarrow> Inl e
      | Inr K' \<Rightarrow>
          (let m = length alpha;
               lifted_alpha = (if n < lifted_n then zero_pad alpha (lifted_n - n) else alpha)
           in case ExpCoverHelper solve mem lifted_alpha c A b K' arg of
                Inl e \<Rightarrow> Inl e
              | Inr (ech, ws, mem') \<Rightarrow>
                  (case dual_initialize_variables
                          \<lparr>dc_A = A, dc_b = b, dc_K = K', dc_n = n, dc_m = m,
                           dc_lifted_n = lifted_n, dc_lifted_alpha = lifted_alpha, dc_v = v,
                           dc_name = name, dc_c = c, dc_ech = ech,
                           lifted_mu_vars = Map.empty, mu_vars = Map.empty,
                           dc_relent_epi_vars = Map.empty\<rparr> of
                     Inl e \<Rightarrow> Inl e
                   | Inr s \<Rightarrow> Inr (s, ws, mem'))))"

text \<open>
  The rough residual of \<^verbatim>\<open>_dual_age_cone_violation\<close>:
  \<^verbatim>\<open>residual = mat @ mu_i - lowerbounds\<close>, its nonnegative entries set to zero, and the
  norm of the result. An infinite lower bound makes an entry of the residual
  \<^verbatim>\<open>-np.inf\<close>, which stays, and the norm \<^verbatim>\<open>np.inf\<close>.
\<close>

definition relent_residual_viol :: "norm_ord \<Rightarrow> matrix \<Rightarrow> vec \<Rightarrow> xreal list \<Rightarrow> error + xreal" where
  "relent_residual_viol ord mat mu_i lowerbounds =
     (if list_ex (\<lambda>l. l = PInf) lowerbounds
      then Inr PInf
      else (case linalg_norm ord
                   (map (\<lambda>(r, l). if 0 \<le> r - l then 0 else r - l)
                      (zip (mat_vec mat mu_i) (finite_values lowerbounds))) of
              Inl e \<Rightarrow> Inl e
            | Inr nrm \<Rightarrow> Inr (Fin nrm)))"

definition vec_add :: "vec \<Rightarrow> vec \<Rightarrow> vec" where
  "vec_add u w = map (\<lambda>(a, b). a + b) (zip u w)"

definition xpositive :: "xreal \<Rightarrow> bool" where
  "xpositive x = (case x of PInf \<Rightarrow> True | Fin a \<Rightarrow> 0 < a)"

text \<open>
  \<^verbatim>\<open>_dual_age_cone_violation\<close>. \<open>primal_project\<close> stands for
  \<^verbatim>\<open>PrimalProductCone.project\<close> and \<open>feas_solve\<close> for the status and value of the
  feasibility problem of the exact mode, given the data of its constraints; both are
  outside the sources. \<open>v\<close> is the value of the dual variable.
\<close>

record feasibility_problem =
  fp_mat :: matrix
  fp_lowerbounds :: "xreal list"
  fp_A :: matrix
  fp_v_i :: real
  fp_b :: vec
  fp_K :: "cone list"

definition dual_age_cone_violation ::
  "(vec \<Rightarrow> cone list \<Rightarrow> real) \<Rightarrow> (feasibility_problem \<Rightarrow> status \<times> real)
     \<Rightarrow> dual_cond_sage_cone \<Rightarrow> (scalar_variable \<Rightarrow> real) \<Rightarrow> nat \<Rightarrow> norm_ord \<Rightarrow> bool \<Rightarrow> vec
     \<Rightarrow> error + xreal" where
  "dual_age_cone_violation primal_project feas_solve s \<sigma> i ord rough v =
     (case cover_of (dc_ech s) i of
        Inl e \<Rightarrow> Inl e
      | Inr selector \<Rightarrow>
          (if 0 < count_nonzero selector then
             (case item v i of
                Inl e \<Rightarrow> Inl e
              | Inr v_i \<Rightarrow>
                  (case mask_of (dc_ech s) i of
                     Inl e \<Rightarrow> Inl e
                   | Inr msk \<Rightarrow>
                       (case mask_select v msk of
                          Inl e \<Rightarrow> Inl e
                        | Inr expr2 \<Rightarrow>
                            (let lowerbounds = map (rel_entr v_i) expr2 in
                             case cover_matrix (dc_lifted_alpha s) msk i of
                               Inl e \<Rightarrow> Inl e
                             | Inr diff \<Rightarrow>
                                 (let mat = negate diff in
                                  case lookup (lifted_mu_vars s) i of
                                    Inl e \<Rightarrow> Inl e
                                  | Inr mu \<Rightarrow>
                                      (let mu_i = expr_value \<sigma> mu in
                                       case relent_residual_viol ord mat mu_i lowerbounds of
                                         Inl e \<Rightarrow> Inl e
                                       | Inr relent_viol \<Rightarrow>
                                           (let AbK_val = vec_add (mat_vec (dc_A s) mu_i)
                                                            (map (\<lambda>x. v_i * x) (dc_b s));
                                                AbK_viol = primal_project AbK_val (dc_K s);
                                                curr_viol = xadd relent_viol (Fin AbK_viol)
                                            in if xpositive curr_viol \<and> \<not> rough then
                                                 (case feas_solve
                                                         \<lparr>fp_mat = mat,
                                                          fp_lowerbounds = lowerbounds,
                                                          fp_A = dc_A s, fp_v_i = v_i,
                                                          fp_b = dc_b s, fp_K = dc_K s\<rparr> of
                                                    (st, val) \<Rightarrow>
                                                      if st = solved \<and> \<bar>val\<bar> < 1 / 10 ^ 7
                                                      then Inr (Fin 0) else Inr curr_viol)
                                               else Inr curr_viol)))))))
           else Inr (Fin 0)))"

text \<open>
  \<^verbatim>\<open>DualCondSageCone.violation\<close>: the loop that fills \<^verbatim>\<open>viols\<close>, and Python's
  \<^verbatim>\<open>max\<close>, which raises ValueError on an empty list.
\<close>

fun dual_viols ::
  "(vec \<Rightarrow> cone list \<Rightarrow> real) \<Rightarrow> (feasibility_problem \<Rightarrow> status \<times> real)
     \<Rightarrow> dual_cond_sage_cone \<Rightarrow> (scalar_variable \<Rightarrow> real) \<Rightarrow> norm_ord \<Rightarrow> bool \<Rightarrow> vec
     \<Rightarrow> nat list \<Rightarrow> error + xreal list" where
  "dual_viols primal_project feas_solve s \<sigma> ord rough v [] = Inr []"
| "dual_viols primal_project feas_solve s \<sigma> ord rough v (i # is) =
     (case dual_age_cone_violation primal_project feas_solve s \<sigma> i ord rough v of
        Inl e \<Rightarrow> Inl e
      | Inr curr_viol \<Rightarrow>
          (case dual_viols primal_project feas_solve s \<sigma> ord rough v is of
             Inl e \<Rightarrow> Inl e
           | Inr viols \<Rightarrow> Inr (curr_viol # viols)))"

definition xle :: "xreal \<Rightarrow> xreal \<Rightarrow> bool" where
  "xle x y = (case y of PInf \<Rightarrow> True | Fin b \<Rightarrow> (case x of PInf \<Rightarrow> False | Fin a \<Rightarrow> a \<le> b))"

definition xmax :: "xreal \<Rightarrow> xreal \<Rightarrow> xreal" where
  "xmax x y = (if xle x y then y else x)"

definition py_max :: "xreal list \<Rightarrow> error + xreal" where
  "py_max xs = (case xs of [] \<Rightarrow> Inl ValueError | x # ys \<Rightarrow> Inr (fold xmax ys x))"

definition dual_violation ::
  "(vec \<Rightarrow> cone list \<Rightarrow> real) \<Rightarrow> (feasibility_problem \<Rightarrow> status \<times> real)
     \<Rightarrow> dual_cond_sage_cone \<Rightarrow> (scalar_variable \<Rightarrow> real) \<Rightarrow> norm_ord \<Rightarrow> bool \<Rightarrow> error + xreal" where
  "dual_violation primal_project feas_solve s \<sigma> ord rough =
     (let v = expr_value \<sigma> (dc_v s) in
      case dual_viols primal_project feas_solve s \<sigma> ord rough v (U_I (dc_ech s)) of
        Inl e \<Rightarrow> Inl e
      | Inr viols \<Rightarrow> py_max viols)"

text \<open>
  For the dual cone: the distance of a vector from the nonnegative orthant in the maximum
  norm, which is what \<^verbatim>\<open>PrimalProductCone.project\<close> measures for \<open>K = [Cone('+', d)]\<close>, a
  feasibility solver that never succeeds, the dual cones of the two terms with exponents 0
  and 1 over the background system \<open>x \<ge> 0\<close>, with the companion coefficients \<open>-1, -1\<close> and
  with none, and values of the variables: \<open>v = (1, 1)\<close>, \<open>\<mu>\<^sub>0 = -1\<close>, \<open>\<mu>\<^sub>1 = 0\<close>.
\<close>

definition nonneg_distance :: "vec \<Rightarrow> cone list \<Rightarrow> real" where
  "nonneg_distance val K = fold max (map (\<lambda>x. \<bar>min x 0\<bar>) val) 0"

definition no_feasibility :: "feasibility_problem \<Rightarrow> status \<times> real" where
  "no_feasibility p = (failed, 0)"

definition example_dual :: dual_cond_sage_cone where
  "example_dual =
     (case DualCondSageCone failing_solver no_memory
             [var_expr (ScalarVariable (user_name ''v'') 0),
              var_expr (ScalarVariable (user_name ''v'') 1)]
             [[0], [1]] 1 [[1]] 1 [0] [Cone ''+'' 1] ''g''
             (Some [const_expr (- 1), const_expr (- 1)]) expcovers_None of
        Inr (s, ws, mem) \<Rightarrow> s)"

definition example_dual_free :: dual_cond_sage_cone where
  "example_dual_free =
     (case DualCondSageCone failing_solver no_memory
             [var_expr (ScalarVariable (user_name ''v'') 0),
              var_expr (ScalarVariable (user_name ''v'') 1)]
             [[0], [1]] 1 [[1]] 1 [0] [Cone ''+'' 1] ''g'' None expcovers_None of
        Inr (s, ws, mem) \<Rightarrow> s)"

definition dual_values :: "scalar_variable \<Rightarrow> real" where
  "dual_values sv =
     (if sv = ScalarVariable (user_name ''v'') 0 then 1
      else if sv = ScalarVariable (user_name ''v'') 1 then 1
      else if sv = ScalarVariable (mu_name 0 ''g'') 0 then - 1
      else 0)"

text \<open>Other values of the variables: \<open>v = (1, 1)\<close>, \<open>\<mu>\<^sub>0 = 1\<close>, \<open>\<mu>\<^sub>1 = -3\<close>.\<close>

definition dual_values_two :: "scalar_variable \<Rightarrow> real" where
  "dual_values_two sv =
     (if sv = ScalarVariable (user_name ''v'') 0 then 1
      else if sv = ScalarVariable (user_name ''v'') 1 then 1
      else if sv = ScalarVariable (mu_name 0 ''g'') 0 then 1
      else if sv = ScalarVariable (mu_name 1 ''g'') 0 then - 3
      else 0)"

text \<open>
  The variables of term \<open>i\<close> are in place, as \<^verbatim>\<open>_initialize_variables\<close> leaves them:
  \<open>c_vars\<close> has one entry for each covering term, and one more unless \<open>i\<close> is
  definite-negative, \<open>lambda_vars\<close> is there, and so are \<open>nu_vars\<close> and
  \<open>relent_epi_vars\<close> when the cover is not empty.
\<close>

definition term_ready :: "primal_cond_sage_cone \<Rightarrow> nat \<Rightarrow> bool" where
  "term_ready s i \<longleftrightarrow>
     (case cover_of (pc_ech s) i of
        Inl e \<Rightarrow> False
      | Inr cov \<Rightarrow>
          (case c_vars s i of
             None \<Rightarrow> False
           | Some cv \<Rightarrow>
               length cv = (if i \<in> set (N_I (pc_ech s)) then count_nonzero cov
                            else count_nonzero cov + 1))
          \<and> lambda_vars s i \<noteq> None
          \<and> (count_nonzero cov = 0 \<or> nu_vars s i \<noteq> None \<and> relent_epi_vars s i \<noteq> None))"

section \<open>Verified properties\<close>

subsection \<open>Sign classification\<close>

lemma set_classify_U:
  "i \<in> set (classify_U c) \<longleftrightarrow> i < length c \<and> (\<not> is_constant (c ! i) \<or> offset (c ! i) < 0)"
  by (auto simp: classify_U_def)

lemma set_classify_N:
  "i \<in> set (classify_N c) \<longleftrightarrow> i < length c \<and> is_constant (c ! i) \<and> offset (c ! i) < 0"
  by (auto simp: classify_N_def)

lemma set_classify_P:
  "i \<in> set (classify_P c) \<longleftrightarrow> i < length c \<and> is_constant (c ! i) \<and> offset (c ! i) > 0"
  by (auto simp: classify_P_def)

lemma distinct_classify_U: "distinct (classify_U c)"
  by (simp add: classify_U_def)

text \<open>
  Claim C2, as the code has it. For a supplied coefficient vector \<open>c\<close>, an index is
  must-certify iff its entry is non-constant or constant and negative, definite-negative
  iff constant and strictly negative, definite-positive iff constant and strictly positive.
  The definite-negative group lies inside the must-certify group, the must-certify and
  definite-positive groups are disjoint, and together they are exactly the indices whose
  entry is not the constant zero.
\<close>

theorem sign_classification:
  assumes "sign_classes m (Some c) = (U, N, P)"
  shows "(\<forall>i. i \<in> set U \<longleftrightarrow>
            i < length c \<and> (\<not> is_constant (c ! i) \<or> is_constant (c ! i) \<and> offset (c ! i) < 0))
       \<and> (\<forall>i. i \<in> set N \<longleftrightarrow> i < length c \<and> is_constant (c ! i) \<and> offset (c ! i) < 0)
       \<and> (\<forall>i. i \<in> set P \<longleftrightarrow> i < length c \<and> is_constant (c ! i) \<and> offset (c ! i) > 0)
       \<and> set N \<subseteq> set U
       \<and> set U \<inter> set P = {}
       \<and> set U \<union> set P = {i. i < length c \<and> \<not> (is_constant (c ! i) \<and> offset (c ! i) = 0)}"
proof -
  from assms have U: "U = classify_U c" and N: "N = classify_N c" and P: "P = classify_P c"
    by (simp_all add: sign_classes_def)
  show ?thesis
    unfolding U N P
    by (auto simp: set_classify_U set_classify_N set_classify_P)
qed


lemma sign_classes_example:
  "sign_classes 3 (Some [const_expr (- 1), var_expr (ScalarVariable (user_name ''x'') 0), const_expr 2])
     = ([0, 1], [0], [2])"
  by code_simp

lemma sign_classes_negative_zero:
  "sign_classes 2 (Some [const_expr (- 1), const_expr 0]) = ([0], [0], [])"
  by code_simp

theorem sign_classification_witness:
  "sign_classes 3 (Some [const_expr (- 1), var_expr (ScalarVariable (user_name ''x'') 0), const_expr 2])
     = ([0, 1], [0], [2])
   \<and> set [0::nat] \<subseteq> set [0, 1] \<and> set [0, 1] \<inter> set [2::nat] = {}"
  using sign_classification [OF sign_classes_example] sign_classes_example by blast

text \<open>
  The three groups of claim C2 are neither pairwise disjoint nor a cover of all indices:
  for the coefficients \<open>-1, 0\<close> index 0 is both must-certify and definite-negative,
  and index 1 is in no group.
\<close>

theorem sign_classification_counterexample:
  "sign_classes 2 (Some [const_expr (- 1), const_expr 0]) = ([0], [0], [])
   \<and> set [0::nat] \<inter> set [0] \<noteq> {}
   \<and> (1::nat) \<notin> set [0] \<union> set [0] \<union> set []"
  using sign_classes_negative_zero by simp

subsection \<open>Default covers: the initial covers\<close>

lemma length_fold_update: "length (fold (\<lambda>i ys. ys[i := v]) idxs xs) = length xs"
  by (induction idxs arbitrary: xs) auto

lemma nth_fold_update:
  "j < length xs \<Longrightarrow>
   fold (\<lambda>i ys. ys[i := v]) idxs xs ! j = (if j \<in> set idxs then v else xs ! j)"
proof (induction idxs arbitrary: xs)
  case Nil
  then show ?case by simp
next
  case (Cons a idxs)
  have "fold (\<lambda>i ys. ys[i := v]) idxs (xs[a := v]) ! j
          = (if j \<in> set idxs then v else xs[a := v] ! j)"
    using Cons.IH [of "xs[a := v]"] Cons.prems by simp
  then show ?case using Cons.prems by (auto simp: nth_list_update)
qed

lemma index_assign_Inr:
  assumes "index_assign xs idxs v = Inr ys"
  shows "length ys = length xs"
    and "j < length xs \<Longrightarrow> ys ! j = (if j \<in> set idxs then v else xs ! j)"
    and "\<forall>i \<in> set idxs. i < length xs"
  using assms
  by (auto simp: index_assign_def length_fold_update nth_fold_update list_ex_iff
      split: if_splits)

lemma initial_cover_Inr:
  assumes "initial_cover m N i = Inr cov"
  shows "length cov = m" and "i < m"
    and "j < m \<Longrightarrow> cov ! j \<longleftrightarrow> j \<notin> set N \<and> j \<noteq> i"
proof -
  from assms obtain cov0 where a: "index_assign (replicate m True) N False = Inr cov0"
    and b: "item_assign cov0 i False = Inr cov"
    by (auto simp: initial_cover_def split: sum.splits)
  have l0: "length cov0 = m" using index_assign_Inr(1) [OF a] by simp
  from b have c: "i < length cov0" "cov = cov0[i := False]"
    by (auto simp: item_assign_def split: if_splits)
  show "length cov = m" using c l0 by simp
  show "i < m" using c l0 by simp
  show "cov ! j \<longleftrightarrow> j \<notin> set N \<and> j \<noteq> i" if "j < m"
    using that index_assign_Inr(2) [OF a, of j] c l0 by (auto simp: nth_list_update)
qed

lemma initial_covers_Inr:
  assumes "initial_covers m N U ec = Inr ec'"
  shows "i \<in> set U \<Longrightarrow> \<exists>cov. ec' i = Some cov \<and> initial_cover m N i = Inr cov"
    and "i \<notin> set U \<Longrightarrow> ec' i = ec i"
  using assms
proof (induction U arbitrary: ec)
  case Nil
  { case 1 then show ?case by simp }
  { case 2 then show ?case by simp }
next
  case (Cons a U)
  { case 1
    from "1.prems"(2) obtain cov where ca: "initial_cover m N a = Inr cov"
      and r: "initial_covers m N U (ec(a \<mapsto> cov)) = Inr ec'"
      by (auto split: sum.splits)
    show ?case
    proof (cases "i \<in> set U")
      case True
      then show ?thesis using Cons.IH(1) [OF _ r] by simp
    next
      case False
      then have "i = a" using "1.prems"(1) by simp
      moreover have "ec' i = (ec(a \<mapsto> cov)) i" using Cons.IH(2) [OF False r] .
      ultimately show ?thesis using ca by simp
    qed }
  { case 2
    from "2.prems"(2) obtain cov where ca: "initial_cover m N a = Inr cov"
      and r: "initial_covers m N U (ec(a \<mapsto> cov)) = Inr ec'"
      by (auto split: sum.splits)
    from "2.prems"(1) have "i \<notin> set U" "i \<noteq> a" by auto
    then show ?case using Cons.IH(2) [OF _ r] by simp }
qed

subsection \<open>Default covers: the aggressive reduction\<close>

lemma length_reduce_step: "length (reduce_step alpha z i j cov) = length cov"
  by (simp add: reduce_step_def)

lemma length_fold_reduce_step: "length (fold (reduce_step alpha z i) js cov) = length cov"
  by (induction js arbitrary: cov) (auto simp: length_reduce_step)

lemma nth_reduce_step:
  "k < length cov \<Longrightarrow>
   reduce_step alpha z i j cov ! k =
     (if k = j then cov ! k \<and> \<not> (k \<noteq> z \<and> float64_dot (alpha ! i) (alpha ! k) = 0) else cov ! k)"
  by (auto simp: reduce_step_def nth_list_update)

lemma nth_fold_reduce_step:
  "distinct js \<Longrightarrow> k < length cov \<Longrightarrow>
   fold (reduce_step alpha z i) js cov ! k =
     (if k \<in> set js then cov ! k \<and> \<not> (k \<noteq> z \<and> float64_dot (alpha ! i) (alpha ! k) = 0) else cov ! k)"
proof (induction js arbitrary: cov)
  case Nil
  then show ?case by simp
next
  case (Cons a js)
  let ?c = "reduce_step alpha z i a cov"
  have k: "k < length ?c" using Cons.prems by (simp add: length_reduce_step)
  have d: "distinct js" "a \<notin> set js" using Cons.prems by auto
  have "fold (reduce_step alpha z i) js ?c ! k =
     (if k \<in> set js then ?c ! k \<and> \<not> (k \<noteq> z \<and> float64_dot (alpha ! i) (alpha ! k) = 0) else ?c ! k)"
    using Cons.IH [OF d(1) k] .
  then show ?case
    using d(2) Cons.prems(2) by (auto simp: nth_reduce_step)
qed

lemma length_reduce_cover: "length (reduce_cover alpha z i cov) = length cov"
  by (simp add: reduce_cover_def length_fold_reduce_step)

lemma nth_reduce_cover:
  "k < length cov \<Longrightarrow>
   reduce_cover alpha z i cov ! k =
     (if k < length alpha then cov ! k \<and> \<not> (k \<noteq> z \<and> float64_dot (alpha ! i) (alpha ! k) = 0)
      else cov ! k)"
  by (simp add: reduce_cover_def nth_fold_reduce_step)

lemma reduce_covers_Inr:
  assumes "distinct U" and "reduce_covers alpha z U ec = Inr ec'"
  shows "ec' i = (if i \<in> set U \<and> i \<noteq> z then map_option (reduce_cover alpha z i) (ec i) else ec i)"
  using assms
proof (induction U arbitrary: ec)
  case Nil
  then show ?case by simp
next
  case (Cons a U)
  have d: "distinct U" "a \<notin> set U" using Cons.prems(1) by auto
  show ?case
  proof (cases "a = z")
    case True
    then have "reduce_covers alpha z U ec = Inr ec'" using Cons.prems(2) by simp
    then show ?thesis using Cons.IH [OF d(1)] True by auto
  next
    case False
    then obtain cov where c: "ec a = Some cov"
      and r: "reduce_covers alpha z U (ec(a \<mapsto> reduce_cover alpha z a cov)) = Inr ec'"
      using Cons.prems(2) by (auto split: option.splits)
    show ?thesis
      using Cons.IH [OF d(1) r] d(2) c False by auto
  qed
qed

lemma fold_min_eq: "fold min ys (x::real) = Min (set (x # ys))"
proof (induction ys arbitrary: x)
  case Nil
  then show ?case by simp
next
  case (Cons a ys)
  have "fold min (a # ys) x = Min (set (min a x # ys))" using Cons.IH by simp
  also have "\<dots> = Min (insert (min a x) (set ys))" by simp
  also have "\<dots> = Min (set (x # a # ys))"
    by (cases "ys = []") (auto simp: min.commute min.left_commute min.assoc)
  finally show ?case .
qed

lemma sum_list_zero_row:
  assumes "list_all (\<lambda>x. 0 \<le> x) (r::real list)"
  shows "sum_list r = 0 \<longleftrightarrow> is_zero_row r"
  using assms
proof (induction r)
  case Nil
  then show ?case by (simp add: is_zero_row_def)
next
  case (Cons a r)
  then have "0 \<le> a" "0 \<le> sum_list r"
    by (auto simp: list_all_iff intro: sum_list_nonneg)
  then have "a + sum_list r = 0 \<longleftrightarrow> a = 0 \<and> sum_list r = 0" by linarith
  then show ?case using Cons by (auto simp: is_zero_row_def)
qed

lemma reduction_applies_iff:
  "reduction_applies alpha = Inr True \<longleftrightarrow>
     alpha \<noteq> [] \<and> np_all_nonneg alpha \<and> list_ex is_zero_row alpha"
proof (cases "np_all_nonneg alpha \<and> alpha \<noteq> []")
  case False
  then show ?thesis
    by (auto simp: reduction_applies_def np_min_def row_sums_def split: list.splits)
next
  case True
  then obtain r rs where al: "alpha = r # rs" by (cases alpha) auto
  have nn: "\<forall>q \<in> set alpha. list_all (\<lambda>x. 0 \<le> x) q"
    using True by (simp add: np_all_nonneg_def list_all_iff)
  have ge: "\<forall>s \<in> set (row_sums alpha). 0 \<le> s"
    using nn by (auto simp: row_sums_def list_all_iff intro: sum_list_nonneg)
  have ne: "set (row_sums alpha) \<noteq> {}" using al by (simp add: row_sums_def)
  have "np_min (row_sums alpha) = Inr (Min (set (row_sums alpha)))"
    using al by (simp add: np_min_def row_sums_def fold_min_eq)
  then have "reduction_applies alpha = Inr True \<longleftrightarrow> Min (set (row_sums alpha)) = 0"
    using True by (simp add: reduction_applies_def)
  also have "\<dots> \<longleftrightarrow> 0 \<in> set (row_sums alpha)"
  proof
    assume "Min (set (row_sums alpha)) = 0"
    then show "0 \<in> set (row_sums alpha)"
      using Min_in [of "set (row_sums alpha)"] ne by simp
  next
    assume z: "0 \<in> set (row_sums alpha)"
    have "Min (set (row_sums alpha)) \<le> 0" using z by (simp add: Min_le)
    moreover have "0 \<le> Min (set (row_sums alpha))" using ge ne by simp
    ultimately show "Min (set (row_sums alpha)) = 0" by simp
  qed
  also have "\<dots> \<longleftrightarrow> list_ex is_zero_row alpha"
    using nn sum_list_zero_row by (auto simp: row_sums_def list_ex_iff image_iff)
  finally show ?thesis using True by simp
qed

lemma upt_split_length:
  assumes "[0..<n] = us @ z # vs"
  shows "us = [0..<z]" and "z < n"
proof -
  have l: "length us < n" using arg_cong [OF assms, of length] by simp
  have "[0..<n] ! length us = z" using assms by (simp add: nth_append)
  then have z: "z = length us" using l by simp
  show "z < n" using z l by simp
  have "us = take (length us) [0..<n]" using assms by simp
  also have "\<dots> = [0..<length us]" using l by (simp add: take_upt)
  finally show "us = [0..<z]" using z by simp
qed

lemma zero_locs_Cons:
  assumes "zero_locs rs = z # rest"
  shows "z < length rs" and "rs ! z = 0" and "\<forall>k<z. rs ! k \<noteq> 0"
proof -
  from assms obtain us vs where s: "[0..<length rs] = us @ z # vs"
    and u: "\<forall>u \<in> set us. rs ! u \<noteq> 0" and p: "rs ! z = 0"
    unfolding zero_locs_def filter_eq_Cons_iff by blast
  show "z < length rs" using upt_split_length(2) [OF s] .
  show "rs ! z = 0" using p .
  show "\<forall>k<z. rs ! k \<noteq> 0" using u upt_split_length(1) [OF s] by simp
qed

lemma zero_locs_first_zero_row:
  assumes "np_all_nonneg alpha" and "zero_locs (row_sums alpha) = z # rest"
  shows "first_zero_row alpha z"
proof -
  have nn: "\<And>k. k < length alpha \<Longrightarrow> list_all (\<lambda>x. 0 \<le> x) (alpha ! k)"
    using assms(1) by (simp add: np_all_nonneg_def list_all_length)
  have z: "z < length alpha" using zero_locs_Cons(1) [OF assms(2)] by (simp add: row_sums_def)
  have "sum_list (alpha ! z) = 0"
    using zero_locs_Cons(2) [OF assms(2)] z by (simp add: row_sums_def)
  then have a: "is_zero_row (alpha ! z)" using sum_list_zero_row [OF nn [OF z]] by simp
  have "\<not> is_zero_row (alpha ! k)" if "k < z" for k
  proof -
    have k: "k < length alpha" using that z by simp
    have "sum_list (alpha ! k) \<noteq> 0"
      using zero_locs_Cons(3) [OF assms(2)] that k by (auto simp: row_sums_def)
    then show ?thesis using sum_list_zero_row [OF nn [OF k]] by simp
  qed
  then show ?thesis using z a by (simp add: first_zero_row_def)
qed

lemma first_zero_row_unique:
  "first_zero_row alpha z \<Longrightarrow> first_zero_row alpha z' \<Longrightarrow> z = z'"
  unfolding first_zero_row_def by (metis linorder_neqE_nat)

lemma aggressive_reduction_Inr:
  assumes "distinct U" and "aggressive_reduction alpha U ec = Inr ec'"
  shows "alpha \<noteq> [] \<or> \<not> np_all_nonneg alpha"
    and "\<not> (np_all_nonneg alpha \<and> list_ex is_zero_row alpha) \<Longrightarrow> ec' = ec"
    and "np_all_nonneg alpha \<Longrightarrow> list_ex is_zero_row alpha \<Longrightarrow>
           \<exists>z. first_zero_row alpha z \<and>
             (\<forall>i. ec' i = (if i \<in> set U \<and> i \<noteq> z
                            then map_option (reduce_cover alpha z i) (ec i) else ec i))"
proof -
  from assms(2) obtain ap where ap: "reduction_applies alpha = Inr ap"
    by (auto simp: aggressive_reduction_def split: sum.splits)
  show ne: "alpha \<noteq> [] \<or> \<not> np_all_nonneg alpha"
    using ap by (auto simp: reduction_applies_def np_min_def row_sums_def)
  show "ec' = ec" if "\<not> (np_all_nonneg alpha \<and> list_ex is_zero_row alpha)"
  proof -
    have "\<not> ap" using that ap reduction_applies_iff [of alpha] by auto
    then show ?thesis using assms(2) ap by (simp add: aggressive_reduction_def)
  qed
  show "\<exists>z. first_zero_row alpha z \<and>
             (\<forall>i. ec' i = (if i \<in> set U \<and> i \<noteq> z
                            then map_option (reduce_cover alpha z i) (ec i) else ec i))"
    if nn: "np_all_nonneg alpha" and zr: "list_ex is_zero_row alpha"
  proof -
    have "ap" using nn zr ne ap reduction_applies_iff [of alpha] by auto
    then obtain z rest where zl: "zero_locs (row_sums alpha) = z # rest"
      and r: "reduce_covers alpha z U ec = Inr ec'"
      using assms(2) ap by (auto simp: aggressive_reduction_def split: list.splits)
    show ?thesis
      using zero_locs_first_zero_row [OF nn zl] reduce_covers_Inr [OF assms(1) r] by blast
  qed
qed

lemma in_cover_reduce:
  assumes "ec i = Some cov" and "length cov = length alpha"
  shows "in_cover (ec(i \<mapsto> reduce_cover alpha z i cov)) i j \<longleftrightarrow>
           in_cover ec i j \<and> \<not> (j \<noteq> z \<and> float64_dot (alpha ! i) (alpha ! j) = 0)"
  using assms by (auto simp: in_cover_def length_reduce_cover nth_reduce_cover)

subsection \<open>Default covers: trivial-cone elimination\<close>

lemma eliminate_one_cases:
  "eliminate_one solve alpha A b K i cov = Inr cov' \<Longrightarrow>
     cov' = cov \<or> cov' = replicate (length cov) False"
  by (auto simp: eliminate_one_def split: if_splits sum.splits prod.splits)

lemma eliminate_trivial_step:
  assumes "distinct U" and "eliminate_trivial solve alpha A b K U ec = Inr ec'"
  shows "(i \<in> set U \<longrightarrow>
           (\<exists>cov cov'. ec i = Some cov \<and> eliminate_one solve alpha A b K i cov = Inr cov'
                     \<and> ec' i = Some cov'))
       \<and> (i \<notin> set U \<longrightarrow> ec' i = ec i)"
  using assms
proof (induction U arbitrary: ec)
  case Nil
  then show ?case by simp
next
  case (Cons a U)
  have d: "distinct U" "a \<notin> set U" using Cons.prems(1) by auto
  from Cons.prems(2) obtain cov cov' where c: "ec a = Some cov"
    and e: "eliminate_one solve alpha A b K a cov = Inr cov'"
    and r: "eliminate_trivial solve alpha A b K U (ec(a \<mapsto> cov')) = Inr ec'"
    by (auto split: option.splits sum.splits)
  note ih = Cons.IH [OF d(1) r]
  show ?case
  proof (cases "i = a")
    case True
    then have "ec' i = Some cov'" using ih d(2) by simp
    then show ?thesis using True c e by simp
  next
    case False
    then show ?thesis using ih by simp
  qed
qed

lemma eliminate_trivial_Inr:
  assumes "distinct U" and "eliminate_trivial solve alpha A b K U ec = Inr ec'"
  shows "i \<in> set U \<Longrightarrow>
           \<exists>cov cov'. ec i = Some cov \<and> eliminate_one solve alpha A b K i cov = Inr cov'
                     \<and> ec' i = Some cov'"
    and "i \<notin> set U \<Longrightarrow> ec' i = ec i"
  using eliminate_trivial_step [OF assms, of i] by blast+

lemma eliminate_trivial_in_cover:
  assumes "distinct U" and "eliminate_trivial solve alpha A b K U ec = Inr ec'"
    and "in_cover ec' i j"
  shows "in_cover ec i j"
proof (cases "i \<in> set U")
  case True
  from eliminate_trivial_Inr(1) [OF assms(1,2) True] obtain cov cov'
    where "ec i = Some cov" "eliminate_one solve alpha A b K i cov = Inr cov'" "ec' i = Some cov'"
    by blast
  then show ?thesis using eliminate_one_cases [of solve alpha A b K i cov cov'] assms(3)
    by (auto simp: in_cover_def)
next
  case False
  then show ?thesis using eliminate_trivial_Inr(2) [OF assms(1,2)] assms(3)
    by (simp add: in_cover_def)
qed

subsection \<open>Default covers: the three steps together\<close>

lemma dot_commute: "dot u w = dot w u"
proof (induction u arbitrary: w)
  case Nil
  then show ?case by (simp add: dot_def)
next
  case (Cons a u)
  then show ?case by (cases w) (simp_all add: dot_def)
qed

lemma dot_zero_row: "is_zero_row w \<Longrightarrow> dot u w = 0"
proof (induction u arbitrary: w)
  case Nil
  then show ?case by (simp add: dot_def)
next
  case (Cons a u)
  then show ?case by (cases w) (simp_all add: dot_def is_zero_row_def)
qed



lemma float64_dot_zero_row: "is_zero_row w \<Longrightarrow> float64_dot u w = 0"
proof (induction u arbitrary: w)
  case Nil
  then show ?case by (simp add: float64_dot_def)
next
  case (Cons a u)
  then show ?case
    by (cases w) (simp_all add: float64_dot_def float64_times_def is_zero_row_def)
qed



text \<open>
  The computed product can be zero where the exact one is not: \<open>2 ^ - 600 * 2 ^ - 600\<close> is
  below the least positive float64 number.
\<close>

lemma float64_dot_underflow:
  "float64_dot [1 / 2 ^ 600, 0] [1 / 2 ^ 600, 1] = 0
   \<and> dot [1 / 2 ^ 600, 0] [1 / 2 ^ 600, 1] \<noteq> 0"
proof -
  have "(1 / 2 ^ 600) * (1 / 2 ^ 600) = (1 / 2 ^ 1200 :: real)"
    by (simp add: power_add [symmetric])
  moreover have "(1 / 2 ^ 1200 :: real) \<le> 1 / 2 ^ 1075"
    by (rule divide_left_mono) (simp_all add: power_increasing)
  ultimately have "float64_times (1 / 2 ^ 600) (1 / 2 ^ 600) = 0"
    by (simp add: float64_times_def)
  then show ?thesis by (simp add: float64_dot_def dot_def float64_times_def)
qed

lemma default_exp_covers_steps:
  assumes "default_exp_covers solve alpha A b K U N = Inr ec"
  shows "\<exists>ec0 ec1. initial_covers (length alpha) N U Map.empty = Inr ec0
           \<and> aggressive_reduction alpha U ec0 = Inr ec1
           \<and> eliminate_trivial solve alpha A b K U ec1 = Inr ec"
  using assms
  by (auto simp: default_exp_covers_def AGGRESSIVE_REDUCTION_def
      ELIMINATE_TRIVIAL_AGE_CONES_def split: sum.splits)

lemma initial_covers_length:
  assumes "initial_covers m N U ec = Inr ec0" and "i \<in> set U"
  shows "\<exists>cov. ec0 i = Some cov \<and> length cov = m \<and> i < m \<and> \<not> cov ! i"
proof -
  from initial_covers_Inr(1) [OF assms] obtain cov
    where c: "ec0 i = Some cov" "initial_cover m N i = Inr cov" by blast
  show ?thesis
    using c(1) initial_cover_Inr(1,2) [OF c(2)] initial_cover_Inr(3) [OF c(2), of i] by simp
qed

lemma reduced_in_cover:
  assumes "first_zero_row alpha z"
    and ec1: "\<forall>i. ec1 i = (if i \<in> set U \<and> i \<noteq> z
                            then map_option (reduce_cover alpha z i) (ec0 i) else ec0 i)"
    and "i \<in> set U" and "i \<noteq> z"
    and "ec0 i = Some cov" and "length cov = length alpha"
  shows "in_cover ec1 i j \<longleftrightarrow>
           in_cover ec0 i j \<and> \<not> (j \<noteq> z \<and> float64_dot (alpha ! i) (alpha ! j) = 0)"
proof -
  have "ec1 i = Some (reduce_cover alpha z i cov)" using assms by simp
  then show ?thesis
    using assms(5,6) by (auto simp: in_cover_def length_reduce_cover nth_reduce_cover)
qed


text \<open>
  Claim C10. When the precondition of the aggressive reduction holds and the matrix has a
  zero row \<open>z'\<close> besides its first zero row \<open>z\<close>, only \<open>z\<close> is exempt: \<open>z'\<close>
  has dot product zero with every row (exact and as computed) and is outside the cover of
  every must-certify term other than \<open>z\<close>, while \<open>z\<close> itself is in a cover after the
  reduction iff it was before, and the reduction leaves the cover of \<open>z\<close> as it was.
\<close>

theorem extra_zero_rows_are_dropped:
  assumes "distinct U"
    and "default_exp_covers solve alpha A b K U N = Inr ec"
    and "np_all_nonneg alpha"
    and "first_zero_row alpha z"
    and "z' < length alpha" and "is_zero_row (alpha ! z')" and "z' \<noteq> z"
  shows "\<exists>ec0 ec1.
           initial_covers (length alpha) N U Map.empty = Inr ec0
         \<and> aggressive_reduction alpha U ec0 = Inr ec1
         \<and> eliminate_trivial solve alpha A b K U ec1 = Inr ec
         \<and> (\<forall>i. dot (alpha ! i) (alpha ! z') = 0 \<and> float64_dot (alpha ! i) (alpha ! z') = 0)
         \<and> (\<forall>i \<in> set U. i \<noteq> z \<longrightarrow> \<not> in_cover ec1 i z' \<and> \<not> in_cover ec i z')
         \<and> (\<forall>i. in_cover ec1 i z \<longleftrightarrow> in_cover ec0 i z)
         \<and> ec1 z = ec0 z"
proof -
  from default_exp_covers_steps [OF assms(2)] obtain ec0 ec1
    where i0: "initial_covers (length alpha) N U Map.empty = Inr ec0"
      and a1: "aggressive_reduction alpha U ec0 = Inr ec1"
      and e2: "eliminate_trivial solve alpha A b K U ec1 = Inr ec"
    by blast
  have zr: "list_ex is_zero_row alpha"
    using assms(5,6) by (auto simp: list_ex_iff)
  from aggressive_reduction_Inr(3) [OF assms(1) a1 assms(3) zr] obtain y
    where y: "first_zero_row alpha y"
      and ec1: "\<forall>i. ec1 i = (if i \<in> set U \<and> i \<noteq> y
                            then map_option (reduce_cover alpha y i) (ec0 i) else ec0 i)"
    by blast
  have yz: "y = z" using first_zero_row_unique [OF y assms(4)] .
  have d0: "\<forall>i. dot (alpha ! i) (alpha ! z') = 0 \<and> float64_dot (alpha ! i) (alpha ! z') = 0"
    using dot_zero_row [OF assms(6)] float64_dot_zero_row [OF assms(6)] by simp
  have out: "\<not> in_cover ec1 i z' \<and> \<not> in_cover ec i z'" if "i \<in> set U" "i \<noteq> z" for i
  proof -
    from initial_covers_length [OF i0 that(1)] obtain cov
      where c: "ec0 i = Some cov" "length cov = length alpha" by blast
    have "in_cover ec1 i z' \<longleftrightarrow>
            in_cover ec0 i z' \<and> \<not> (z' \<noteq> y \<and> float64_dot (alpha ! i) (alpha ! z') = 0)"
      using reduced_in_cover [OF y ec1 that(1) _ c] that(2) yz by blast
    then have "\<not> in_cover ec1 i z'" using d0 assms(7) yz by simp
    then show ?thesis using eliminate_trivial_in_cover [OF assms(1) e2] by blast
  qed
  have keep: "in_cover ec1 i z \<longleftrightarrow> in_cover ec0 i z" for i
  proof (cases "i \<in> set U \<and> i \<noteq> z")
    case True
    from initial_covers_length [OF i0] True obtain cov
      where c: "ec0 i = Some cov" "length cov = length alpha" by blast
    show ?thesis using reduced_in_cover [OF y ec1 _ _ c, of z] True yz by blast
  next
    case False
    then have "ec1 i = ec0 i" using ec1 yz by auto
    then show ?thesis by (simp add: in_cover_def)
  qed
  have "ec1 z = ec0 z" using ec1 yz by simp
  then show ?thesis using i0 a1 e2 d0 out keep by blast
qed

subsection \<open>Default covers: two instances\<close>


text \<open>
  Rows 1 and 2 below have the exact dot product \<open>2 ^ - 1200\<close>; the product computed in
  float64 is zero, and each row is dropped from the other's cover.
\<close>

lemma default_exp_covers_underflow_example:
  "default_exp_covers (\<lambda>p. (failed, 0)) [[0, 0], [1 / 2 ^ 600, 0], [1 / 2 ^ 600, 1]] [] [] []
       [0, 1, 2] []
     = Inr [0 \<mapsto> [False, True, True], 1 \<mapsto> [True, False, False], 2 \<mapsto> [True, False, False]]"
  by (simp add: default_exp_covers_def AGGRESSIVE_REDUCTION_def ELIMINATE_TRIVIAL_AGE_CONES_def
      initial_cover_def index_assign_def item_assign_def aggressive_reduction_def
      reduction_applies_def np_all_nonneg_def np_min_def row_sums_def zero_locs_def
      reduce_cover_def reduce_step_def float64_dot_def float64_times_def eliminate_one_def
      np_any_def cover_matrix_def mask_select_def item_def vec_sub_def numeral_3_eq_3
      numeral_2_eq_2)


lemma default_exp_covers_two_zero_rows_example:
  "default_exp_covers (\<lambda>p. (failed, 0)) [[0, 0], [1, 0], [0, 0]] [] [] [] [0, 1, 2] []
     = Inr [0 \<mapsto> [False, True, True], 1 \<mapsto> [True, False, False], 2 \<mapsto> [True, False, False]]"
  by (simp add: default_exp_covers_def AGGRESSIVE_REDUCTION_def ELIMINATE_TRIVIAL_AGE_CONES_def
      initial_cover_def index_assign_def item_assign_def aggressive_reduction_def
      reduction_applies_def np_all_nonneg_def np_min_def row_sums_def zero_locs_def
      reduce_cover_def reduce_step_def float64_dot_def float64_times_def dot_def eliminate_one_def np_any_def cover_matrix_def
      mask_select_def item_def vec_sub_def numeral_3_eq_3 numeral_2_eq_2)

theorem extra_zero_rows_are_dropped_witness:
  "distinct [0, 1, 2 :: nat]
   \<and> default_exp_covers (\<lambda>p. (failed, 0)) [[0, 0], [1, 0], [0, 0]] [] [] [] [0, 1, 2] []
       = Inr [0 \<mapsto> [False, True, True], 1 \<mapsto> [True, False, False], 2 \<mapsto> [True, False, False]]
   \<and> np_all_nonneg [[0, 0], [1, 0], [0, 0]]
   \<and> first_zero_row [[0, 0], [1, 0], [0, 0]] 0
   \<and> is_zero_row ([[0, 0], [1, 0], [0, 0]] ! 2)
   \<and> \<not> in_cover [0 \<mapsto> [False, True, True], 1 \<mapsto> [True, False, False], 2 \<mapsto> [True, False, False]] 1 2
   \<and> in_cover [0 \<mapsto> [False, True, True], 1 \<mapsto> [True, False, False], 2 \<mapsto> [True, False, False]] 1 0"
proof -
  let ?alpha = "[[0, 0], [1, 0], [0, 0]] :: matrix"
  let ?ec = "[0 \<mapsto> [False, True, True], 1 \<mapsto> [True, False, False], 2 \<mapsto> [True, False, False]]
               :: nat \<rightharpoonup> bool list"
  have d: "distinct [0, 1, 2 :: nat]" by simp
  have nn: "np_all_nonneg ?alpha" by (simp add: np_all_nonneg_def)
  have fz: "first_zero_row ?alpha 0" by (simp add: first_zero_row_def is_zero_row_def)
  have z': "(2::nat) < length ?alpha" "is_zero_row (?alpha ! 2)" "(2::nat) \<noteq> 0"
    by (simp_all add: is_zero_row_def)
  have m: "(1::nat) \<in> set [0, 1, 2]" "(1::nat) \<noteq> 0" by simp_all
  from extra_zero_rows_are_dropped
    [OF d default_exp_covers_two_zero_rows_example nn fz z']
  have "\<not> in_cover ?ec 1 2" using m by blast
  moreover have "in_cover ?ec 1 0" by (simp add: in_cover_def)
  ultimately show ?thesis using d default_exp_covers_two_zero_rows_example nn fz z'(2) by blast
qed

subsection \<open>Validation of a supplied cover map\<close>

lemma self_cell_None_iff:
  "self_cell d i = None \<longleftrightarrow>
     missing_key d i \<or> wrong_datatype d i \<or> too_short d i \<or> ambiguous_row d i"
proof (cases "d i")
  case None
  then show ?thesis by (simp add: self_cell_def missing_key_def)
next
  case (Some v)
  show ?thesis
  proof (cases "is_bool_ndarray v")
    case False
    then show ?thesis using Some by (simp add: self_cell_def wrong_datatype_def)
  next
    case True
    show ?thesis
    proof (cases "shape v")
      case Nil
      then show ?thesis using Some True
        by (simp add: self_cell_def self_entry_def too_short_def)
    next
      case (Cons n rest)
      then show ?thesis using Some True
        by (auto simp: self_cell_def self_entry_def missing_key_def wrong_datatype_def
            too_short_def ambiguous_row_def)
    qed
  qed
qed

lemma self_cell_SomeD:
  assumes "self_cell d i = Some a"
  shows "\<exists>v. d i = Some v \<and> is_bool_ndarray v \<and> self_entry (shape v) (buffer v) i = Inr a"
  using assms by (auto simp: self_cell_def split: option.splits if_splits sum.splits)

lemma self_entry_InrD:
  assumes "self_entry sh buf i = Inr a" and "length buf = prod_list sh"
  shows "i < length buf \<and> a = buf ! i \<and> sh \<noteq> [] \<and> i < hd sh \<and> prod_list (tl sh) = 1"
  using assms by (cases sh) (auto simp: self_entry_def split: if_splits)

lemma verify_exp_covers_step:
  assumes "self_cell d i = Some a"
  shows "verify_exp_covers (i # U) d mem ws =
           (if mem a then
              (if read_only d i then Inl ValueError
               else verify_exp_covers U d (store_entry mem a False) (ws @ [nonsensical_warning]))
            else verify_exp_covers U d mem ws)"
proof -
  from self_cell_SomeD [OF assms] obtain v where
    v: "d i = Some v" "is_bool_ndarray v" "self_entry (shape v) (buffer v) i = Inr a" by blast
  then show ?thesis by (simp add: read_only_def)
qed

lemma verify_exp_covers_bad:
  assumes "self_cell d i = None"
  shows "\<exists>e. verify_exp_covers (i # U) d mem ws = Inl e"
  using assms by (auto simp: self_cell_def split: option.splits if_splits sum.splits)

lemma reached_true_head:
  assumes "sorted_wrt (<) (i # U)" and "self_cell d i = Some a"
  shows "reached_true d mem (i # U) i \<longleftrightarrow> mem a"
  using assms by (auto simp: reached_true_def)

lemma reached_true_tail:
  assumes "sorted_wrt (<) (i # U)" and "self_cell d i = Some a" and "k \<in> set U"
  shows "reached_true d mem (i # U) k \<longleftrightarrow> reached_true d (store_entry mem a False) U k"
proof -
  have ik: "i < k" using assms(1,3) by auto
  show ?thesis
  proof (cases "self_cell d k")
    case None
    then show ?thesis by (simp add: reached_true_def)
  next
    case (Some b)
    show ?thesis using Some assms(2) ik by (auto simp: reached_true_def store_entry_def)
  qed
qed

lemma reached_true_tail_false:
  assumes "sorted_wrt (<) (i # U)" and "self_cell d i = Some a" and "\<not> mem a" and "k \<in> set U"
  shows "reached_true d mem (i # U) k \<longleftrightarrow> reached_true d mem U k"
proof -
  have "store_entry mem a False = mem"
    unfolding store_entry_def using assms(3) by (intro ext) simp
  then show ?thesis using reached_true_tail [OF assms(1,2,4), of mem] by simp
qed

lemma verify_exp_covers_Inl:
  assumes "sorted_wrt (<) U"
  shows "(\<exists>e. verify_exp_covers U d mem ws = Inl e) \<longleftrightarrow>
           (\<exists>i \<in> set U. missing_key d i \<or> wrong_datatype d i \<or> too_short d i
                         \<or> ambiguous_row d i \<or> (read_only d i \<and> reached_true d mem U i))"
  using assms
proof (induction U arbitrary: mem ws)
  case Nil
  then show ?case by simp
next
  case (Cons i U)
  have sU: "sorted_wrt (<) U" using Cons.prems by simp
  let ?bad = "\<lambda>k. missing_key d k \<or> wrong_datatype d k \<or> too_short d k \<or> ambiguous_row d k"
  show ?case
  proof (cases "self_cell d i")
    case None
    then have "?bad i" using self_cell_None_iff [of d i] by simp
    then show ?thesis using verify_exp_covers_bad [OF None, of U mem ws] by auto
  next
    case (Some a)
    then have ok: "\<not> ?bad i" using self_cell_None_iff [of d i] by simp
    note st = verify_exp_covers_step [OF Some, of U mem ws]
    note hd = reached_true_head [OF Cons.prems Some, of mem]
    show ?thesis
    proof (cases "mem a")
      case True
      show ?thesis
      proof (cases "read_only d i")
        case ro: True
        then show ?thesis using st True hd by auto
      next
        case False
        have "(\<exists>e. verify_exp_covers (i # U) d mem ws = Inl e) \<longleftrightarrow>
              (\<exists>k \<in> set U. ?bad k \<or> (read_only d k \<and> reached_true d (store_entry mem a False) U k))"
          using st True False Cons.IH [OF sU, of "store_entry mem a False" "ws @ [nonsensical_warning]"]
          by simp
        also have "\<dots> \<longleftrightarrow> (\<exists>k \<in> set U. ?bad k \<or> (read_only d k \<and> reached_true d mem (i # U) k))"
          using reached_true_tail [OF Cons.prems Some, of _ mem] by blast
        finally show ?thesis using ok False by auto
      qed
    next
      case False
      have "(\<exists>e. verify_exp_covers (i # U) d mem ws = Inl e) \<longleftrightarrow>
              (\<exists>k \<in> set U. ?bad k \<or> (read_only d k \<and> reached_true d mem U k))"
        using st False Cons.IH [OF sU, of mem ws] by simp
      also have "\<dots> \<longleftrightarrow> (\<exists>k \<in> set U. ?bad k \<or> (read_only d k \<and> reached_true d mem (i # U) k))"
        using reached_true_tail_false [where mem = mem, OF Cons.prems Some False] by blast
      finally show ?thesis using ok False hd by auto
    qed
  qed
qed

lemma self_cells_Cons:
  "self_cell d i = Some a \<Longrightarrow> self_cells d (i # U) = a # self_cells d U"
  by (simp add: self_cells_def List.map_filter_simps)

lemma set_self_cells: "set (self_cells d U) = {a. \<exists>i \<in> set U. self_cell d i = Some a}"
proof (induction U)
  case Nil
  then show ?case by (simp add: self_cells_def List.map_filter_simps)
next
  case (Cons i U)
  then show ?case
    by (cases "self_cell d i") (auto simp: self_cells_def List.map_filter_simps)
qed

lemma verify_exp_covers_Inr:
  assumes "sorted_wrt (<) U" and "verify_exp_covers U d mem ws = Inr (mem', ws')"
  shows "(\<forall>i \<in> set U. \<exists>a. self_cell d i = Some a)
       \<and> (\<forall>i \<in> set U. \<not> (read_only d i \<and> reached_true d mem U i))
       \<and> mem' = (\<lambda>x. mem x \<and> x \<notin> set (self_cells d U))
       \<and> ws' = ws @ map (\<lambda>i. nonsensical_warning) (filter (reached_true d mem U) U)"
  using assms
proof (induction U arbitrary: mem ws)
  case Nil
  then show ?case by (simp add: self_cells_def List.map_filter_simps)
next
  case (Cons i U)
  have sU: "sorted_wrt (<) U" using Cons.prems(1) by simp
  obtain a where a: "self_cell d i = Some a"
    using verify_exp_covers_bad [of d i U mem ws] Cons.prems(2) by (cases "self_cell d i") auto
  note st = verify_exp_covers_step [OF a, of U mem ws]
  note hd = reached_true_head [OF Cons.prems(1) a, of mem]
  note sc = self_cells_Cons [OF a, of U]
  show ?case
  proof (cases "mem a")
    case True
    then have ro: "\<not> read_only d i" and
      r: "verify_exp_covers U d (store_entry mem a False) (ws @ [nonsensical_warning]) = Inr (mem', ws')"
      using st Cons.prems(2) by (auto split: if_splits)
    note ih = Cons.IH [OF sU r]
    have f: "filter (reached_true d mem (i # U)) U = filter (reached_true d (store_entry mem a False) U) U"
      using reached_true_tail [OF Cons.prems(1) a, of _ mem] by (intro filter_cong) auto
    have "mem' = (\<lambda>x. mem x \<and> x \<notin> set (self_cells d (i # U)))"
      using ih sc by (auto simp: store_entry_def)
    moreover have "ws' = ws @ map (\<lambda>i. nonsensical_warning)
                                (filter (reached_true d mem (i # U)) (i # U))"
      using ih hd True f by simp
    moreover have "\<forall>k \<in> set (i # U). \<not> (read_only d k \<and> reached_true d mem (i # U) k)"
      using ih ro reached_true_tail [OF Cons.prems(1) a, of _ mem] by auto
    ultimately show ?thesis using ih a by simp
  next
    case False
    then have r: "verify_exp_covers U d mem ws = Inr (mem', ws')"
      using st Cons.prems(2) by simp
    note ih = Cons.IH [OF sU r]
    have f: "filter (reached_true d mem (i # U)) U = filter (reached_true d mem U) U"
      using reached_true_tail_false [where mem = mem, OF Cons.prems(1) a False] by (intro filter_cong) auto
    have "mem' = (\<lambda>x. mem x \<and> x \<notin> set (self_cells d (i # U)))"
      using ih sc False by auto
    moreover have "ws' = ws @ map (\<lambda>i. nonsensical_warning)
                                (filter (reached_true d mem (i # U)) (i # U))"
      using ih hd False f by simp
    moreover have "\<forall>k \<in> set (i # U). \<not> (read_only d k \<and> reached_true d mem (i # U) k)"
      using ih hd False reached_true_tail_false [where mem = mem, OF Cons.prems(1) a False] by auto
    ultimately show ?thesis using ih a by simp
  qed
qed

subsection \<open>Trivial-cone elimination and the self-cover invariant\<close>

lemma distinct_sign_classes:
  assumes "sign_classes m c = (U, N, P)"
  shows "distinct U"
  using assms by (auto simp: sign_classes_def classify_U_def split: option.splits)

lemma aggressive_reduction_entry:
  assumes "distinct U" and "aggressive_reduction alpha U ec0 = Inr ec1" and "ec0 i = Some c0"
  shows "\<exists>c1. ec1 i = Some c1 \<and> length c1 = length c0 \<and> (\<forall>j<length c0. c1 ! j \<longrightarrow> c0 ! j)"
proof (cases "np_all_nonneg alpha \<and> list_ex is_zero_row alpha")
  case False
  then show ?thesis using aggressive_reduction_Inr(2) [OF assms(1,2)] assms(3) by simp
next
  case True
  from aggressive_reduction_Inr(3) [OF assms(1,2)] True obtain z
    where ec1: "\<forall>i. ec1 i = (if i \<in> set U \<and> i \<noteq> z
                            then map_option (reduce_cover alpha z i) (ec0 i) else ec0 i)"
    by blast
  have "ec1 i = Some (if i \<in> set U \<and> i \<noteq> z then reduce_cover alpha z i c0 else c0)"
    using ec1 assms(3) by simp
  then show ?thesis by (auto simp: length_reduce_cover nth_reduce_cover)
qed

lemma default_exp_covers_entry:
  assumes "distinct U" and "default_exp_covers solve alpha A b K U N = Inr ec" and "i \<in> set U"
  shows "\<exists>cov. ec i = Some cov \<and> length cov = length alpha \<and> i < length cov \<and> \<not> cov ! i"
proof -
  from default_exp_covers_steps [OF assms(2)] obtain ec0 ec1
    where i0: "initial_covers (length alpha) N U Map.empty = Inr ec0"
      and a1: "aggressive_reduction alpha U ec0 = Inr ec1"
      and e2: "eliminate_trivial solve alpha A b K U ec1 = Inr ec"
    by blast
  from initial_covers_length [OF i0 assms(3)] obtain c0
    where c0: "ec0 i = Some c0" "length c0 = length alpha" "i < length alpha" "\<not> c0 ! i"
    by blast
  from aggressive_reduction_entry [OF assms(1) a1 c0(1)] obtain c1
    where c1: "ec1 i = Some c1" "length c1 = length c0" "\<forall>j<length c0. c1 ! j \<longrightarrow> c0 ! j"
    by blast
  have n1: "\<not> c1 ! i" using c1(3) c0(2,3,4) by auto
  from eliminate_trivial_Inr(1) [OF assms(1) e2 assms(3)] c1(1) obtain c2
    where c2: "eliminate_one solve alpha A b K i c1 = Inr c2" "ec i = Some c2"
    by auto
  from eliminate_one_cases [OF c2(1)] have "length c2 = length c1 \<and> \<not> c2 ! i"
    using n1 c1(2) c0(2,3) by auto
  then show ?thesis using c2(2) c1(2) c0(2,3) by simp
qed

text \<open>
  Claim C4. In the trivial-cone elimination that ends the default construction, the cover
  of a must-certify term \<open>i\<close> that is nonempty when the step starts becomes the all-false
  mask exactly when the solver reports the status \<open>solved\<close> with a value strictly below
  \<open>-100\<close> for the auxiliary problem of \<open>i\<close>, and is kept as it is otherwise; an empty
  cover is kept.
\<close>

theorem trivial_cone_elimination:
  assumes "distinct U"
    and "default_exp_covers solve alpha A b K U N = Inr ec"
    and "i \<in> set U"
  shows "\<exists>ec0 ec1 cov.
           initial_covers (length alpha) N U Map.empty = Inr ec0
         \<and> aggressive_reduction alpha U ec0 = Inr ec1
         \<and> eliminate_trivial solve alpha A b K U ec1 = Inr ec
         \<and> ec1 i = Some cov
         \<and> (\<not> np_any cov \<longrightarrow> ec i = Some cov)
         \<and> (np_any cov \<longrightarrow>
              (\<exists>mat st val.
                 cover_matrix alpha cov i = Inr mat
               \<and> solve \<lparr>rp_mat = mat, rp_A = A, rp_b = b, rp_K = K\<rparr> = (st, val)
               \<and> (ec i = Some (replicate (length cov) False) \<longleftrightarrow> st = solved \<and> val < - 100)
               \<and> (\<not> (st = solved \<and> val < - 100) \<longrightarrow> ec i = Some cov)))"
proof -
  from default_exp_covers_steps [OF assms(2)] obtain ec0 ec1
    where i0: "initial_covers (length alpha) N U Map.empty = Inr ec0"
      and a1: "aggressive_reduction alpha U ec0 = Inr ec1"
      and e2: "eliminate_trivial solve alpha A b K U ec1 = Inr ec"
    by blast
  from eliminate_trivial_Inr(1) [OF assms(1) e2 assms(3)] obtain cov cov'
    where c: "ec1 i = Some cov" "eliminate_one solve alpha A b K i cov = Inr cov'"
      "ec i = Some cov'"
    by blast
  have empty: "ec i = Some cov" if "\<not> np_any cov"
    using that c(2,3) by (simp add: eliminate_one_def)
  have nonempty: "\<exists>mat st val.
                 cover_matrix alpha cov i = Inr mat
               \<and> solve \<lparr>rp_mat = mat, rp_A = A, rp_b = b, rp_K = K\<rparr> = (st, val)
               \<and> (ec i = Some (replicate (length cov) False) \<longleftrightarrow> st = solved \<and> val < - 100)
               \<and> (\<not> (st = solved \<and> val < - 100) \<longrightarrow> ec i = Some cov)"
    if any: "np_any cov"
  proof -
    from c(2) any obtain mat where m: "cover_matrix alpha cov i = Inr mat"
      by (auto simp: eliminate_one_def split: sum.splits)
    obtain st val where s: "solve \<lparr>rp_mat = mat, rp_A = A, rp_b = b, rp_K = K\<rparr> = (st, val)"
      by (cases "solve \<lparr>rp_mat = mat, rp_A = A, rp_b = b, rp_K = K\<rparr>") auto
    have r: "cov' = (if st = solved \<and> val < - 100 then replicate (length cov) False else cov)"
      using c(2) any m s by (auto simp: eliminate_one_def)
    have ne: "cov \<noteq> replicate (length cov) False"
    proof
      assume "cov = replicate (length cov) False"
      then have "set cov \<subseteq> {False}" by (metis set_replicate_conv_if empty_subsetI subset_refl)
      then show False using any by (auto simp: np_any_def list_ex_iff)
    qed
    show ?thesis using m s r ne c(3) by auto
  qed
  show ?thesis using i0 a1 e2 c(1) empty nonempty by blast
qed

lemma sorted_sign_classes:
  assumes "sign_classes m c = (U, N, P)"
  shows "sorted_wrt (<) U"
proof -
  have "sorted_wrt (<) [0..<k]" for k :: nat by (simp add: sorted_wrt_upt)
  then show ?thesis
    using assms by (auto simp: sign_classes_def classify_U_def sorted_wrt_filter split: option.splits)
qed

lemma contents_array:
  assumes "is_bool_ndarray v"
  shows "contents mem v = bool_ndarray (shape v) (map mem (buffer v)) (writeable v)"
  using assms by (cases v) (simp_all add: contents_def is_bool_ndarray_def)

text \<open>
  Claim C5. After every construction of the cover helper that succeeds, with the cover map
  built by default or supplied by the caller, the cover of each must-certify index \<open>i\<close>
  is a boolean array that has position \<open>i\<close>, and that position is false: the entry
  \<open>i\<close> of its buffer, which is what \<open>expcovers[i][i]\<close> reads.
\<close>

theorem no_self_cover:
  assumes "ExpCoverHelper solve mem alpha c A b K arg = Inr (h, ws, mem')"
    and "i \<in> set (U_I h)"
  shows "\<exists>sh cov w. expcovers h i = Some (bool_ndarray sh cov w) \<and> length cov = prod_list sh
           \<and> i < length cov \<and> \<not> cov ! i \<and> self_entry sh cov i = Inr False"
proof -
  obtain U N P where sc: "sign_classes (length alpha) c = (U, N, P)"
    by (cases "sign_classes (length alpha) c") auto
  have dU: "distinct U" using distinct_sign_classes [OF sc] .
  have sU: "sorted_wrt (<) U" using sorted_sign_classes [OF sc] .
  show ?thesis
  proof (cases arg)
    case expcovers_None
    then obtain ec where d: "default_exp_covers solve alpha A b K U N = Inr ec"
      and h: "U_I h = U" "expcovers h = map_option default_array \<circ> ec"
      using assms(1) sc by (auto simp: ExpCoverHelper_def split: sum.splits)
    from default_exp_covers_entry [OF dU d] assms(2) h(1) obtain cov
      where "ec i = Some cov" "i < length cov" "\<not> cov ! i" by blast
    then show ?thesis using h(2) by (auto simp: default_array_def self_entry_def)
  next
    case (expcovers_dict d)
    then have v: "verify_exp_covers U d mem [] = Inr (mem', ws)"
      and h: "U_I h = U" "expcovers h = map_option (contents mem') \<circ> d"
      using assms(1) sc by (auto simp: ExpCoverHelper_def split: sum.splits)
    note r = verify_exp_covers_Inr [OF sU v]
    from r assms(2) h(1) obtain a where a: "self_cell d i = Some a" by blast
    from self_cell_SomeD [OF a] obtain v where
      v: "d i = Some v" "is_bool_ndarray v" "self_entry (shape v) (buffer v) i = Inr a" by blast
    have l: "length (buffer v) = prod_list (shape v)"
      using v(2) by (cases v) (simp_all add: is_bool_ndarray_def)
    note e = self_entry_InrD [OF v(3) l]
    have "a \<in> set (self_cells d U)" using a assms(2) h(1) by (auto simp: set_self_cells)
    then have na: "\<not> mem' a" using r by simp
    have x: "expcovers h i = Some (bool_ndarray (shape v) (map mem' (buffer v)) (writeable v))"
      using h(2) v(1) contents_array [OF v(2)] by simp
    have "self_entry (shape v) (map mem' (buffer v)) i = Inr False"
      using e na by (cases "shape v") (auto simp: self_entry_def)
    then show ?thesis using x e na l by simp
  next
    case expcovers_other
    then show ?thesis using assms(1) sc by (simp add: ExpCoverHelper_def)
  qed
qed

text \<open>
  Claim C6, as the code has it. With a cover map supplied (the argument is not \<open>None\<close>),
  construction raises iff the argument is not a dictionary, or at some must-certify index
  \<open>i\<close> the key is missing, the value is not a boolean array, the boolean array has no
  position \<open>i\<close>, its row \<open>i\<close> has no truth value, or the array is read-only and its
  entry \<open>i\<close> is true when the loop reaches it. A self-covering entry of a writeable array
  raises nothing. When construction succeeds, the memory of the arrays is the memory at the
  call with the entry \<open>expcovers[i][i]\<close> of every must-certify index \<open>i\<close> set to false
  and nothing else changed, so that the correction shows in every array that shares the
  entry; the helper holds the supplied arrays with the contents of that memory; and one
  warning was issued for each must-certify index whose entry was true when reached.
\<close>

theorem supplied_cover_validation:
  assumes "arg \<noteq> expcovers_None"
    and "sign_classes (length alpha) c = (U, N, P)"
  shows "((\<exists>e. ExpCoverHelper solve mem alpha c A b K arg = Inl e) \<longleftrightarrow>
            arg = expcovers_other
          \<or> (\<exists>d. arg = expcovers_dict d
                \<and> (\<exists>i \<in> set U. missing_key d i \<or> wrong_datatype d i \<or> too_short d i
                                \<or> ambiguous_row d i
                                \<or> (read_only d i \<and> reached_true d mem U i))))
       \<and> (\<forall>d h ws mem'. arg = expcovers_dict d
             \<and> ExpCoverHelper solve mem alpha c A b K arg = Inr (h, ws, mem') \<longrightarrow>
             U_I h = U
           \<and> (\<forall>a. mem' a \<longleftrightarrow> mem a \<and> a \<notin> set (self_cells d U))
           \<and> (\<forall>i \<in> set U. \<exists>v a. d i = Some v \<and> is_bool_ndarray v
                  \<and> self_entry (shape v) (buffer v) i = Inr a \<and> \<not> mem' a
                  \<and> expcovers h i
                      = Some (bool_ndarray (shape v) (map mem' (buffer v)) (writeable v)))
           \<and> ws = map (\<lambda>i. nonsensical_warning) (filter (reached_true d mem U) U))"
proof -
  have sU: "sorted_wrt (<) U" using sorted_sign_classes [OF assms(2)] .
  have err: "(\<exists>e. ExpCoverHelper solve mem alpha c A b K arg = Inl e) \<longleftrightarrow>
            arg = expcovers_other
          \<or> (\<exists>d. arg = expcovers_dict d
                \<and> (\<exists>i \<in> set U. missing_key d i \<or> wrong_datatype d i \<or> too_short d i
                                \<or> ambiguous_row d i
                                \<or> (read_only d i \<and> reached_true d mem U i)))"
  proof (cases arg)
    case expcovers_None
    then show ?thesis using assms(1) by simp
  next
    case (expcovers_dict d)
    have "(\<exists>e. ExpCoverHelper solve mem alpha c A b K arg = Inl e) \<longleftrightarrow>
            (\<exists>e. verify_exp_covers U d mem [] = Inl e)"
      using expcovers_dict assms(2) by (auto simp: ExpCoverHelper_def split: sum.splits)
    then show ?thesis
      using expcovers_dict verify_exp_covers_Inl [OF sU, of d mem "[]"] by simp
  next
    case expcovers_other
    then show ?thesis using assms(2) by (simp add: ExpCoverHelper_def)
  qed
  have ok: "U_I h = U
           \<and> (\<forall>a. mem' a \<longleftrightarrow> mem a \<and> a \<notin> set (self_cells d U))
           \<and> (\<forall>i \<in> set U. \<exists>v a. d i = Some v \<and> is_bool_ndarray v
                  \<and> self_entry (shape v) (buffer v) i = Inr a \<and> \<not> mem' a
                  \<and> expcovers h i
                      = Some (bool_ndarray (shape v) (map mem' (buffer v)) (writeable v)))
           \<and> ws = map (\<lambda>i. nonsensical_warning) (filter (reached_true d mem U) U)"
    if "arg = expcovers_dict d" "ExpCoverHelper solve mem alpha c A b K arg = Inr (h, ws, mem')"
    for d h ws mem'
  proof -
    from that assms(2) have v: "verify_exp_covers U d mem [] = Inr (mem', ws)"
      and h: "U_I h = U" "expcovers h = map_option (contents mem') \<circ> d"
      by (auto simp: ExpCoverHelper_def split: sum.splits)
    note r = verify_exp_covers_Inr [OF sU v]
    have m: "\<forall>a. mem' a \<longleftrightarrow> mem a \<and> a \<notin> set (self_cells d U)" using r by simp
    have e: "\<exists>v a. d i = Some v \<and> is_bool_ndarray v
                  \<and> self_entry (shape v) (buffer v) i = Inr a \<and> \<not> mem' a
                  \<and> expcovers h i
                      = Some (bool_ndarray (shape v) (map mem' (buffer v)) (writeable v))"
      if iU: "i \<in> set U" for i
    proof -
      from r iU obtain a where a: "self_cell d i = Some a" by blast
      from self_cell_SomeD [OF a] obtain v where
        v: "d i = Some v" "is_bool_ndarray v" "self_entry (shape v) (buffer v) i = Inr a"
        by blast
      have "a \<in> set (self_cells d U)" using a iU by (auto simp: set_self_cells)
      then have "\<not> mem' a" using m by simp
      moreover have "expcovers h i
                      = Some (bool_ndarray (shape v) (map mem' (buffer v)) (writeable v))"
        using h(2) v(1) contents_array [OF v(2)] by simp
      ultimately show ?thesis using v by blast
    qed
    show ?thesis using h(1) m e r by simp
  qed
  show ?thesis using err ok by blast
qed

subsection \<open>Instances of the elimination and of the validation\<close>

lemma default_exp_covers_elimination_example:
  "default_exp_covers (\<lambda>p. if rp_mat p = [[1]] then (solved, - 101) else (failed, 0))
       [[1], [2]] [] [] [] [0, 1] []
     = Inr [0 \<mapsto> [False, False], 1 \<mapsto> [True, False]]"
  by (simp add: default_exp_covers_def AGGRESSIVE_REDUCTION_def ELIMINATE_TRIVIAL_AGE_CONES_def
      initial_cover_def index_assign_def item_assign_def aggressive_reduction_def
      reduction_applies_def np_all_nonneg_def np_min_def row_sums_def
      eliminate_one_def np_any_def cover_matrix_def
      mask_select_def item_def vec_sub_def numeral_2_eq_2)

theorem trivial_cone_elimination_witness:
  "distinct [0, 1 :: nat]
   \<and> default_exp_covers (\<lambda>p. if rp_mat p = [[1]] then (solved, - 101) else (failed, 0))
         [[1], [2]] [] [] [] [0, 1] []
       = Inr [0 \<mapsto> [False, False], 1 \<mapsto> [True, False]]
   \<and> (0::nat) \<in> set [0, 1]
   \<and> (\<exists>ec1 cov mat st val.
         ec1 (0::nat) = Some cov \<and> np_any cov
       \<and> cover_matrix [[1], [2]] cov 0 = Inr mat
       \<and> (if rp_mat \<lparr>rp_mat = mat, rp_A = [], rp_b = [], rp_K = []\<rparr> = [[1]]
            then (solved, - 101 :: real) else (failed, 0)) = (st, val)
       \<and> ([0 \<mapsto> [False, False], 1 \<mapsto> [True, False]] (0::nat)
             = Some (replicate (length cov) False) \<longleftrightarrow> st = solved \<and> val < - 100))"
proof -
  let ?solve = "\<lambda>p. if rp_mat p = [[1]] then (solved, - 101 :: real) else (failed, 0)"
  have d: "distinct [0, 1 :: nat]" by simp
  have m: "(0::nat) \<in> set [0, 1]" by simp
  from trivial_cone_elimination [OF d default_exp_covers_elimination_example m]
  obtain ec0 ec1 cov where
    i0: "initial_covers (length [[1], [2::real]]) [] [0, 1] Map.empty = Inr ec0"
    and a1: "aggressive_reduction [[1], [2]] [0, 1] ec0 = Inr ec1"
    and c: "ec1 0 = Some cov"
    and r: "np_any cov \<longrightarrow>
              (\<exists>mat st val.
                 cover_matrix [[1], [2]] cov 0 = Inr mat
               \<and> ?solve \<lparr>rp_mat = mat, rp_A = [], rp_b = [], rp_K = []\<rparr> = (st, val)
               \<and> ([0 \<mapsto> [False, False], 1 \<mapsto> [True, False]] (0::nat)
                     = Some (replicate (length cov) False) \<longleftrightarrow> st = solved \<and> val < - 100)
               \<and> (\<not> (st = solved \<and> val < - 100) \<longrightarrow>
                     [0 \<mapsto> [False, False], 1 \<mapsto> [True, False]] (0::nat) = Some cov))"
    by (elim exE conjE) (rule that; assumption)
  have e0: "ec0 = [0 \<mapsto> [False, True], 1 \<mapsto> [True, False]]"
    using i0 by (simp add: initial_cover_def index_assign_def item_assign_def numeral_2_eq_2)
  have "ec1 = ec0"
    using a1 by (simp add: aggressive_reduction_def reduction_applies_def np_all_nonneg_def
        np_min_def row_sums_def)
  then have "cov = [False, True]" using c e0 by simp
  then have any: "np_any cov" by (simp add: np_any_def)
  from r any have "\<exists>mat st val.
                 cover_matrix [[1], [2]] cov 0 = Inr mat
               \<and> ?solve \<lparr>rp_mat = mat, rp_A = [], rp_b = [], rp_K = []\<rparr> = (st, val)
               \<and> ([0 \<mapsto> [False, False], 1 \<mapsto> [True, False]] (0::nat)
                     = Some (replicate (length cov) False) \<longleftrightarrow> st = solved \<and> val < - 100)
               \<and> (\<not> (st = solved \<and> val < - 100) \<longrightarrow>
                     [0 \<mapsto> [False, False], 1 \<mapsto> [True, False]] (0::nat) = Some cov)"
    by (rule mp)
  then obtain mat st val where
    "cover_matrix [[1], [2]] cov 0 = Inr mat"
    "?solve \<lparr>rp_mat = mat, rp_A = [], rp_b = [], rp_K = []\<rparr> = (st, val)"
    "[0 \<mapsto> [False, False], 1 \<mapsto> [True, False]] (0::nat)
        = Some (replicate (length cov) False) \<longleftrightarrow> st = solved \<and> val < - 100"
    by (elim exE conjE) (rule that; assumption)
  then have "\<exists>ec1 cov mat st val.
         ec1 (0::nat) = Some cov \<and> np_any cov
       \<and> cover_matrix [[1], [2]] cov 0 = Inr mat
       \<and> ?solve \<lparr>rp_mat = mat, rp_A = [], rp_b = [], rp_K = []\<rparr> = (st, val)
       \<and> ([0 \<mapsto> [False, False], 1 \<mapsto> [True, False]] (0::nat)
             = Some (replicate (length cov) False) \<longleftrightarrow> st = solved \<and> val < - 100)"
    using c any by (intro exI conjI)
  then show ?thesis
    using d default_exp_covers_elimination_example m by (intro conjI)
qed

text \<open>
  One writeable array of two entries, both true, stored under the keys 0 and 1: the loop
  clears its entry 0 for the key 0 and its entry 1 for the key 1, warns twice, and both
  covers of the helper are \<open>[False, False]\<close>. The entries are at the addresses 10 and 11;
  the entry at address 12 belongs to no cover and stays as it is.
\<close>

lemma ExpCoverHelper_shared_example:
  "\<exists>h mem'. ExpCoverHelper failing_solver (\<lambda>a. True) [[0], [1]] None [] [] []
                 (expcovers_dict [0 \<mapsto> bool_ndarray [2] [10, 11] True,
                                  1 \<mapsto> bool_ndarray [2] [10, 11] True])
               = Inr (h, [nonsensical_warning, nonsensical_warning], mem')
           \<and> U_I h = [0, 1]
           \<and> expcovers h 0 = Some (bool_ndarray [2] [False, False] True)
           \<and> expcovers h 1 = Some (bool_ndarray [2] [False, False] True)
           \<and> \<not> mem' 10 \<and> \<not> mem' 11 \<and> mem' 12"
  by (simp add: ExpCoverHelper_def sign_classes_def numeral_2_eq_2 is_bool_ndarray_def
      self_entry_def store_entry_def contents_def)

theorem no_self_cover_witness:
  "\<exists>h ws mem'. ExpCoverHelper failing_solver (\<lambda>a. True) [[0], [1]] None [] [] []
                 (expcovers_dict [0 \<mapsto> bool_ndarray [2] [10, 11] True,
                                  1 \<mapsto> bool_ndarray [2] [10, 11] True])
               = Inr (h, ws, mem')
           \<and> 1 \<in> set (U_I h)
           \<and> (\<exists>sh cov w. expcovers h 1 = Some (bool_ndarray sh cov w) \<and> length cov = prod_list sh
                 \<and> 1 < length cov \<and> \<not> cov ! 1 \<and> self_entry sh cov 1 = Inr False)"
proof -
  from ExpCoverHelper_shared_example obtain h mem' where
    c: "ExpCoverHelper failing_solver (\<lambda>a. True) [[0], [1]] None [] [] []
                 (expcovers_dict [0 \<mapsto> bool_ndarray [2] [10, 11] True,
                                  1 \<mapsto> bool_ndarray [2] [10, 11] True])
               = Inr (h, [nonsensical_warning, nonsensical_warning], mem')"
    and u: "U_I h = [0, 1]"
    by (elim exE conjE) (rule that; assumption)
  have m: "1 \<in> set (U_I h)" using u by simp
  from no_self_cover [OF c m] c m show ?thesis by blast
qed

theorem supplied_cover_validation_witness:
  "expcovers_dict [0 \<mapsto> bool_ndarray [2] [10, 11] True, 1 \<mapsto> bool_ndarray [2] [10, 11] True]
     \<noteq> expcovers_None
   \<and> sign_classes (length [[0], [1::real]]) None = ([0, 1], [], [])
   \<and> \<not> (\<exists>e. ExpCoverHelper failing_solver (\<lambda>a. True) [[0], [1]] None [] [] []
              (expcovers_dict [0 \<mapsto> bool_ndarray [2] [10, 11] True,
                               1 \<mapsto> bool_ndarray [2] [10, 11] True])
            = Inl e)
   \<and> (\<exists>h mem'. ExpCoverHelper failing_solver (\<lambda>a. True) [[0], [1]] None [] [] []
                 (expcovers_dict [0 \<mapsto> bool_ndarray [2] [10, 11] True,
                                  1 \<mapsto> bool_ndarray [2] [10, 11] True])
               = Inr (h, [nonsensical_warning, nonsensical_warning], mem')
          \<and> \<not> mem' 10 \<and> \<not> mem' 11 \<and> mem' 12
          \<and> expcovers h 0 = Some (bool_ndarray [2] [False, False] True)
          \<and> expcovers h 1 = Some (bool_ndarray [2] [False, False] True))"
proof -
  let ?d = "[0 \<mapsto> bool_ndarray [2] [10, 11] True, 1 \<mapsto> bool_ndarray [2] [10, 11] True]
              :: nat \<rightharpoonup> addr cover_value"
  let ?mem = "(\<lambda>a. True) :: memory"
  have a: "expcovers_dict ?d \<noteq> expcovers_None" by simp
  have s: "sign_classes (length [[0], [1::real]]) None = ([0, 1], [], [])"
    by (simp add: sign_classes_def numeral_2_eq_2)
  note t = supplied_cover_validation [OF a s, of failing_solver ?mem "[]" "[]" "[]"]
  have good: "\<not> (\<exists>i \<in> set [0, 1 :: nat]. missing_key ?d i \<or> wrong_datatype ?d i \<or> too_short ?d i
                     \<or> ambiguous_row ?d i \<or> (read_only ?d i \<and> reached_true ?d ?mem [0, 1] i))"
    by (simp add: missing_key_def wrong_datatype_def too_short_def ambiguous_row_def
        read_only_def is_bool_ndarray_def)
  have ne: "\<not> (\<exists>e. ExpCoverHelper failing_solver ?mem [[0], [1]] None [] [] [] (expcovers_dict ?d)
                     = Inl e)"
    using t good by blast
  from ExpCoverHelper_shared_example obtain h mem' where
    c: "ExpCoverHelper failing_solver ?mem [[0], [1]] None [] [] [] (expcovers_dict ?d)
          = Inr (h, [nonsensical_warning, nonsensical_warning], mem')"
    by (elim exE conjE) (rule that; assumption)
  have sc: "set (self_cells ?d [0, 1]) = {10, 11}"
    by (auto simp: self_cells_def List.map_filter_simps self_cell_def is_bool_ndarray_def
        self_entry_def)
  from t c have m: "\<forall>a. mem' a \<longleftrightarrow> ?mem a \<and> a \<notin> set (self_cells ?d [0, 1])"
    and e: "\<forall>i \<in> set [0, 1 :: nat]. \<exists>v a. ?d i = Some v \<and> is_bool_ndarray v
                  \<and> self_entry (shape v) (buffer v) i = Inr a \<and> \<not> mem' a
                  \<and> expcovers h i
                      = Some (bool_ndarray (shape v) (map mem' (buffer v)) (writeable v))"
    by blast+
  have mm: "\<not> mem' 10" "\<not> mem' 11" "mem' 12" using m sc by simp_all
  have "expcovers h 0 = Some (bool_ndarray [2] [False, False] True)"
    "expcovers h 1 = Some (bool_ndarray [2] [False, False] True)"
    using e mm by auto
  then show ?thesis using a s ne c mm by blast
qed

text \<open>
  Against claim C6 as stated: the supplied argument is a dictionary, the must-certify
  index 0 is a key and its value is a boolean array, and construction still raises, since
  the array is empty and reading its position 0 is out of range. The length of a mask is
  not checked otherwise: with \<open>m = 1\<close>, a boolean array of length 3 is accepted as it is.
\<close>

theorem supplied_cover_validation_counterexample:
  "ExpCoverHelper failing_solver no_memory [[0]] None [] [] []
       (expcovers_dict [0 \<mapsto> bool_ndarray [0] [] True]) = Inl IndexError
   \<and> sign_classes (length [[0::real]]) None = ([0], [], [])
   \<and> \<not> missing_key [0 \<mapsto> bool_ndarray [0] ([] :: addr list) True] 0
   \<and> \<not> wrong_datatype [0 \<mapsto> bool_ndarray [0] ([] :: addr list) True] 0
   \<and> is_bool_ndarray (bool_ndarray [0] ([] :: addr list) True)
   \<and> (\<exists>h. ExpCoverHelper failing_solver no_memory [[0]] None [] [] []
              (expcovers_dict [0 \<mapsto> bool_ndarray [3] [10, 11, 12] True])
            = Inr (h, [], no_memory)
          \<and> expcovers h 0 = Some (bool_ndarray [3] [False, False, False] True))"
  by (simp add: ExpCoverHelper_def sign_classes_def missing_key_def wrong_datatype_def
      is_bool_ndarray_def self_entry_def contents_def no_memory_def)

text \<open>
  Three more supplied maps that are dictionaries of boolean arrays under every must-certify
  key: an array with one row of two entries, whose row has no truth value; a read-only
  array whose own entry is true; and an array of shape \<open>(1, 1)\<close>, which is accepted and
  corrected.
\<close>

lemma ExpCoverHelper_shape_examples:
  "ExpCoverHelper failing_solver (\<lambda>a. True) [[0]] None [] [] []
       (expcovers_dict [0 \<mapsto> bool_ndarray [1, 2] [10, 11] True]) = Inl ValueError"
  "ExpCoverHelper failing_solver (\<lambda>a. True) [[0]] None [] [] []
       (expcovers_dict [0 \<mapsto> bool_ndarray [1] [10] False]) = Inl ValueError"
  "\<exists>h mem'. ExpCoverHelper failing_solver (\<lambda>a. True) [[0]] None [] [] []
                (expcovers_dict [0 \<mapsto> bool_ndarray [1, 1] [10] True])
              = Inr (h, [nonsensical_warning], mem')
            \<and> expcovers h 0 = Some (bool_ndarray [1, 1] [False] True)"
  by (simp_all add: ExpCoverHelper_def sign_classes_def is_bool_ndarray_def self_entry_def
      contents_def store_entry_def)

subsection \<open>The primal cone: the global equality block\<close>





lemma aligned_age_vector_update [simp]:
  "aligned_age_vector (s\<lparr>age_vectors := d\<rparr>) i = aligned_age_vector s i"
  by (simp add: aligned_age_vector_def Let_def cong: sum.case_cong option.case_cong if_cong)


















subsection \<open>The primal cone: the degenerate case and the rough violation\<close>

lemma linalg_norm_singleton: "linalg_norm ord [x] = Inr \<bar>x\<bar>"
  by (cases ord) (simp_all add: linalg_norm_def)

lemma degenerate_violation_eq:
  "degenerate_violation ord cv = linalg_norm ord (map (\<lambda>x. min x 0) cv)"
proof -
  have "(\<lambda>x::real. if 0 \<le> x then 0 else x) = (\<lambda>x. min x 0)" by (auto simp: min_def)
  then show ?thesis by (simp add: degenerate_violation_def)
qed

text \<open>
  Claim C7. With \<open>m = 1\<close>, \<^verbatim>\<open>conic_form\<close> returns the single block of the constraint
  \<open>c \<ge> 0\<close>, and \<^verbatim>\<open>violation\<close>, rough or not and for each norm, is the norm of the
  negative part of the value of \<open>c\<close>: 1 for the coefficient \<open>-1\<close> and 0 for the
  coefficient 2.
\<close>

theorem degenerate_case:
  assumes "pc_m s = 1"
  shows "conic_form s = Inr ([geq_zero_block (pc_c s)], s)
       \<and> violation dual_project proj_solve s \<sigma> ord rough
           = linalg_norm ord (map (\<lambda>x. min x 0) (expr_value \<sigma> (pc_c s)))
       \<and> (expr_value \<sigma> (pc_c s) = [- 1] \<longrightarrow>
            violation dual_project proj_solve s \<sigma> ord rough = Inr 1)
       \<and> (expr_value \<sigma> (pc_c s) = [2] \<longrightarrow>
            violation dual_project proj_solve s \<sigma> ord rough = Inr 0)"
proof -
  have v: "violation dual_project proj_solve s \<sigma> ord rough
             = linalg_norm ord (map (\<lambda>x. min x 0) (expr_value \<sigma> (pc_c s)))"
    using assms by (simp add: violation_def degenerate_violation_eq)
  have "conic_form s = Inr ([geq_zero_block (pc_c s)], s)"
    using assms by (simp add: conic_form_def)
  then show ?thesis using v by (auto simp: linalg_norm_singleton)
qed

lemma np_max_Max:
  fixes xs :: vec
  assumes "xs \<noteq> []"
  shows "np_max xs = Inr (Max (set xs))"
proof (cases xs)
  case Nil
  then show ?thesis using assms by simp
next
  case (Cons a list)
  have "Max (set (a # list)) = fold max list a" by (rule Max.set_eq_fold)
  then show ?thesis using Cons by (simp add: np_max_def)
qed

lemma dict_values_map:
  "\<forall>i \<in> set U. d i = Some (f i) \<Longrightarrow> dict_values U d = Inr (map f U)"
  by (induction U) (simp_all add: lookup_def)

lemma age_viols_map:
  assumes "\<forall>i \<in> set U. age_vectors s i = Some (av i) \<and> lambda_vars s i = Some (lam i)"
    and "\<forall>i \<in> set U. age_violation dual_project s \<sigma> i ord (expr_value \<sigma> (av i))
                           (expr_value \<sigma> (lam i)) = Inr (viol i)"
  shows "age_viols dual_project s \<sigma> ord U = Inr (map viol U)"
  using assms by (induction U) (simp_all add: lookup_def)

lemma sum_to_c_residual_eq:
  "sum_to_c_residual c (map f U)
     = map (\<lambda>k. max 0 (c ! k - (\<Sum>i\<leftarrow>U. f i ! k))) [0..<length c]"
proof -
  have "(\<lambda>x::real. if x < 0 then 0 else x) = max 0" by (auto simp: max_def)
  then show ?thesis by (simp add: sum_to_c_residual_def clip_negative_def comp_def)
qed

lemma finite_values_Fin:
  "\<forall>i \<in> set U. viol i = Fin (r i) \<Longrightarrow> finite_values (map viol U) = map r U"
  by (induction U) simp_all

lemma finite_values_filter:
  "\<forall>i \<in> set U. viol i \<noteq> PInf \<longrightarrow> viol i = Fin (r i) \<Longrightarrow>
     finite_values (map viol U) = map r (filter (\<lambda>i. viol i \<noteq> PInf) U)"
proof (induction U)
  case Nil
  then show ?case by simp
next
  case (Cons i U)
  then show ?case by (cases "viol i") auto
qed

text \<open>
  Claim C8, as the code has it. Take a cone with \<open>m > 1\<close> whose must-certify terms
  \<open>i\<close> have the age vectors \<open>av i\<close>, the multipliers \<open>lam i\<close> and the per-term AGE
  violations \<open>viol i\<close>, the values of \<^verbatim>\<open>_age_violation\<close>, and let \<open>sum_to_c_viol\<close> be
  the norm of the shortfall: at each index, the entry of \<open>c\<close> minus the sum of the entries
  of the age vectors, or 0 when that is negative. In rough mode:
  \<^item> if every per-term violation is finite, \<open>viol i = r i\<close>, and there is a must-certify
    term, the result is \<open>sum_to_c_viol\<close> plus the greatest \<open>r i\<close>;
  \<^item> if some per-term violation is infinite, the result is \<open>sum_to_c_viol\<close> plus the sum
    of the finite ones plus the exact projection distance of the value of \<open>c\<close>;
  \<^item> if there is no must-certify term, \<^verbatim>\<open>np.max\<close> raises ValueError.
\<close>

theorem rough_violation:
  assumes "1 < pc_m s"
    and "\<forall>i \<in> set (U_I (pc_ech s)).
           age_vectors s i = Some (av i) \<and> lambda_vars s i = Some (lam i)"
    and "\<forall>i \<in> set (U_I (pc_ech s)).
           age_violation dual_project s \<sigma> i ord (expr_value \<sigma> (av i)) (expr_value \<sigma> (lam i))
             = Inr (viol i)"
    and "linalg_norm ord
           (map (\<lambda>k. max 0 (expr_value \<sigma> (pc_c s) ! k
                             - (\<Sum>i\<leftarrow>U_I (pc_ech s). expr_value \<sigma> (av i) ! k)))
              [0..<length (pc_c s)])
           = Inr sum_to_c_viol"
  shows "(U_I (pc_ech s) \<noteq> [] \<and> (\<forall>i \<in> set (U_I (pc_ech s)). viol i = Fin (r i)) \<longrightarrow>
            violation dual_project proj_solve s \<sigma> ord True
              = Inr (sum_to_c_viol + Max (r ` set (U_I (pc_ech s)))))
       \<and> ((\<exists>i \<in> set (U_I (pc_ech s)). viol i = PInf)
            \<and> (\<forall>i \<in> set (U_I (pc_ech s)). viol i \<noteq> PInf \<longrightarrow> viol i = Fin (r i)) \<longrightarrow>
            violation dual_project proj_solve s \<sigma> ord True
              = Inr (sum_to_c_viol
                     + (\<Sum>i\<leftarrow>filter (\<lambda>i. viol i \<noteq> PInf) (U_I (pc_ech s)). r i)
                     + project proj_solve (expr_value \<sigma> (pc_c s)) (pc_lifted_alpha s)
                         (pc_A s) (pc_b s) (pc_K s)))
       \<and> (U_I (pc_ech s) = [] \<longrightarrow>
            violation dual_project proj_solve s \<sigma> ord True = Inl ValueError)"
proof -
  let ?U = "U_I (pc_ech s)" and ?c = "expr_value \<sigma> (pc_c s)"
  have dv: "dict_values ?U (age_vectors s) = Inr (map av ?U)"
    using assms(2) by (intro dict_values_map) simp
  have lc: "length ?c = length (pc_c s)" by (simp add: expr_value_def)
  have res: "linalg_norm ord (sum_to_c_residual ?c (map (expr_value \<sigma>) (map av ?U)))
               = Inr sum_to_c_viol"
    using assms(4) sum_to_c_residual_eq [of ?c "\<lambda>i. expr_value \<sigma> (av i)" ?U] lc
    by (simp add: comp_def)
  have vs: "age_viols dual_project s \<sigma> ord ?U = Inr (map viol ?U)"
    using age_viols_map [OF assms(2,3)] .
  have ex: "list_ex (\<lambda>v. v = PInf) (map viol ?U) \<longleftrightarrow> (\<exists>i \<in> set ?U. viol i = PInf)"
    by (simp add: list_ex_iff image_iff) metis
  have fin: "violation dual_project proj_solve s \<sigma> ord True
              = Inr (sum_to_c_viol + Max (r ` set ?U))"
    if ne: "?U \<noteq> []" and f: "\<forall>i \<in> set ?U. viol i = Fin (r i)"
  proof -
    have nx: "\<not> list_ex (\<lambda>v. v = PInf) (map viol ?U)" using ex f by auto
    have fv: "finite_values (map viol ?U) = map r ?U" using finite_values_Fin [OF f] .
    have "np_max (map r ?U) = Inr (Max (set (map r ?U)))" using ne by (intro np_max_Max) simp
    then have "np_max (map r ?U) = Inr (Max (r ` set ?U))" by simp
    then show ?thesis using assms(1) dv res vs nx fv by (simp add: violation_def)
  qed
  have inf: "violation dual_project proj_solve s \<sigma> ord True
              = Inr (sum_to_c_viol + (\<Sum>i\<leftarrow>filter (\<lambda>i. viol i \<noteq> PInf) ?U. r i)
                     + project proj_solve ?c (pc_lifted_alpha s) (pc_A s) (pc_b s) (pc_K s))"
    if i: "\<exists>i \<in> set ?U. viol i = PInf"
      and f: "\<forall>i \<in> set ?U. viol i \<noteq> PInf \<longrightarrow> viol i = Fin (r i)"
  proof -
    have x: "list_ex (\<lambda>v. v = PInf) (map viol ?U)" using ex i by simp
    have fv: "finite_values (map viol ?U) = map r (filter (\<lambda>i. viol i \<noteq> PInf) ?U)"
      using finite_values_filter [OF f] .
    show ?thesis using assms(1) dv res vs x fv by (simp add: violation_def)
  qed
  have none: "violation dual_project proj_solve s \<sigma> ord True = Inl ValueError" if "?U = []"
    using assms(1) dv res vs that by (simp add: violation_def np_max_def)
  show ?thesis using fin inf none by blast
qed

subsection \<open>The primal cone: worked instances\<close>

lemmas primal_unfold =
  PrimalCondSageCone_def check_cones_def ALLOWED_CONES_def lifted_alpha_shape1_def
  ExpCoverHelper_def sign_classes_def classify_U_def classify_N_def classify_P_def is_constant_def
  var_expr_def const_expr_def failing_solver_def
  default_exp_covers_def AGGRESSIVE_REDUCTION_def ELIMINATE_TRIVIAL_AGE_CONES_def
  initial_cover_def index_assign_def item_assign_def aggressive_reduction_def
  reduction_applies_def np_all_nonneg_def np_min_def row_sums_def zero_locs_def
  reduce_cover_def reduce_step_def float64_dot_def float64_times_def dot_def
  eliminate_one_def np_any_def cover_matrix_def
  mask_select_def item_def vec_sub_def numeral_2_eq_2 numeral_3_eq_3
  initialize_variables_def initialize_term_def cover_of_def mask_of_def default_array_def
  is_bool_ndarray_def count_nonzero_def Variable_def
  conic_form_def build_aligned_age_vectors_def aligned_age_vector_def mask_assign_def
  age_rel_ent_cone_data_def age_lin_eq_cone_data_def age_lambda_var_domain_constraints_def
  DualProductCone_conic_form_def
  lookup_def age_vectors_sum_to_c_def vstack_def columns_as_rows_def negate_def
  transpose_cols_def Let_def

lemma example_primal_fields:
  "pc_m example_primal = 2"
  "pc_c example_primal = [var_expr (ScalarVariable (user_name ''x'') 0), const_expr 1]"
  "pc_lifted_alpha example_primal = [[0], [1]]"
  "pc_A example_primal = [[1]]" "pc_b example_primal = [0]"
  "pc_K example_primal = [Cone ''+'' 1]"
  "U_I (pc_ech example_primal) = [0]"
  "cover_of (pc_ech example_primal) 0 = Inr [False, True]"
  "mask_of (pc_ech example_primal) 0 = Inr [False, True]"
  "pc_n example_primal = 1" "pc_lifted_n example_primal = 1"
  "nu_vars example_primal 0 = Some [var_expr (ScalarVariable (nu_name 0 ''g'') 0)]"
  "lambda_vars example_primal 0 = Some [var_expr (ScalarVariable (lambda_name 0 ''g'') 0)]"
  "age_vectors example_primal 0
     = Some [var_expr (ScalarVariable (c_name 0 ''g'') 1),
             var_expr (ScalarVariable (c_name 0 ''g'') 0)]"
  by (simp_all add: example_primal_def primal_unfold)

lemmas violation_unfold =
  lookup_def expr_value_def scalar_value_def var_expr_def const_expr_def
  age_violation_def np_any_def clip_negative_def mask_select_def item_def rel_entr_def
  xsum_def xadd_def abs_max0_def abs_min0_def cover_matrix_def vec_sub_def matT_vec_def
  lifted_alpha_shape1_def linalg_norm_def no_dual_violation_def dot_def
  sum_to_c_residual_def project_def Let_def

lemma example_primal_values:
  "dict_values (U_I (pc_ech example_primal)) (age_vectors example_primal)
     = Inr [[var_expr (ScalarVariable (c_name 0 ''g'') 1),
             var_expr (ScalarVariable (c_name 0 ''g'') 0)]]"
  "expr_value infeasible_values (pc_c example_primal) = [5, 1]"
  "expr_value feasible_values (pc_c example_primal) = [5, 1]"
  by (simp_all add: example_primal_fields lookup_def expr_value_def scalar_value_def
      var_expr_def const_expr_def infeasible_values_def feasible_values_def)

lemma example_primal_infeasible:
  "age_viols no_dual_violation example_primal infeasible_values ord_inf
     (U_I (pc_ech example_primal)) = Inr [PInf]"
  "linalg_norm ord_inf
     (sum_to_c_residual (expr_value infeasible_values (pc_c example_primal))
        (map (expr_value infeasible_values)
           [[var_expr (ScalarVariable (c_name 0 ''g'') 1),
             var_expr (ScalarVariable (c_name 0 ''g'') 0)]])) = Inr 5"
  by (simp_all add: example_primal_fields violation_unfold infeasible_values_def
      numeral_2_eq_2)

lemma example_primal_feasible:
  "age_viols no_dual_violation example_primal feasible_values ord_inf
     (U_I (pc_ech example_primal)) = Inr [Fin 0]"
  "linalg_norm ord_inf
     (sum_to_c_residual (expr_value feasible_values (pc_c example_primal))
        (map (expr_value feasible_values)
           [[var_expr (ScalarVariable (c_name 0 ''g'') 1),
             var_expr (ScalarVariable (c_name 0 ''g'') 0)]])) = Inr 1"
  by (simp_all add: example_primal_fields violation_unfold feasible_values_def
      numeral_2_eq_2)

lemma example_primal_projection:
  "project constant_projection (expr_value infeasible_values (pc_c example_primal))
     (pc_lifted_alpha example_primal) (pc_A example_primal) (pc_b example_primal)
     (pc_K example_primal) = 0"
  by (simp add: example_primal_values project_def)

lemma example_primal_three_fields:
  "pc_m example_primal_three = 3"
  "pc_c example_primal_three
     = [var_expr (ScalarVariable (user_name ''x'') 0),
        var_expr (ScalarVariable (user_name ''x'') 1),
        var_expr (ScalarVariable (user_name ''x'') 2)]"
  "pc_lifted_alpha example_primal_three = [[0], [1], [2]]"
  "pc_A example_primal_three = [[1]]" "pc_b example_primal_three = [0]"
  "pc_K example_primal_three = [Cone ''+'' 1]"
  "pc_n example_primal_three = 1" "pc_lifted_n example_primal_three = 1"
  "U_I (pc_ech example_primal_three) = [0, 1, 2]"
  by (simp_all add: example_primal_three_def primal_unfold)

lemma example_primal_three_covers:
  "cover_of (pc_ech example_primal_three) 0 = Inr [False, True, True]"
  "mask_of (pc_ech example_primal_three) 0 = Inr [False, True, True]"
  "cover_of (pc_ech example_primal_three) (Suc 0) = Inr [True, False, True]"
  "mask_of (pc_ech example_primal_three) (Suc 0) = Inr [True, False, True]"
  "cover_of (pc_ech example_primal_three) (Suc (Suc 0)) = Inr [True, True, False]"
  "mask_of (pc_ech example_primal_three) (Suc (Suc 0)) = Inr [True, True, False]"
  by (simp_all add: example_primal_three_def primal_unfold)

lemma example_primal_three_vars:
  "nu_vars example_primal_three 0
     = Some [var_expr (ScalarVariable (nu_name 0 ''g'') 0),
             var_expr (ScalarVariable (nu_name 0 ''g'') 1)]"
  "nu_vars example_primal_three (Suc 0)
     = Some [var_expr (ScalarVariable (nu_name 1 ''g'') 0),
             var_expr (ScalarVariable (nu_name 1 ''g'') 1)]"
  "nu_vars example_primal_three (Suc (Suc 0))
     = Some [var_expr (ScalarVariable (nu_name 2 ''g'') 0),
             var_expr (ScalarVariable (nu_name 2 ''g'') 1)]"
  "lambda_vars example_primal_three 0
     = Some [var_expr (ScalarVariable (lambda_name 0 ''g'') 0)]"
  "lambda_vars example_primal_three (Suc 0)
     = Some [var_expr (ScalarVariable (lambda_name 1 ''g'') 0)]"
  "lambda_vars example_primal_three (Suc (Suc 0))
     = Some [var_expr (ScalarVariable (lambda_name 2 ''g'') 0)]"
  "age_vectors example_primal_three 0
     = Some [var_expr (ScalarVariable (c_name 0 ''g'') 2),
             var_expr (ScalarVariable (c_name 0 ''g'') 0),
             var_expr (ScalarVariable (c_name 0 ''g'') 1)]"
  "age_vectors example_primal_three (Suc 0)
     = Some [var_expr (ScalarVariable (c_name 1 ''g'') 0),
             var_expr (ScalarVariable (c_name 1 ''g'') 2),
             var_expr (ScalarVariable (c_name 1 ''g'') 1)]"
  "age_vectors example_primal_three (Suc (Suc 0))
     = Some [var_expr (ScalarVariable (c_name 2 ''g'') 0),
             var_expr (ScalarVariable (c_name 2 ''g'') 1),
             var_expr (ScalarVariable (c_name 2 ''g'') 2)]"
  by (simp_all add: example_primal_three_def primal_unfold)

lemmas three_values_unfold =
  three_finite_values_def three_infinite_values_def expr_value_def scalar_value_def
  var_expr_def

lemma example_primal_three_values:
  "expr_value three_finite_values (pc_c example_primal_three) = [5, 1, - 1]"
  "expr_value three_infinite_values (pc_c example_primal_three) = [5, 1, - 1]"
  "expr_value three_finite_values (the (age_vectors example_primal_three 0)) = [- 1, 7, 0]"
  "expr_value three_finite_values (the (age_vectors example_primal_three (Suc 0))) = [0, - 3, 0]"
  "expr_value three_finite_values (the (age_vectors example_primal_three (Suc (Suc 0)))) = [0, 0, - 2]"
  "expr_value three_infinite_values (the (age_vectors example_primal_three 0)) = [- 1, 7, 0]"
  "expr_value three_infinite_values (the (age_vectors example_primal_three (Suc 0)))
     = [0, - 3, 0]"
  "expr_value three_infinite_values (the (age_vectors example_primal_three (Suc (Suc 0)))) = [- 1, 0, - 2]"
  by (simp_all add: example_primal_three_fields example_primal_three_vars three_values_unfold)

lemma example_primal_three_lambda_values:
  "expr_value three_finite_values (the (lambda_vars example_primal_three 0)) = [0]"
  "expr_value three_finite_values (the (lambda_vars example_primal_three (Suc 0))) = [0]"
  "expr_value three_finite_values (the (lambda_vars example_primal_three (Suc (Suc 0)))) = [0]"
  "expr_value three_infinite_values (the (lambda_vars example_primal_three 0)) = [0]"
  "expr_value three_infinite_values (the (lambda_vars example_primal_three (Suc 0))) = [0]"
  "expr_value three_infinite_values (the (lambda_vars example_primal_three (Suc (Suc 0))))
     = [0]"
  by (simp_all add: example_primal_three_vars three_values_unfold)

lemma example_primal_three_age_violations:
  "age_violation no_dual_violation example_primal_three three_finite_values 0 ord_1
     [- 1, 7, 0] [0] = Inr (Fin 1)"
  "age_violation no_dual_violation example_primal_three three_finite_values (Suc 0) ord_1
     [0, - 3, 0] [0] = Inr (Fin 3)"
  "age_violation no_dual_violation example_primal_three three_finite_values (Suc (Suc 0)) ord_1
     [0, 0, - 2] [0] = Inr (Fin 2)"
  "age_violation no_dual_violation example_primal_three three_infinite_values 0 ord_1
     [- 1, 7, 0] [0] = Inr (Fin 1)"
  "age_violation no_dual_violation example_primal_three three_infinite_values (Suc 0) ord_1
     [0, - 3, 0] [0] = Inr (Fin 3)"
  "age_violation no_dual_violation example_primal_three three_infinite_values (Suc (Suc 0))
     ord_1
     [- 1, 0, - 2] [0] = Inr PInf"
  by (simp_all add: example_primal_three_fields example_primal_three_covers
      example_primal_three_vars violation_unfold three_finite_values_def
      three_infinite_values_def numeral_2_eq_2 numeral_3_eq_3)

text \<open>
  The rough violation of the three-term cone. With the first values the shortfall is
  \<open>(6, 0, 1)\<close>, the entry \<open>-3\<close> at index 1 being clipped, and the per-term violations
  are 1, 3 and 2: the result \<open>7 + 3\<close> is the shortfall plus their maximum, not their sum
  and not the first of them. With the second values the shortfall is \<open>(7, 0, 1)\<close>, the
  violation of term 2 is infinite and the projection distance is 7: the result is
  \<open>8 + (1 + 3) + 7\<close>.
\<close>

theorem rough_violation_witness:
  "1 < pc_m example_primal_three
   \<and> U_I (pc_ech example_primal_three) = [0, 1, 2]
   \<and> age_viols no_dual_violation example_primal_three three_finite_values ord_1 [0, 1, 2]
       = Inr [Fin 1, Fin 3, Fin 2]
   \<and> violation no_dual_violation constant_projection example_primal_three
        three_finite_values ord_1 True = Inr 10
   \<and> age_viols no_dual_violation example_primal_three three_infinite_values ord_1 [0, 1, 2]
       = Inr [Fin 1, Fin 3, PInf]
   \<and> violation no_dual_violation constant_projection example_primal_three
        three_infinite_values ord_1 True = Inr 19"
proof -
  let ?s = example_primal_three
  let ?av = "\<lambda>i. the (age_vectors ?s i)" and ?lam = "\<lambda>i. the (lambda_vars ?s i)"
  let ?r = "\<lambda>i::nat. if i = 0 then 1 else if i = 1 then 3 else (2::real)"
  let ?fin = "\<lambda>i. Fin (?r i)"
  let ?inf = "\<lambda>i::nat. if i = 2 then PInf else Fin (?r i)"
  have m: "1 < pc_m ?s" by (simp add: example_primal_three_fields)
  have u: "U_I (pc_ech ?s) = [0, 1, 2]" by (simp add: example_primal_three_fields)
  have vars: "\<forall>i \<in> set (U_I (pc_ech ?s)).
                age_vectors ?s i = Some (?av i) \<and> lambda_vars ?s i = Some (?lam i)"
    by (simp add: u numeral_2_eq_2 example_primal_three_vars)
  have fin: "\<forall>i \<in> set (U_I (pc_ech ?s)).
               age_violation no_dual_violation ?s three_finite_values i ord_1
                 (expr_value three_finite_values (?av i))
                 (expr_value three_finite_values (?lam i)) = Inr (?fin i)"
    by (simp add: u numeral_2_eq_2 example_primal_three_values(3-5)
        example_primal_three_lambda_values example_primal_three_age_violations)
  have inf: "\<forall>i \<in> set (U_I (pc_ech ?s)).
               age_violation no_dual_violation ?s three_infinite_values i ord_1
                 (expr_value three_infinite_values (?av i))
                 (expr_value three_infinite_values (?lam i)) = Inr (?inf i)"
    by (simp add: u numeral_2_eq_2 example_primal_three_values(6-8)
        example_primal_three_lambda_values example_primal_three_age_violations)
  have lc: "length (pc_c ?s) = 3" by (simp add: example_primal_three_fields)
  have nf: "linalg_norm ord_1
              (map (\<lambda>k. max 0 (expr_value three_finite_values (pc_c ?s) ! k
                                - (\<Sum>i\<leftarrow>U_I (pc_ech ?s).
                                     expr_value three_finite_values (?av i) ! k)))
                 [0..<length (pc_c ?s)]) = Inr 7"
    by (simp add: u lc example_primal_three_values linalg_norm_def numeral_3_eq_3
        numeral_2_eq_2)
  have ni: "linalg_norm ord_1
              (map (\<lambda>k. max 0 (expr_value three_infinite_values (pc_c ?s) ! k
                                - (\<Sum>i\<leftarrow>U_I (pc_ech ?s).
                                     expr_value three_infinite_values (?av i) ! k)))
                 [0..<length (pc_c ?s)]) = Inr 8"
    by (simp add: u lc example_primal_three_values linalg_norm_def numeral_3_eq_3
        numeral_2_eq_2)
  note good = rough_violation [OF m vars fin nf, of ?r constant_projection]
  note bad = rough_violation [OF m vars inf ni, of ?r constant_projection]
  have mx: "Max (?r ` set [0, 1, 2]) = 3" by simp
  have "violation no_dual_violation constant_projection ?s three_finite_values ord_1 True
          = Inr (7 + Max (?r ` set (U_I (pc_ech ?s))))"
    using good by (simp add: u)
  then have v1: "violation no_dual_violation constant_projection ?s three_finite_values
                   ord_1 True = Inr 10"
    using mx by (simp add: u)
  have pr: "project constant_projection (expr_value three_infinite_values (pc_c ?s))
              (pc_lifted_alpha ?s) (pc_A ?s) (pc_b ?s) (pc_K ?s) = 7"
    by (simp add: example_primal_three_values project_def constant_projection_def)
  have "violation no_dual_violation constant_projection ?s three_infinite_values ord_1 True
          = Inr (8 + (\<Sum>i\<leftarrow>filter (\<lambda>i. ?inf i \<noteq> PInf) (U_I (pc_ech ?s)). ?r i)
                 + project constant_projection (expr_value three_infinite_values (pc_c ?s))
                     (pc_lifted_alpha ?s) (pc_A ?s) (pc_b ?s) (pc_K ?s))"
    using bad by (simp add: u)
  then have v2: "violation no_dual_violation constant_projection ?s three_infinite_values
                   ord_1 True = Inr 19"
    using pr by (simp add: u)
  have a1: "age_viols no_dual_violation ?s three_finite_values ord_1 [0, 1, 2]
              = Inr [Fin 1, Fin 3, Fin 2]"
    using age_viols_map [OF vars fin] by (simp add: u)
  have a2: "age_viols no_dual_violation ?s three_infinite_values ord_1 [0, 1, 2]
              = Inr [Fin 1, Fin 3, PInf]"
    using age_viols_map [OF vars inf] by (simp add: u)
  show ?thesis using m u a1 v1 a2 v2 by simp
qed

text \<open>
  Against claim C8 as stated: one per-term AGE violation is infinite and the exact
  projection distance of the value of \<open>c\<close> is 0, yet the rough violation is 5, the
  shortfall that the method adds to the projection distance.
\<close>

theorem rough_violation_counterexample:
  "age_viols no_dual_violation example_primal infeasible_values ord_inf
     (U_I (pc_ech example_primal)) = Inr [PInf]
   \<and> project constant_projection (expr_value infeasible_values (pc_c example_primal))
       (pc_lifted_alpha example_primal) (pc_A example_primal) (pc_b example_primal)
       (pc_K example_primal) = 0
   \<and> violation no_dual_violation constant_projection example_primal infeasible_values
       ord_inf True = Inr 5"
proof -
  have "violation no_dual_violation constant_projection example_primal infeasible_values
          ord_inf True = Inr 5"
    using example_primal_values(1) example_primal_infeasible example_primal_projection
    by (simp add: violation_def example_primal_fields(1))
  then show ?thesis using example_primal_infeasible(1) example_primal_projection by simp
qed

lemma degenerate_example_constructed:
  "\<exists>s. PrimalCondSageCone failing_solver no_memory [const_expr (- 1)] [[0]] 1 [[1]] 1 [0]
          [Cone ''+'' 1] ''g'' expcovers_None = Inr (s, [], no_memory)
       \<and> pc_m s = 1 \<and> pc_c s = [const_expr (- 1)]"
  by (simp add: primal_unfold)

theorem degenerate_case_witness:
  "\<exists>s. PrimalCondSageCone failing_solver no_memory [const_expr (- 1)] [[0]] 1 [[1]] 1 [0]
          [Cone ''+'' 1] ''g'' expcovers_None = Inr (s, [], no_memory)
       \<and> pc_m s = 1
       \<and> conic_form s = Inr ([geq_zero_block [const_expr (- 1)]], s)
       \<and> violation no_dual_violation constant_projection s infeasible_values ord_inf False
           = Inr 1"
proof -
  from degenerate_example_constructed obtain s where
    c: "PrimalCondSageCone failing_solver no_memory [const_expr (- 1)] [[0]] 1 [[1]] 1 [0]
          [Cone ''+'' 1] ''g'' expcovers_None = Inr (s, [], no_memory)"
    and m: "pc_m s = 1" and pc: "pc_c s = [const_expr (- 1)]"
    by (elim exE conjE) (rule that; assumption)
  have v: "expr_value infeasible_values (pc_c s) = [- 1]"
    by (simp add: pc expr_value_def scalar_value_def const_expr_def)
  from degenerate_case [OF m, of no_dual_violation constant_projection infeasible_values
      ord_inf False]
  have "conic_form s = Inr ([geq_zero_block [const_expr (- 1)]], s)
       \<and> violation no_dual_violation constant_projection s infeasible_values ord_inf False
           = Inr 1"
    using v pc by (simp add: linalg_norm_singleton)
  then show ?thesis using c m by blast
qed

subsection \<open>The dual cone: violation\<close>

lemma xle_refl: "xle x x"
  by (cases x) (simp_all add: xle_def)

lemma xle_trans: "xle x y \<Longrightarrow> xle y z \<Longrightarrow> xle x z"
  by (cases x; cases y; cases z) (simp_all add: xle_def)

lemma xle_total: "xle x y \<or> xle y x"
  by (cases x; cases y) (auto simp: xle_def)

lemma fold_xmax:
  "fold xmax ys x \<in> set (x # ys) \<and> (\<forall>y \<in> set (x # ys). xle y (fold xmax ys x))"
proof (induction ys arbitrary: x)
  case Nil
  then show ?case by (simp add: xle_refl)
next
  case (Cons a ys)
  let ?r = "fold xmax ys (xmax a x)"
  have ih: "?r \<in> set (xmax a x # ys)" "\<forall>y \<in> set (xmax a x # ys). xle y ?r"
    using Cons.IH [of "xmax a x"] by simp_all
  have m: "xmax a x = a \<or> xmax a x = x" by (simp add: xmax_def)
  have ub: "xle a (xmax a x)" "xle x (xmax a x)"
    using xle_total [of a x] by (auto simp: xmax_def xle_refl)
  have top: "xle (xmax a x) ?r" using ih(2) by simp
  have "xle a ?r" "xle x ?r" using ub top xle_trans by blast+
  moreover have "?r \<in> set (x # a # ys)" using ih(1) m by auto
  ultimately show ?case using ih(2) by simp
qed

lemma py_max_Inr:
  assumes "viols \<noteq> []"
  shows "\<exists>r. py_max viols = Inr r \<and> r \<in> set viols \<and> (\<forall>x \<in> set viols. xle x r)"
proof (cases viols)
  case Nil
  then show ?thesis using assms by simp
next
  case (Cons x ys)
  then show ?thesis using fold_xmax [of ys x] by (simp add: py_max_def)
qed

lemma py_max_finite:
  assumes "U \<noteq> []"
  shows "py_max (map (\<lambda>i. Fin (r i)) U) = Inr (Fin (Max (r ` set U)))"
proof -
  let ?vs = "map (\<lambda>i. Fin (r i)) U"
  from py_max_Inr [of ?vs] assms obtain x where
    x: "py_max ?vs = Inr x" "x \<in> set ?vs" "\<forall>y \<in> set ?vs. xle y x" by auto
  from x(2) obtain k where k: "k \<in> set U" "x = Fin (r k)" by auto
  have "\<forall>i \<in> set U. r i \<le> r k" using x(3) k(2) by (auto simp: xle_def)
  then have "Max (r ` set U) = r k" using k(1) by (intro Max_eqI) auto
  then show ?thesis using x(1) k(2) by simp
qed

lemma py_max_infinite:
  assumes "PInf \<in> set vs"
  shows "py_max vs = Inr PInf"
proof -
  have "vs \<noteq> []" using assms by auto
  from py_max_Inr [OF this] obtain x where
    x: "py_max vs = Inr x" "\<forall>y \<in> set vs. xle y x" by auto
  have "xle PInf x" using x(2) assms by blast
  then have "x = PInf" by (cases x) (simp_all add: xle_def)
  then show ?thesis using x(1) by simp
qed

lemma dual_viols_map:
  assumes "\<forall>i \<in> set U. dual_age_cone_violation primal_project feas_solve s \<sigma> i ord rough v
                           = Inr (viol i)"
  shows "dual_viols primal_project feas_solve s \<sigma> ord rough v U = Inr (map viol U)"
  using assms by (induction U) simp_all

lemma relent_residual_viol_finite:
  assumes "linalg_norm ord (map (\<lambda>(r, l). min 0 (r - l)) (zip (mat_vec mat mu_i) lb)) = Inr nrm"
  shows "relent_residual_viol ord mat mu_i (map Fin lb) = Inr (Fin nrm)"
proof -
  have f: "finite_values (map Fin lb) = lb" by (induction lb) simp_all
  have n: "\<not> list_ex (\<lambda>l. l = PInf) (map Fin lb)" by (auto simp: list_ex_iff)
  have c: "(\<lambda>(r::real, l). if 0 \<le> r - l then 0 else r - l) = (\<lambda>(r, l). min 0 (r - l))"
    by (auto simp: min_def)
  have "relent_residual_viol ord mat mu_i (map Fin lb)
          = (case linalg_norm ord
                    (map (\<lambda>(r, l). if 0 \<le> r - l then 0 else r - l)
                       (zip (mat_vec mat mu_i) lb)) of
               Inl e \<Rightarrow> Inl e
             | Inr nrm \<Rightarrow> Inr (Fin nrm))"
    unfolding relent_residual_viol_def f using n by simp
  then show ?thesis unfolding c using assms by simp
qed

text \<open>
  Claim C9, as the code has it. For a must-certify term \<open>i\<close> with the cover \<open>selector\<close>:
  \<^item> when the cover is empty the per-term violation is 0, whatever \<open>A \<mu>\<^sub>i + v\<^sub>i b\<close> is;
  \<^item> when the cover is not empty and the relative-entropy lower bounds \<open>lb\<close> of the
    covering terms are finite, the rough per-term violation is the norm of the residual
    \<open>mat \<mu>\<^sub>i - lb\<close> with its nonnegative entries set to zero, \<open>mat\<close> being the negated
    differences of the exponent rows, plus the violation of \<open>A \<mu>\<^sub>i + v\<^sub>i b \<in> K\<close>;
  \<^item> when a lower bound is infinite, the rough per-term violation is infinite.

  With \<open>viol i\<close> the per-term violations of the must-certify terms, the values of
  \<^verbatim>\<open>_dual_age_cone_violation\<close>, the violation that \<^verbatim>\<open>violation\<close> returns is the
  greatest of them: the greatest \<open>r i\<close> when all are finite, \<open>viol i = r i\<close>, and there
  is a must-certify term; infinite when one of them is; and with no must-certify term
  \<^verbatim>\<open>max\<close> raises ValueError.
\<close>

theorem dual_violation_is_max_of_terms:
  assumes "\<forall>i \<in> set (U_I (dc_ech s)).
             dual_age_cone_violation primal_project feas_solve s \<sigma> i ord rough
               (expr_value \<sigma> (dc_v s)) = Inr (viol i)"
  shows "(cover_of (dc_ech s) i = Inr selector \<and> count_nonzero selector = 0 \<longrightarrow>
            dual_age_cone_violation primal_project feas_solve s \<sigma> i ord rough v = Inr (Fin 0))
       \<and> (cover_of (dc_ech s) i = Inr selector \<and> 0 < count_nonzero selector
            \<and> mask_of (dc_ech s) i = Inr selector
            \<and> item v i = Inr v_i \<and> mask_select v selector = Inr expr2
            \<and> cover_matrix (dc_lifted_alpha s) selector i = Inr diff
            \<and> lookup (lifted_mu_vars s) i = Inr mu \<longrightarrow>
            (map (rel_entr v_i) expr2 = map Fin lb
             \<and> linalg_norm ord
                   (map (\<lambda>(r, l). min 0 (r - l))
                      (zip (mat_vec (negate diff) (expr_value \<sigma> mu)) lb)) = Inr nrm \<longrightarrow>
             dual_age_cone_violation primal_project feas_solve s \<sigma> i ord True v
               = Inr (Fin (nrm
                           + primal_project
                               (vec_add (mat_vec (dc_A s) (expr_value \<sigma> mu))
                                  (map (\<lambda>x. v_i * x) (dc_b s)))
                               (dc_K s))))
          \<and> (PInf \<in> set (map (rel_entr v_i) expr2) \<longrightarrow>
             dual_age_cone_violation primal_project feas_solve s \<sigma> i ord True v = Inr PInf))
       \<and> (U_I (dc_ech s) \<noteq> [] \<and> (\<forall>i \<in> set (U_I (dc_ech s)). viol i = Fin (r i)) \<longrightarrow>
            dual_violation primal_project feas_solve s \<sigma> ord rough
              = Inr (Fin (Max (r ` set (U_I (dc_ech s))))))
       \<and> ((\<exists>i \<in> set (U_I (dc_ech s)). viol i = PInf) \<longrightarrow>
            dual_violation primal_project feas_solve s \<sigma> ord rough = Inr PInf)
       \<and> (U_I (dc_ech s) = [] \<longrightarrow>
            dual_violation primal_project feas_solve s \<sigma> ord rough = Inl ValueError)"
proof -
  let ?U = "U_I (dc_ech s)"
  have a: "dual_age_cone_violation primal_project feas_solve s \<sigma> i ord rough v = Inr (Fin 0)"
    if "cover_of (dc_ech s) i = Inr selector" "count_nonzero selector = 0"
    using that by (simp add: dual_age_cone_violation_def)
  have b: "dual_age_cone_violation primal_project feas_solve s \<sigma> i ord True v
               = Inr (Fin (nrm
                           + primal_project
                               (vec_add (mat_vec (dc_A s) (expr_value \<sigma> mu))
                                  (map (\<lambda>x. v_i * x) (dc_b s)))
                               (dc_K s)))"
    if "cover_of (dc_ech s) i = Inr selector" "0 < count_nonzero selector"
      "mask_of (dc_ech s) i = Inr selector"
      "item v i = Inr v_i" "mask_select v selector = Inr expr2"
      "cover_matrix (dc_lifted_alpha s) selector i = Inr diff"
      "lookup (lifted_mu_vars s) i = Inr mu"
      "map (rel_entr v_i) expr2 = map Fin lb"
      "linalg_norm ord
         (map (\<lambda>(r, l). min 0 (r - l))
            (zip (mat_vec (negate diff) (expr_value \<sigma> mu)) lb)) = Inr nrm"
  proof -
    have "relent_residual_viol ord (negate diff) (expr_value \<sigma> mu) (map (rel_entr v_i) expr2)
            = Inr (Fin nrm)"
      unfolding that(8) using that(9) by (rule relent_residual_viol_finite)
    then show ?thesis
      using that(1-7) by (simp add: dual_age_cone_violation_def Let_def xadd_def)
  qed
  have b': "dual_age_cone_violation primal_project feas_solve s \<sigma> i ord True v = Inr PInf"
    if "cover_of (dc_ech s) i = Inr selector" "0 < count_nonzero selector"
      "mask_of (dc_ech s) i = Inr selector"
      "item v i = Inr v_i" "mask_select v selector = Inr expr2"
      "cover_matrix (dc_lifted_alpha s) selector i = Inr diff"
      "lookup (lifted_mu_vars s) i = Inr mu"
      "PInf \<in> set (map (rel_entr v_i) expr2)"
  proof -
    have "list_ex (\<lambda>l. l = PInf) (map (rel_entr v_i) expr2)"
      using that(8) by (simp add: list_ex_iff image_iff)
    then have "relent_residual_viol ord (negate diff) (expr_value \<sigma> mu)
                 (map (rel_entr v_i) expr2) = Inr PInf"
      by (simp add: relent_residual_viol_def)
    then show ?thesis
      using that(1-7) by (simp add: dual_age_cone_violation_def Let_def xadd_def)
  qed
  have vs: "dual_viols primal_project feas_solve s \<sigma> ord rough (expr_value \<sigma> (dc_v s)) ?U
              = Inr (map viol ?U)"
    using dual_viols_map [OF assms] .
  have c: "dual_violation primal_project feas_solve s \<sigma> ord rough
             = Inr (Fin (Max (r ` set ?U)))"
    if "?U \<noteq> []" "\<forall>i \<in> set ?U. viol i = Fin (r i)"
  proof -
    have "map viol ?U = map (\<lambda>i. Fin (r i)) ?U" using that(2) by simp
    then have "py_max (map viol ?U) = Inr (Fin (Max (r ` set ?U)))"
      using py_max_finite [OF that(1), of r] by metis
    then show ?thesis using vs by (simp add: dual_violation_def)
  qed
  have d: "dual_violation primal_project feas_solve s \<sigma> ord rough = Inr PInf"
    if "\<exists>i \<in> set ?U. viol i = PInf"
  proof -
    have "PInf \<in> set (map viol ?U)" using that by (simp add: image_iff) metis
    then show ?thesis using vs py_max_infinite by (simp add: dual_violation_def)
  qed
  have e: "dual_violation primal_project feas_solve s \<sigma> ord rough = Inl ValueError"
    if "?U = []"
    using that by (simp add: dual_violation_def py_max_def)
  show ?thesis using a b b' c d e by blast
qed

subsection \<open>The dual cone: worked instances\<close>

lemmas dual_unfold =
  DualCondSageCone_def check_cones_def ALLOWED_CONES_def ExpCoverHelper_def
  sign_classes_def classify_U_def classify_N_def classify_P_def is_constant_def
  var_expr_def const_expr_def failing_solver_def
  default_exp_covers_def AGGRESSIVE_REDUCTION_def ELIMINATE_TRIVIAL_AGE_CONES_def
  initial_cover_def index_assign_def item_assign_def aggressive_reduction_def
  reduction_applies_def np_all_nonneg_def np_min_def row_sums_def zero_locs_def
  reduce_cover_def reduce_step_def float64_dot_def float64_times_def dot_def
  eliminate_one_def np_any_def cover_matrix_def
  mask_select_def item_def vec_sub_def numeral_2_eq_2
  dual_initialize_variables_def dual_initialize_term_def cover_of_def mask_of_def
  default_array_def is_bool_ndarray_def count_nonzero_def Variable_def Let_def

lemma example_dual_fields:
  "dc_A example_dual = [[1]]" "dc_b example_dual = [0]" "dc_K example_dual = [Cone ''+'' 1]"
  "dc_v example_dual = [var_expr (ScalarVariable (user_name ''v'') 0),
                        var_expr (ScalarVariable (user_name ''v'') 1)]"
  "U_I (dc_ech example_dual) = [0, 1]"
  "cover_of (dc_ech example_dual) 0 = Inr [False, False]"
  "cover_of (dc_ech example_dual) (Suc 0) = Inr [False, False]"
  "lifted_mu_vars example_dual 0 = Some [var_expr (ScalarVariable (mu_name 0 ''g'') 0)]"
  by (simp_all add: example_dual_def dual_unfold)

lemma example_dual_free_fields:
  "dc_A example_dual_free = [[1]]" "dc_b example_dual_free = [0]"
  "dc_K example_dual_free = [Cone ''+'' 1]"
  "dc_lifted_alpha example_dual_free = [[0], [1]]"
  "dc_v example_dual_free = [var_expr (ScalarVariable (user_name ''v'') 0),
                             var_expr (ScalarVariable (user_name ''v'') 1)]"
  "U_I (dc_ech example_dual_free) = [0, 1]"
  "cover_of (dc_ech example_dual_free) 0 = Inr [False, True]"
  "cover_of (dc_ech example_dual_free) (Suc 0) = Inr [True, False]"
  "mask_of (dc_ech example_dual_free) 0 = Inr [False, True]"
  "mask_of (dc_ech example_dual_free) (Suc 0) = Inr [True, False]"
  "lifted_mu_vars example_dual_free 0 = Some [var_expr (ScalarVariable (mu_name 0 ''g'') 0)]"
  "lifted_mu_vars example_dual_free (Suc 0)
     = Some [var_expr (ScalarVariable (mu_name 1 ''g'') 0)]"
  by (simp_all add: example_dual_free_def dual_unfold)

lemmas dual_violation_unfold =
  dual_violation_def dual_age_cone_violation_def lookup_def expr_value_def scalar_value_def
  var_expr_def dual_values_def dual_values_two_def count_nonzero_def item_def mask_select_def cover_matrix_def
  vec_sub_def negate_def relent_residual_viol_def rel_entr_def mat_vec_def dot_def
  linalg_norm_def vec_add_def nonneg_distance_def xadd_def xpositive_def py_max_def
  xmax_def xle_def no_feasibility_def Let_def

lemma example_dual_violations:
  "expr_value dual_values (dc_v example_dual) = [1, 1]"
  "dual_age_cone_violation nonneg_distance no_feasibility example_dual dual_values 0 ord_inf
     True [1, 1] = Inr (Fin 0)"
  "nonneg_distance
     (vec_add (mat_vec (dc_A example_dual)
                 (expr_value dual_values [var_expr (ScalarVariable (mu_name 0 ''g'') 0)]))
        (map ((*) 1) (dc_b example_dual)))
     (dc_K example_dual) = 1"
  "dual_violation nonneg_distance no_feasibility example_dual dual_values ord_inf True
     = Inr (Fin 0)"
  by (simp_all add: example_dual_fields dual_violation_unfold)

lemma example_dual_free_violations:
  "expr_value dual_values_two (dc_v example_dual_free) = [1, 1]"
  "item [1, 1 :: real] (Suc 0) = Inr 1"
  "mask_select [1, 1 :: real] [True, False] = Inr [1]"
  "cover_matrix (dc_lifted_alpha example_dual_free) [True, False] (Suc 0) = Inr [[- 1]]"
  "lookup (lifted_mu_vars example_dual_free) (Suc 0)
     = Inr [var_expr (ScalarVariable (mu_name (Suc 0) ''g'') 0)]"
  "map (rel_entr 1) [1] = map Fin [0]"
  "expr_value dual_values_two [var_expr (ScalarVariable (mu_name (Suc 0) ''g'') 0)] = [- 3]"
  "dual_age_cone_violation nonneg_distance no_feasibility example_dual_free dual_values_two 0
     ord_inf True [1, 1] = Inr (Fin 1)"
  "dual_age_cone_violation nonneg_distance no_feasibility example_dual_free dual_values_two
     (Suc 0) ord_inf True [1, 1] = Inr (Fin 6)"
  by (simp_all add: example_dual_free_fields dual_violation_unfold)

text \<open>
  The dual cone with no companion coefficients, both terms must-certify and each covered
  by the other, at \<open>v = (1, 1)\<close>, \<open>\<mu>\<^sub>0 = 1\<close>, \<open>\<mu>\<^sub>1 = -3\<close>. For term 1 the residual is
  \<open>-3\<close>, of norm 3, and \<open>A \<mu>\<^sub>1 + v\<^sub>1 b = -3\<close> is at distance 3 from \<open>K\<close>: the per-term
  violation is \<open>3 + 3\<close>. For term 0 it is 1. The violation of the cone is 6, the value
  of the second term.
\<close>

theorem dual_violation_is_max_of_terms_witness:
  "U_I (dc_ech example_dual_free) = [0, 1]
   \<and> dual_age_cone_violation nonneg_distance no_feasibility example_dual_free dual_values_two 0
       ord_inf True [1, 1] = Inr (Fin 1)
   \<and> linalg_norm ord_inf
         (map (\<lambda>(r, l). min 0 (r - l)) (zip (mat_vec (negate [[- 1]]) [- 3]) [0])) = Inr 3
   \<and> nonneg_distance (vec_add (mat_vec [[1]] [- 3]) (map (\<lambda>x. 1 * x) [0])) [Cone ''+'' 1] = 3
   \<and> dual_age_cone_violation nonneg_distance no_feasibility example_dual_free dual_values_two 1
       ord_inf True [1, 1] = Inr (Fin (3 + 3))
   \<and> dual_violation nonneg_distance no_feasibility example_dual_free dual_values_two ord_inf
       True = Inr (Fin 6)"
proof -
  let ?s = example_dual_free
  let ?r = "\<lambda>i::nat. if i = 0 then 1 else (6::real)"
  have u: "U_I (dc_ech ?s) = [0, 1]" by (simp add: example_dual_free_fields)
  have tie: "\<forall>i \<in> set (U_I (dc_ech ?s)).
               dual_age_cone_violation nonneg_distance no_feasibility ?s dual_values_two i
                 ord_inf True (expr_value dual_values_two (dc_v ?s)) = Inr (Fin (?r i))"
    by (simp add: u example_dual_free_violations)
  have nrm: "linalg_norm ord_inf
               (map (\<lambda>(r, l). min 0 (r - l))
                  (zip (mat_vec (negate [[- 1]])
                          (expr_value dual_values_two
                             [var_expr (ScalarVariable (mu_name (Suc 0) ''g'') 0)])) [0])) = Inr 3"
    by (simp add: example_dual_free_violations(7) linalg_norm_def mat_vec_def negate_def
        dot_def)
  have dist: "nonneg_distance (vec_add (mat_vec [[1]] [- 3]) (map (\<lambda>x. 1 * x) [0]))
                [Cone ''+'' 1] = 3"
    by (simp add: nonneg_distance_def vec_add_def mat_vec_def dot_def)
  have c: "0 < count_nonzero [True, False]" by (simp add: count_nonzero_def)
  note t = dual_violation_is_max_of_terms [OF tie,
      of "Suc 0" "[True, False]" "[1, 1]" 1 "[1]" "[[- 1]]"
         "[var_expr (ScalarVariable (mu_name (Suc 0) ''g'') 0)]" "[0]" 3 ?r]
  have "dual_age_cone_violation nonneg_distance no_feasibility ?s dual_values_two (Suc 0)
          ord_inf True [1, 1]
        = Inr (Fin (3 + nonneg_distance
                          (vec_add (mat_vec (dc_A ?s)
                                      (expr_value dual_values_two
                                         [var_expr (ScalarVariable (mu_name (Suc 0) ''g'') 0)]))
                             (map (\<lambda>x. 1 * x) (dc_b ?s)))
                          (dc_K ?s)))"
    using t c example_dual_free_fields(8,10) example_dual_free_violations(2-6) nrm by blast
  then have one: "dual_age_cone_violation nonneg_distance no_feasibility ?s dual_values_two 1
                    ord_inf True [1, 1] = Inr (Fin (3 + 3))"
    using dist by (simp add: example_dual_free_fields example_dual_free_violations(7))
  have "dual_violation nonneg_distance no_feasibility ?s dual_values_two ord_inf True
          = Inr (Fin (Max (?r ` set (U_I (dc_ech ?s)))))"
    using t u by simp
  then have mx: "dual_violation nonneg_distance no_feasibility ?s dual_values_two ord_inf True
                   = Inr (Fin 6)"
    by (simp add: u)
  have n3: "linalg_norm ord_inf
         (map (\<lambda>(r, l). min 0 (r - l)) (zip (mat_vec (negate [[- 1]]) [- 3]) [0])) = Inr 3"
    using nrm by (simp add: example_dual_free_violations(7))
  show ?thesis using u example_dual_free_violations(8) n3 dist one mx by simp
qed

text \<open>
  Against claim C9 as stated: term 0 is must-certify and its cover is empty; the vector
  \<open>A \<mu>\<^sub>0 + v\<^sub>0 b = -1\<close> is at distance 1 from \<open>K\<close>, yet the rough per-term violation
  and the violation of the cone are 0.
\<close>

theorem dual_violation_is_max_of_terms_counterexample:
  "U_I (dc_ech example_dual) = [0, 1]
   \<and> cover_of (dc_ech example_dual) 0 = Inr [False, False]
   \<and> lifted_mu_vars example_dual 0 = Some [var_expr (ScalarVariable (mu_name 0 ''g'') 0)]
   \<and> expr_value dual_values (dc_v example_dual) = [1, 1]
   \<and> nonneg_distance
       (vec_add (mat_vec (dc_A example_dual)
                   (expr_value dual_values [var_expr (ScalarVariable (mu_name 0 ''g'') 0)]))
          (map ((*) 1) (dc_b example_dual)))
       (dc_K example_dual) = 1
   \<and> dual_age_cone_violation nonneg_distance no_feasibility example_dual dual_values 0 ord_inf
       True [1, 1] = Inr (Fin 0)
   \<and> dual_violation nonneg_distance no_feasibility example_dual dual_values ord_inf True
       = Inr (Fin 0)"
  using example_dual_fields(5,6,8) example_dual_violations by simp

subsection \<open>The primal cone: \<^verbatim>\<open>conic_form\<close> returns\<close>










lemma count_nonzero_le: "count_nonzero cov \<le> length cov"
  by (simp add: count_nonzero_def)



lemma term_ready_age_vectors [simp]:
  "term_ready (s\<lparr>age_vectors := d\<rparr>) i = term_ready s i"
  by (simp add: term_ready_def cong: sum.case_cong option.case_cong)



















end
